(* ===== verification/Lfi_Prelude.thy ===== *)
theory Lfi_Prelude
  imports Main "HOL-Library.Word" "HOL-Library.AList" "HOL-Library.Monad_Syntax"
begin

text \<open>
  What every theory of the development shares: names for the machine types of the C++ code, the
  collections of simplification rules that the component theories fill, a few facts about
  lists, association lists and words that the library does not have in the form needed here, and the
  interface \<open>event_runs\<close> of the components whose threads are interleaved.

  Machine integers. \<open>uint32_t\<close>, \<open>uint64_t\<close> and \<open>size_t\<close> values that are packed, masked or
  compared bitwise are words; a C \<open>int\<close> that only carries a return code is an \<open>int\<close>; where the
  code narrows a wide value to \<open>int\<close> or \<open>int32_t\<close> the narrowing is written out with \<open>i32\<close>.
\<close>

unbundle bit_operations_syntax

type_synonym u8 = "8 word"
type_synonym u32 = "32 word"
type_synonym u64 = "64 word"

text \<open>Conversion of a wide value to a 32-bit two's complement \<open>int\<close>, as the C++ casts do.\<close>

definition i32 :: "int \<Rightarrow> int" where
  "i32 x = signed_take_bit 31 x"

text \<open>Reading 64 bits as \<open>int64_t\<close>.\<close>

definition i64 :: "u64 \<Rightarrow> int" where
  "i64 w = sint w"

text \<open>\<open>duration_cast<milliseconds>\<close> of a nanosecond count: truncation towards zero.\<close>

definition ms_of_ns :: "int \<Rightarrow> int" where
  "ms_of_ns x = (if 0 \<le> x then x div 1000000 else - ((- x) div 1000000))"

named_theorems lfi_simps \<open>unfolding rules of the model's operations\<close>
named_theorems lfi_frame \<open>fields that an operation leaves unchanged\<close>

lemma i32_small: "- (2 ^ 31) \<le> x \<Longrightarrow> x < 2 ^ 31 \<Longrightarrow> i32 x = x"
  by (simp add: i32_def signed_take_bit_int_eq_self)

lemma i32_range: "- (2 ^ 31) \<le> i32 x \<and> i32 x < 2 ^ 31"
  unfolding i32_def
  using signed_take_bit_int_greater_eq_minus_exp [of 31 x] signed_take_bit_int_less_exp [of 31 x]
  by simp

lemma i32_wrap:
  assumes "2 ^ 31 \<le> x" and "x < 2 ^ 32"
  shows "i32 x = x - 2 ^ 32"
proof -
  have "x + 2147483648 = (x - 2147483648) + 4294967296" by simp
  then have "(x + 2147483648) mod 4294967296 = (x - 2147483648) mod 4294967296" by (metis mod_add_self2)
  also have "\<dots> = x - 2147483648" using assms by (intro mod_pos_pos_trivial) simp_all
  finally show ?thesis by (simp add: i32_def signed_take_bit_eq_take_bit_shift take_bit_eq_mod)
qed

lemma ms_of_ns_nonneg: "0 \<le> x \<Longrightarrow> 0 \<le> ms_of_ns x"
  by (simp add: ms_of_ns_def)

subsection \<open>Lists\<close>

lemma remove1_append_distinct:
  "x \<notin> set ys \<Longrightarrow> remove1 x (ys @ x # zs) = ys @ zs"
  by (induction ys) auto

lemma upt_split_at: "i < n \<Longrightarrow> [0..<n] = [0..<i] @ i # [Suc i..<n]"
  using upt_add_eq_append [of 0 i "n - i"] by (simp add: upt_rec [of i n])

subsection \<open>Association lists\<close>

text \<open>
  The \<open>unordered_map\<close> objects that the code iterates over are association lists: the list order
  stands for the unspecified iteration order, and no property depends on it.
\<close>

lemma map_of_update: "map_of (AList.update k v al) = (map_of al)(k \<mapsto> v)"
  by (simp add: update_conv' [symmetric] fun_eq_iff update_conv)

lemma map_of_delete: "map_of (AList.delete k al) = (map_of al)(k := None)"
  by (simp add: delete_conv')

lemma distinct_keys_update:
  "distinct (map fst al) \<Longrightarrow> distinct (map fst (AList.update k v al))"
  by (rule distinct_update)

lemma distinct_keys_delete:
  "distinct (map fst al) \<Longrightarrow> distinct (map fst (AList.delete k al))"
  by (rule distinct_delete)

subsection \<open>Runs of events\<close>

text \<open>
  The interface of a system whose threads are interleaved: one function executes an event, \<open>None\<close> when it
  cannot happen, and another executes a list of them. What the components prove about lists of events
  follows from what single events do.
\<close>

locale event_runs =
  fixes exec1 :: "'e \<Rightarrow> 's \<Rightarrow> 's option"
    and run :: "'e list \<Rightarrow> 's \<Rightarrow> 's option"
  assumes run_nil: "run [] s = Some s"
    and run_cons: "run (e # es) s = Option.bind (exec1 e s) (run es)"
begin

lemma run_append: "run (es @ es') s = Option.bind (run es s) (run es')"
  by (induction es arbitrary: s) (auto simp: run_nil run_cons split: Option.bind_splits)

text \<open>A property of the state and of what the events so far have added up to.\<close>

lemma run_trace:
  assumes "run es s = Some t" and "list_all ok es" and "P ws s"
    and one: "\<And>ws s e t. P ws s \<Longrightarrow> ok e \<Longrightarrow> exec1 e s = Some t \<Longrightarrow> P (ws @ tr e) t"
  shows "P (ws @ concat (map tr es)) t"
  using assms(1-3)
proof (induction es arbitrary: s ws)
  case (Cons e es)
  then obtain s1 where "exec1 e s = Some s1" "run es s1 = Some t"
    by (auto simp: run_cons split: Option.bind_splits)
  then show ?case using Cons.IH [of s1 "ws @ tr e"] one Cons.prems(2,3) by simp
qed (simp add: run_nil)

lemma run_keeps:
  assumes "run es s = Some t" and "list_all ok es" and "P s"
    and one: "\<And>s e t. P s \<Longrightarrow> ok e \<Longrightarrow> exec1 e s = Some t \<Longrightarrow> P t"
  shows "P t"
  using run_trace [where P = "\<lambda>_. P" and tr = "\<lambda>_. []", OF assms(1-3)] one by blast

text \<open>Events that each use up one unit of work.\<close>

lemma run_work:
  assumes "run es s = Some t" and "list_all ok es"
    and one: "\<And>s e t. ok e \<Longrightarrow> exec1 e s = Some t \<Longrightarrow> work s = Suc (work t)"
  shows "work s = length es + work t"
  using assms(1,2)
proof (induction es arbitrary: s)
  case (Cons e es)
  then obtain s1 where "exec1 e s = Some s1" "run es s1 = Some t"
    by (auto simp: run_cons split: Option.bind_splits)
  then show ?case using Cons.IH [of s1] one [of e s s1] Cons.prems(2) by simp
qed (simp add: run_nil)

end

end
