(* ===== verification/Linked_List.thy ===== *)
theory Linked_List
  imports Lfi_Prelude
begin

text \<open>
  \<open>DoubleLinkedList<T>\<close> of \<open>include/impl/DoubleLinkedList.hpp\<close>: an intrusive list. The links
  live in the nodes (\<open>T::next\<close>, \<open>T::prev\<close>, \<open>T::inserted\<close>), so a list is a head, a tail and
  a size together with a heap of nodes, and every write below goes through that heap in the
  order the code makes it, aliasing included. The abstraction \<open>dll_rep\<close> relates a list and its
  heap to the sequence of its nodes; the operations refine \<open>@\<close>, \<open>#\<close> and \<open>remove1\<close> on that
  sequence as long as their unchecked preconditions hold (the code has the checks commented
  out), and \<open>erase\<close> of a node that is in no list is shown to drop the whole list.
\<close>

subsection \<open>Nodes, heap and list\<close>

record 'a dnode =
  d_next :: "'a option"
  d_prev :: "'a option"
  d_inserted :: bool

type_synonym 'a dheap = "'a \<Rightarrow> 'a dnode"

record 'a dll =
  dl_head :: "'a option"
  dl_tail :: "'a option"
  dl_size :: u64

definition dll_empty :: "'a dll" where
  "dll_empty = \<lparr>dl_head = None, dl_tail = None, dl_size = 0\<rparr>"

definition dnode_fresh :: "'a dnode" where
  "dnode_fresh = \<lparr>d_next = None, d_prev = None, d_inserted = False\<rparr>"

subsection \<open>Operations\<close>

definition set_next :: "'a \<Rightarrow> 'a option \<Rightarrow> 'a dheap \<Rightarrow> 'a dheap" where
  "set_next n v h = h(n := (h n)\<lparr>d_next := v\<rparr>)"

definition set_prev :: "'a \<Rightarrow> 'a option \<Rightarrow> 'a dheap \<Rightarrow> 'a dheap" where
  "set_prev n v h = h(n := (h n)\<lparr>d_prev := v\<rparr>)"

definition set_inserted :: "'a \<Rightarrow> bool \<Rightarrow> 'a dheap \<Rightarrow> 'a dheap" where
  "set_inserted n v h = h(n := (h n)\<lparr>d_inserted := v\<rparr>)"

definition dll_push_back :: "'a option \<Rightarrow> 'a dll \<times> 'a dheap \<Rightarrow> 'a dll \<times> 'a dheap" where
  "dll_push_back node lh =
     (case node of
        None \<Rightarrow> lh
      | Some n \<Rightarrow>
          (let (l, h) = lh;
               (l1, h1) =
                 (case dl_tail l of
                    None \<Rightarrow> (l\<lparr>dl_head := Some n, dl_tail := Some n\<rparr>, h)
                  | Some t \<Rightarrow> (l\<lparr>dl_tail := Some n\<rparr>, set_prev n (Some t) (set_next t (Some n) h)))
           in (l1\<lparr>dl_size := dl_size l1 + 1\<rparr>, set_inserted n True h1)))"

definition dll_push_front :: "'a option \<Rightarrow> 'a dll \<times> 'a dheap \<Rightarrow> 'a dll \<times> 'a dheap" where
  "dll_push_front node lh =
     (case node of
        None \<Rightarrow> lh
      | Some n \<Rightarrow>
          (let (l, h) = lh;
               (l1, h1) =
                 (case dl_head l of
                    None \<Rightarrow> (l\<lparr>dl_head := Some n, dl_tail := Some n\<rparr>, h)
                  | Some t \<Rightarrow> (l\<lparr>dl_head := Some n\<rparr>, set_next n (Some t) (set_prev t (Some n) h)))
           in (l1\<lparr>dl_size := dl_size l1 + 1\<rparr>, set_inserted n True h1)))"

text \<open>
  \<open>erase\<close>: unlink from the predecessor (or move the head), then from the successor (or move the
  tail), then clear the node. The result is the iterator to the old successor.
\<close>

definition dll_erase :: "'a option \<Rightarrow> 'a dll \<times> 'a dheap \<Rightarrow> 'a option \<times> ('a dll \<times> 'a dheap)" where
  "dll_erase node lh =
     (case node of
        None \<Rightarrow> (None, lh)
      | Some n \<Rightarrow>
          (let (l, h) = lh;
               nxt = d_next (h n);
               (l1, h1) =
                 (case d_prev (h n) of
                    Some p \<Rightarrow> (l, set_next p (d_next (h n)) h)
                  | None \<Rightarrow> (l\<lparr>dl_head := d_next (h n)\<rparr>, h));
               (l2, h2) =
                 (case d_next (h1 n) of
                    Some q \<Rightarrow> (l1, set_prev q (d_prev (h1 n)) h1)
                  | None \<Rightarrow> (l1\<lparr>dl_tail := d_prev (h1 n)\<rparr>, h1));
               h3 = set_prev n None (set_next n None (set_inserted n False h2))
           in (nxt, (l2\<lparr>dl_size := dl_size l2 - 1\<rparr>, h3))))"

text \<open>Iteration from \<open>begin()\<close> to \<open>end()\<close> following \<open>next\<close>, with a bound on the steps.\<close>

fun dll_walk :: "nat \<Rightarrow> 'a option \<Rightarrow> 'a dheap \<Rightarrow> 'a list option" where
  "dll_walk fuel None h = Some []"
| "dll_walk 0 (Some n) h = None"
| "dll_walk (Suc fuel) (Some n) h = map_option ((#) n) (dll_walk fuel (d_next (h n)) h)"

subsection \<open>Abstraction\<close>

definition first_or :: "'a list \<Rightarrow> 'a option \<Rightarrow> 'a option" where
  "first_or xs q = (case xs of [] \<Rightarrow> q | x # _ \<Rightarrow> Some x)"

definition last_or :: "'a list \<Rightarrow> 'a option \<Rightarrow> 'a option" where
  "last_or xs p = (if xs = [] then p else Some (last xs))"

fun dseg :: "'a dheap \<Rightarrow> 'a option \<Rightarrow> 'a list \<Rightarrow> 'a option \<Rightarrow> bool" where
  "dseg h p [] q = True"
| "dseg h p (x # xs) q =
     (d_prev (h x) = p \<and> d_next (h x) = first_or xs q \<and> d_inserted (h x) \<and> dseg h (Some x) xs q)"

definition dll_rep :: "'a dll \<times> 'a dheap \<Rightarrow> 'a list \<Rightarrow> bool" where
  "dll_rep lh xs \<longleftrightarrow>
     distinct xs \<and> dl_head (fst lh) = first_or xs None \<and> dl_tail (fst lh) = last_or xs None \<and>
     dl_size (fst lh) = of_nat (length xs) \<and> dseg (snd lh) None xs None"

lemma first_or_simps [simp]:
  "first_or [] q = q" "first_or (x # xs) q = Some x"
  by (simp_all add: first_or_def)

lemma last_or_simps [simp]:
  "last_or [] p = p" "last_or (xs @ [x]) p = Some x" "last_or (x # xs) p = last_or xs (Some x)"
  by (simp_all add: last_or_def)

lemma first_or_append: "first_or (xs @ ys) q = first_or xs (first_or ys q)"
  by (cases xs) auto

lemma last_or_append: "last_or (xs @ ys) p = last_or ys (last_or xs p)"
  by (simp add: last_or_def)

lemma last_or_in: "last_or xs None = Some t \<Longrightarrow> t \<in> set xs"
  by (auto simp: last_or_def split: if_splits)

lemma dseg_append:
  "dseg h p (xs @ ys) q \<longleftrightarrow> dseg h p xs (first_or ys q) \<and> dseg h (last_or xs p) ys q"
  by (induction xs arbitrary: p) (auto simp: first_or_append)

lemma dseg_cong: "(\<And>x. x \<in> set xs \<Longrightarrow> h' x = h x) \<Longrightarrow> dseg h' p xs q = dseg h p xs q"
  by (induction xs arbitrary: p) auto

lemma dseg_inserted: "dseg h p xs q \<Longrightarrow> x \<in> set xs \<Longrightarrow> d_inserted (h x)"
  by (induction xs arbitrary: p) auto

lemma dll_rep_empty [simp]: "dll_rep (dll_empty, h) []"
  by (simp add: dll_rep_def dll_empty_def)

lemma dll_rep_frame:
  "dll_rep (l, h) xs \<Longrightarrow> (\<And>x. x \<in> set xs \<Longrightarrow> h' x = h x) \<Longrightarrow> dll_rep (l, h') xs"
  unfolding dll_rep_def using dseg_cong [of xs h' h None None] by auto

lemma dll_rep_inserted: "dll_rep lh xs \<Longrightarrow> x \<in> set xs \<Longrightarrow> d_inserted (snd lh x)"
  by (auto simp: dll_rep_def intro: dseg_inserted)

lemma dll_rep_unique: "dll_rep lh xs \<Longrightarrow> dll_rep lh ys \<Longrightarrow> xs = ys"
proof -
  have "dseg h p xs None \<Longrightarrow> dseg h p ys None \<Longrightarrow> first_or xs None = first_or ys None \<Longrightarrow> xs = ys"
    for h p
  proof (induction xs arbitrary: ys p)
    case Nil
    then show ?case by (cases ys) auto
  next
    case (Cons x xs)
    then show ?case by (cases ys) auto
  qed
  then show "dll_rep lh xs \<Longrightarrow> dll_rep lh ys \<Longrightarrow> xs = ys"
    by (auto simp: dll_rep_def)
qed


subsection \<open>Heap writes against segments\<close>

lemma dseg_frame [simp]:
  "n \<notin> set xs \<Longrightarrow> dseg (set_next n v h) p xs q = dseg h p xs q"
  "n \<notin> set xs \<Longrightarrow> dseg (set_prev n v h) p xs q = dseg h p xs q"
  "n \<notin> set xs \<Longrightarrow> dseg (set_inserted n b h) p xs q = dseg h p xs q"
  by (auto simp: set_next_def set_prev_def set_inserted_def intro!: dseg_cong)

lemma dnode_writes [simp]:
  "d_next (set_next n v h m) = (if m = n then v else d_next (h m))"
  "d_prev (set_next n v h m) = d_prev (h m)"
  "d_inserted (set_next n v h m) = d_inserted (h m)"
  "d_next (set_prev n v h m) = d_next (h m)"
  "d_prev (set_prev n v h m) = (if m = n then v else d_prev (h m))"
  "d_inserted (set_prev n v h m) = d_inserted (h m)"
  "d_next (set_inserted n b h m) = d_next (h m)"
  "d_prev (set_inserted n b h m) = d_prev (h m)"
  "d_inserted (set_inserted n b h m) = (if m = n then b else d_inserted (h m))"
  by (simp_all add: set_next_def set_prev_def set_inserted_def)

lemma set_other [simp]:
  "m \<noteq> n \<Longrightarrow> set_next n v h m = h m"
  "m \<noteq> n \<Longrightarrow> set_prev n v h m = h m"
  "m \<noteq> n \<Longrightarrow> set_inserted n b h m = h m"
  by (simp_all add: set_next_def set_prev_def set_inserted_def)

lemma dseg_relink_last:
  "dseg h p ys q \<Longrightarrow> distinct ys \<Longrightarrow> last_or ys None = Some y \<Longrightarrow>
   dseg (set_next y q' h) p ys q'"
  by (cases ys rule: rev_cases) (auto simp: dseg_append)

lemma dseg_relink_first:
  "dseg h p zs q \<Longrightarrow> distinct zs \<Longrightarrow> first_or zs None = Some z \<Longrightarrow>
   dseg (set_prev z p' h) p' zs q"
  by (cases zs) auto

subsection \<open>The operations refine the list operations\<close>

lemma dll_push_back_rep:
  assumes rep: "dll_rep (l, h) xs" and new: "n \<notin> set xs" and fresh: "h n = dnode_fresh"
    and res: "dll_push_back (Some n) (l, h) = (l', h')"
  shows "dll_rep (l', h') (xs @ [n])" and "\<And>m. m \<notin> set xs \<Longrightarrow> m \<noteq> n \<Longrightarrow> h' m = h m"
proof -
  have goal: "dll_rep (l', h') (xs @ [n]) \<and> (\<forall>m. m \<notin> set xs \<longrightarrow> m \<noteq> n \<longrightarrow> h' m = h m)"
  proof (cases xs rule: rev_cases)
    case Nil
    with assms show ?thesis
      by (auto simp: dll_push_back_def dll_rep_def dnode_fresh_def)
  next
    case (snoc ys t)
    with assms show ?thesis
      by (auto simp: dll_push_back_def dll_rep_def dnode_fresh_def dseg_append first_or_append last_or_append)
  qed
  then show "dll_rep (l', h') (xs @ [n])" and "\<And>m. m \<notin> set xs \<Longrightarrow> m \<noteq> n \<Longrightarrow> h' m = h m"
    by auto
qed

lemma dll_push_front_rep:
  assumes rep: "dll_rep (l, h) xs" and new: "n \<notin> set xs" and fresh: "h n = dnode_fresh"
    and res: "dll_push_front (Some n) (l, h) = (l', h')"
  shows "dll_rep (l', h') (n # xs)" and "\<And>m. m \<notin> set xs \<Longrightarrow> m \<noteq> n \<Longrightarrow> h' m = h m"
proof -
  have goal: "dll_rep (l', h') (n # xs) \<and> (\<forall>m. m \<notin> set xs \<longrightarrow> m \<noteq> n \<longrightarrow> h' m = h m)"
    using assms
    by (cases xs) (auto simp: dll_push_front_def dll_rep_def dnode_fresh_def)
  then show "dll_rep (l', h') (n # xs)" and "\<And>m. m \<notin> set xs \<Longrightarrow> m \<noteq> n \<Longrightarrow> h' m = h m"
    by auto
qed

lemma dll_erase_rep:
  assumes rep: "dll_rep (l, h) (ys @ n # zs)"
    and res: "dll_erase (Some n) (l, h) = (it, (l', h'))"
  shows "dll_rep (l', h') (ys @ zs)" and "it = first_or zs None" and "h' n = dnode_fresh"
    and "\<And>m. m \<notin> set ys \<Longrightarrow> m \<notin> set zs \<Longrightarrow> m \<noteq> n \<Longrightarrow> h' m = h m"
proof -
  from rep have dist: "distinct ys" "distinct zs" "n \<notin> set ys" "n \<notin> set zs" "set ys \<inter> set zs = {}"
    and seg: "dseg h None ys (Some n)" "dseg h (Some n) zs None"
    and links: "d_prev (h n) = last_or ys None" "d_next (h n) = first_or zs None"
    and ends: "dl_head l = first_or ys (Some n)" "dl_tail l = last_or zs (Some n)"
    and size: "dl_size l = of_nat (length ys + length zs) + 1"
    by (auto simp: dll_rep_def dseg_append first_or_append last_or_append)
  have goal: "dll_rep (l', h') (ys @ zs) \<and> it = first_or zs None \<and> h' n = dnode_fresh \<and>
      (\<forall>m. m \<notin> set ys \<longrightarrow> m \<notin> set zs \<longrightarrow> m \<noteq> n \<longrightarrow> h' m = h m)"
  proof (cases ys rule: rev_cases)
    case Nil
    then show ?thesis
      using res dist seg links ends size
      by (cases zs) (auto simp: dll_erase_def dll_rep_def dnode_fresh_def)
  next
    case (snoc ys' p)
    then show ?thesis
      using res dist seg links ends size
      by (cases zs) (auto simp: dll_erase_def dll_rep_def dnode_fresh_def dseg_append first_or_append last_or_append)
  qed
  then show "dll_rep (l', h') (ys @ zs)" and "it = first_or zs None" and "h' n = dnode_fresh"
    and "\<And>m. m \<notin> set ys \<Longrightarrow> m \<notin> set zs \<Longrightarrow> m \<noteq> n \<Longrightarrow> h' m = h m"
    by auto
qed

text \<open>Following \<open>next\<close> from the head visits the represented sequence and stops.\<close>

lemma dseg_walk: "dseg h p xs None \<Longrightarrow> dll_walk (length xs) (first_or xs None) h = Some xs"
  by (induction xs arbitrary: p) auto

lemma dll_walk_rep: "dll_rep (l, h) xs \<Longrightarrow> dll_walk (length xs) (dl_head l) h = Some xs"
  using dseg_walk [of h None xs] by (simp add: dll_rep_def)

subsection \<open>The contract as an interface\<close>

text \<open>
  What the fault-tolerance code relies on: \<open>add\<close> appends a node that is in no list, \<open>del\<close>
  removes a node that is in this list and makes it available again, and neither touches the
  availability of other nodes. Histories of such calls are then the histories of a sequence.
\<close>

datatype 'a list_op = Add 'a | Del 'a

fun run_ops :: "('a \<Rightarrow> 's \<Rightarrow> 's) \<Rightarrow> ('a \<Rightarrow> 's \<Rightarrow> 's) \<Rightarrow> 'a list_op list \<Rightarrow> 's \<Rightarrow> 's" where
  "run_ops add del [] s = s"
| "run_ops add del (Add x # ops) s = run_ops add del ops (add x s)"
| "run_ops add del (Del x # ops) s = run_ops add del ops (del x s)"

fun ops_legal :: "'a list_op list \<Rightarrow> 'a list \<Rightarrow> bool" where
  "ops_legal [] xs = True"
| "ops_legal (Add x # ops) xs = (x \<notin> set xs \<and> ops_legal ops (xs @ [x]))"
| "ops_legal (Del x # ops) xs = (x \<in> set xs \<and> ops_legal ops (remove1 x xs))"

fun ops_list :: "'a list_op list \<Rightarrow> 'a list \<Rightarrow> 'a list" where
  "ops_list [] xs = xs"
| "ops_list (Add x # ops) xs = ops_list ops (xs @ [x])"
| "ops_list (Del x # ops) xs = ops_list ops (remove1 x xs)"

locale intrusive_list =
  fixes rep :: "'s \<Rightarrow> 'a list \<Rightarrow> bool"
    and ready :: "'s \<Rightarrow> 'a \<Rightarrow> bool"
    and add :: "'a \<Rightarrow> 's \<Rightarrow> 's"
    and del :: "'a \<Rightarrow> 's \<Rightarrow> 's"
  assumes rep_distinct: "rep s xs \<Longrightarrow> distinct xs"
    and add_rep: "rep s xs \<Longrightarrow> ready s x \<Longrightarrow> x \<notin> set xs \<Longrightarrow> rep (add x s) (xs @ [x])"
    and add_ready: "rep s xs \<Longrightarrow> ready s x \<Longrightarrow> x \<notin> set xs \<Longrightarrow> y \<noteq> x \<Longrightarrow> y \<notin> set xs \<Longrightarrow>
      ready (add x s) y = ready s y"
    and del_rep: "rep s xs \<Longrightarrow> x \<in> set xs \<Longrightarrow> rep (del x s) (remove1 x xs)"
    and del_ready: "rep s xs \<Longrightarrow> x \<in> set xs \<Longrightarrow> ready (del x s) x"
    and del_other: "rep s xs \<Longrightarrow> x \<in> set xs \<Longrightarrow> y \<notin> set xs \<Longrightarrow> ready (del x s) y = ready s y"
begin

lemma run_rep:
  "rep s xs \<Longrightarrow> (\<forall>x. x \<notin> set xs \<longrightarrow> ready s x) \<Longrightarrow> ops_legal ops xs \<Longrightarrow>
   rep (run_ops add del ops s) (ops_list ops xs)"
proof (induction ops arbitrary: s xs)
  case Nil
  then show ?case by simp
next
  case (Cons op ops)
  show ?case
  proof (cases op)
    case (Add x)
    with Cons.prems have "rep (add x s) (xs @ [x])"
      and "\<forall>y. y \<notin> set (xs @ [x]) \<longrightarrow> ready (add x s) y"
      by (auto simp: add_rep add_ready)
    with Cons Add show ?thesis by simp
  next
    case (Del x)
    with Cons.prems have "rep (del x s) (remove1 x xs)"
      and "\<forall>y. y \<notin> set (remove1 x xs) \<longrightarrow> ready (del x s) y"
      using rep_distinct [of s xs] by (auto simp: del_rep del_ready del_other)
    with Cons Del show ?thesis by simp
  qed
qed

text \<open>Taking the head until nothing is left, as the cancellation of a communicator does.\<close>

lemma drain_rep: "rep s xs \<Longrightarrow> rep (fold del xs s) []"
proof (induction xs arbitrary: s)
  case Nil
  then show ?case by simp
next
  case (Cons x xs)
  have "rep (del x s) xs" using del_rep [OF Cons.prems, of x] by simp
  then show ?case using Cons.IH by simp
qed

end

lemma dll_rep_distinct: "dll_rep lh xs \<Longrightarrow> distinct xs"
  by (simp add: dll_rep_def)

lemma dll_push_back_ready:
  assumes "dll_rep lh xs" and "snd lh n = dnode_fresh" and "n \<notin> set xs"
  shows "dll_rep (dll_push_back (Some n) lh) (xs @ [n])"
    and "\<And>m. m \<noteq> n \<Longrightarrow> m \<notin> set xs \<Longrightarrow> snd (dll_push_back (Some n) lh) m = snd lh m"
proof -
  obtain l' h' where res: "dll_push_back (Some n) (fst lh, snd lh) = (l', h')"
    by (metis prod.exhaust)
  note * = dll_push_back_rep [of "fst lh" "snd lh" xs n l' h', OF _ assms(3,2) res]
  show "dll_rep (dll_push_back (Some n) lh) (xs @ [n])"
    and "\<And>m. m \<noteq> n \<Longrightarrow> m \<notin> set xs \<Longrightarrow> snd (dll_push_back (Some n) lh) m = snd lh m"
    using * assms(1) res by simp_all
qed

lemma dll_erase_ready:
  assumes "dll_rep lh xs" and "n \<in> set xs"
  shows "dll_rep (snd (dll_erase (Some n) lh)) (remove1 n xs)"
    and "snd (snd (dll_erase (Some n) lh)) n = dnode_fresh"
    and "\<And>m. m \<notin> set xs \<Longrightarrow> snd (snd (dll_erase (Some n) lh)) m = snd lh m"
proof -
  from \<open>n \<in> set xs\<close> obtain ys zs where xs: "xs = ys @ n # zs" and ys: "n \<notin> set ys"
    by (meson split_list_first)
  obtain it l' h' where res: "dll_erase (Some n) (fst lh, snd lh) = (it, (l', h'))"
    by (metis prod.exhaust)
  note * = dll_erase_rep [of "fst lh" "snd lh" ys n zs it l' h', OF _ res]
  show "dll_rep (snd (dll_erase (Some n) lh)) (remove1 n xs)"
    and "snd (snd (dll_erase (Some n) lh)) n = dnode_fresh"
    and "\<And>m. m \<notin> set xs \<Longrightarrow> snd (snd (dll_erase (Some n) lh)) m = snd lh m"
    using * assms(1) res xs ys by (auto simp: remove1_append_distinct)
qed

interpretation dll: intrusive_list dll_rep "\<lambda>lh n. snd lh n = dnode_fresh"
  "\<lambda>n. dll_push_back (Some n)" "\<lambda>n lh. snd (dll_erase (Some n) lh)"
  by unfold_locales
    (simp_all add: dll_rep_distinct dll_push_back_ready dll_erase_ready)

subsection \<open>What the unchecked preconditions cost\<close>

text \<open>
  \<open>erase\<close> tests neither \<open>inserted\<close> nor membership. On a node that is in no list both of its
  links are null, so the code takes the two "I am an end of the list" branches: the head and
  the tail become null and the size is decremented, whatever the list held.
\<close>

lemma dll_erase_foreign:
  "h n = dnode_fresh \<Longrightarrow>
   dll_erase (Some n) (l, h) =
     (None, (\<lparr>dl_head = None, dl_tail = None, dl_size = dl_size l - 1\<rparr>, h))"
  by (simp add: dll_erase_def dnode_fresh_def set_next_def set_prev_def set_inserted_def fun_eq_iff)

subsection \<open>Properties\<close>

text \<open>C26. Refinement of the intrusive list. Any history of \<open>push_back\<close> and \<open>erase\<close> calls on an
  initially empty list that never pushes a node twice nor erases one that is absent leaves the head,
  the tail, the size and the links describing exactly the sequence that appending and deleting give,
  and following \<open>next\<close> from the head visits that sequence and stops.\<close>

theorem dll_history:
  assumes "ops_legal ops []"
    and "run_ops (\<lambda>n. dll_push_back (Some n)) (\<lambda>n lh. snd (dll_erase (Some n) lh)) ops
           (dll_empty, \<lambda>_. dnode_fresh) = (l, h)"
  shows "dll_rep (l, h) (ops_list ops []) \<and>
    dll_walk (length (ops_list ops [])) (dl_head l) h = Some (ops_list ops []) \<and>
    dl_size l = of_nat (length (ops_list ops []))"
proof -
  have rep: "dll_rep (l, h) (ops_list ops [])"
    using dll.run_rep [of "(dll_empty, \<lambda>_. dnode_fresh)" "[]" ops] assms by simp
  then show ?thesis using dll_walk_rep [OF rep] by (simp add: dll_rep_def)
qed

theorem dll_history_witness:
  "\<exists>l h. run_ops (\<lambda>n. dll_push_back (Some n)) (\<lambda>n lh. snd (dll_erase (Some n) lh))
       [Add (1::nat), Add 2, Add 3, Del 2, Add 4, Del 1] (dll_empty, \<lambda>_. dnode_fresh) = (l, h) \<and>
     dll_walk 2 (dl_head l) h = Some [3, 4]"
proof -
  let ?ops = "[Add (1::nat), Add 2, Add 3, Del 2, Add 4, Del 1]"
  obtain l h where run: "run_ops (\<lambda>n. dll_push_back (Some n)) (\<lambda>n lh. snd (dll_erase (Some n) lh))
       ?ops (dll_empty, \<lambda>_. dnode_fresh) = (l, h)"
    by (metis prod.exhaust)
  moreover have "ops_legal ?ops []" and "ops_list ?ops [] = [3, 4]" by simp_all
  ultimately show ?thesis using dll_history [of ?ops l h] by (auto simp: numeral_2_eq_2)
qed

end
