(* ===== verification/Progress_Guard.thy ===== *)
theory Progress_Guard
  imports Linked_List
begin

text \<open>
  \<open>ProgressGuard\<close> of \<open>include/impl/progress_guard.hpp\<close> and \<open>src/impl/progress_guard.cpp\<close>: the
  election of the one thread that drives an endpoint's completion queue. Threads run
  concurrently here. A guard lives through its constructor (\<open>try_acquire\<close>, \<open>register_waiter\<close>), the
  scope it protects, and its destructor (\<open>unregister_waiter\<close>, \<open>transfer_leader_and_wake\<close>); one event is
  one atomic access or one critical section of \<open>waiters_mutex\<close>, and any guard may move at any
  time. The critical section of \<open>transfer_leader_and_wake\<close> makes two unsynchronised writes, so it
  is two events with the mutex held in between.

  The waiters list is the sequence that \<open>DoubleLinkedList\<close> represents: a guard is pushed once
  and erased once, so its histories are legal in the sense of theory \<open>Linked_List\<close>. The mode
  \<open>LFI_efficient_progress = false\<close>, where every guard that asks is a leader and nothing is shared,
  is not a protocol; it is modelled where guards are used, in the sequential theories.
\<close>

type_synonym gid = nat

datatype pg_pc =
    Unborn
  | Constructing      \<comment> \<open>before \<open>try_acquire\<close>\<close>
  | Acquired          \<comment> \<open>after \<open>try_acquire\<close>, before \<open>register_waiter\<close>\<close>
  | Live              \<comment> \<open>constructed and registered: the protected scope\<close>
  | Unregistered      \<comment> \<open>in the destructor, after \<open>unregister_waiter\<close>\<close>
  | Releasing         \<comment> \<open>mutex held, \<open>in_progress\<close> already cleared\<close>
  | Handing gid       \<comment> \<open>mutex held, own flag already cleared, successor not yet set\<close>
  | Dead

record pguard =
  g_requested :: bool
  g_leader :: bool
  g_pc :: pg_pc

record pg_state =
  pg_in_progress :: bool
  pg_waiters :: "gid list"
  pg_mutex :: "gid option"
  pg_guards :: "gid \<Rightarrow> pguard"

definition pg_init :: pg_state where
  "pg_init = \<lparr>pg_in_progress = False, pg_waiters = [], pg_mutex = None,
     pg_guards = (\<lambda>_. \<lparr>g_requested = False, g_leader = False, g_pc = Unborn\<rparr>)\<rparr>"

subsection \<open>Events\<close>

definition pg_set :: "gid \<Rightarrow> pguard \<Rightarrow> pg_state \<Rightarrow> pg_state" where
  "pg_set g v s = s\<lparr>pg_guards := (pg_guards s)(g := v)\<rparr>"

text \<open>\<open>m_is_leader = !m_ep.in_progress.exchange(true)\<close>, when leadership is requested.\<close>

definition pg_try_acquire :: "gid \<Rightarrow> pg_state \<Rightarrow> pg_state" where
  "pg_try_acquire g s =
     (let v = pg_guards s g
      in if g_requested v \<and> \<not> g_leader v
         then pg_set g (v\<lparr>g_leader := \<not> pg_in_progress s, g_pc := Acquired\<rparr>) (s\<lparr>pg_in_progress := True\<rparr>)
         else pg_set g (v\<lparr>g_pc := Acquired\<rparr>) s)"

definition pg_register_waiter :: "gid \<Rightarrow> pg_state \<Rightarrow> pg_state" where
  "pg_register_waiter g s =
     pg_set g ((pg_guards s g)\<lparr>g_pc := Live\<rparr>) (s\<lparr>pg_waiters := pg_waiters s @ [g]\<rparr>)"

definition pg_unregister_waiter :: "gid \<Rightarrow> pg_state \<Rightarrow> pg_state" where
  "pg_unregister_waiter g s =
     pg_set g ((pg_guards s g)\<lparr>g_pc := Unregistered\<rparr>) (s\<lparr>pg_waiters := remove1 g (pg_waiters s)\<rparr>)"

text \<open>First half of \<open>transfer_leader_and_wake\<close>: up to the first write under the mutex.\<close>

definition pg_transfer_begin :: "gid \<Rightarrow> pg_state \<Rightarrow> pg_state" where
  "pg_transfer_begin g s =
     (let v = pg_guards s g
      in if \<not> g_leader v then pg_set g (v\<lparr>g_pc := Dead\<rparr>) s
         else (case pg_waiters s of
                 successor # _ \<Rightarrow>
                   pg_set g (v\<lparr>g_leader := False, g_pc := Handing successor\<rparr>) (s\<lparr>pg_mutex := Some g\<rparr>)
               | [] \<Rightarrow>
                   pg_set g (v\<lparr>g_pc := Releasing\<rparr>) (s\<lparr>pg_in_progress := False, pg_mutex := Some g\<rparr>)))"

text \<open>Second half: the successor's flag, or the guard's own, and the mutex is released.\<close>

definition pg_transfer_end :: "gid \<Rightarrow> pg_state \<Rightarrow> pg_state" where
  "pg_transfer_end g s =
     (let v = pg_guards s g
      in case g_pc v of
           Handing successor \<Rightarrow>
             (let s1 = pg_set g (v\<lparr>g_pc := Dead\<rparr>) s
              in pg_set successor ((pg_guards s1 successor)\<lparr>g_leader := True\<rparr>) (s1\<lparr>pg_mutex := None\<rparr>))
         | _ \<Rightarrow> pg_set g (v\<lparr>g_leader := False, g_pc := Dead\<rparr>) (s\<lparr>pg_mutex := None\<rparr>))"

datatype pg_event = Construct gid bool | Advance gid

text \<open>
  One event. \<open>Advance g\<close> is the next action of guard \<open>g\<close>, \<open>None\<close> when it has none or when it has
  to wait for the mutex. On a live guard it is the end of the protected scope.
\<close>

fun pg_exec :: "pg_event \<Rightarrow> pg_state \<Rightarrow> pg_state option" where
  "pg_exec (Construct g requested) s =
     (if g_pc (pg_guards s g) = Unborn
      then Some (pg_set g \<lparr>g_requested = requested, g_leader = False, g_pc = Constructing\<rparr> s)
      else None)"
| "pg_exec (Advance g) s =
     (case g_pc (pg_guards s g) of
        Unborn \<Rightarrow> None
      | Constructing \<Rightarrow> Some (pg_try_acquire g s)
      | Acquired \<Rightarrow> if pg_mutex s = None then Some (pg_register_waiter g s) else None
      | Live \<Rightarrow> if pg_mutex s = None then Some (pg_unregister_waiter g s) else None
      | Unregistered \<Rightarrow>
          if g_leader (pg_guards s g) \<longrightarrow> pg_mutex s = None then Some (pg_transfer_begin g s) else None
      | Releasing \<Rightarrow> Some (pg_transfer_end g s)
      | Handing _ \<Rightarrow> Some (pg_transfer_end g s)
      | Dead \<Rightarrow> None)"

fun pg_run :: "pg_event list \<Rightarrow> pg_state \<Rightarrow> pg_state option" where
  "pg_run [] s = Some s"
| "pg_run (e # es) s = (case pg_exec e s of None \<Rightarrow> None | Some t \<Rightarrow> pg_run es t)"

inductive pg_reach :: "pg_state \<Rightarrow> bool" where
  start: "pg_reach pg_init"
| step: "pg_reach s \<Longrightarrow> pg_exec e s = Some t \<Longrightarrow> pg_reach t"

interpretation guards: event_runs pg_exec pg_run
  by unfold_locales (simp_all split: option.splits Option.bind_splits)

lemma pg_run_reach: "pg_reach s \<Longrightarrow> pg_run es s = Some t \<Longrightarrow> pg_reach t"
  by (rule guards.run_keeps [where ok = "\<lambda>_. True"]) (auto simp: list_all_iff intro: pg_reach.step)

subsection \<open>Invariant\<close>

text \<open>
  The token. A guard holds it from a successful \<open>exchange\<close> (or from being named successor) until
  it has given it away; \<open>in_progress\<close> says exactly that somebody holds it.
\<close>

definition pg_holds :: "pguard \<Rightarrow> bool" where
  "pg_holds v \<longleftrightarrow>
     (case g_pc v of Acquired \<Rightarrow> g_leader v | Live \<Rightarrow> g_leader v | Unregistered \<Rightarrow> g_leader v
      | Handing _ \<Rightarrow> True | _ \<Rightarrow> False)"

text \<open>What a guard's own state says, given the waiters and the owner of the mutex.\<close>

definition pg_guard_ok :: "pguard \<Rightarrow> gid \<Rightarrow> gid set \<Rightarrow> gid option \<Rightarrow> bool" where
  "pg_guard_ok v g W mx \<longleftrightarrow>
     (case g_pc v of
        Unborn \<Rightarrow> \<not> g_leader v
      | Constructing \<Rightarrow> \<not> g_leader v
      | Dead \<Rightarrow> \<not> g_leader v
      | Handing t \<Rightarrow> t \<in> W \<and> mx = Some g \<and> \<not> g_leader v
      | Releasing \<Rightarrow> mx = Some g
      | _ \<Rightarrow> True)"

definition pg_token :: "pg_state \<Rightarrow> gid option \<Rightarrow> bool" where
  "pg_token s holder \<longleftrightarrow>
     (\<forall>g. pg_holds (pg_guards s g) \<longleftrightarrow> holder = Some g) \<and> (pg_in_progress s \<longleftrightarrow> holder \<noteq> None)"

definition pg_inv :: "pg_state \<Rightarrow> bool" where
  "pg_inv s \<longleftrightarrow>
     (\<forall>g. pg_guard_ok (pg_guards s g) g (set (pg_waiters s)) (pg_mutex s)) \<and>
     (\<forall>g. g \<in> set (pg_waiters s) \<longleftrightarrow> g_pc (pg_guards s g) = Live) \<and> distinct (pg_waiters s) \<and>
     (\<exists>holder. pg_token s holder)"

lemma pg_inv_init: "pg_inv pg_init"
proof -
  have "pg_token pg_init None" by (simp add: pg_token_def pg_init_def pg_holds_def)
  then show ?thesis by (auto simp: pg_inv_def pg_init_def pg_guard_ok_def)
qed

lemma pg_set_simps [simp]:
  "pg_guards (pg_set g v s) = (pg_guards s)(g := v)"
  "pg_waiters (pg_set g v s) = pg_waiters s"
  "pg_mutex (pg_set g v s) = pg_mutex s"
  "pg_in_progress (pg_set g v s) = pg_in_progress s"
  by (simp_all add: pg_set_def)

text \<open>With the mutex free a guard's condition mentions neither the list nor the mutex.\<close>

lemma pg_guard_ok_free:
  "pg_guard_ok v g W None \<Longrightarrow> pg_guard_ok v g W' mx"
  by (auto simp: pg_guard_ok_def split: pg_pc.splits)

lemma pg_guard_ok_mono: "pg_guard_ok v g W mx \<Longrightarrow> W \<subseteq> W' \<Longrightarrow> pg_guard_ok v g W' mx"
  by (auto simp: pg_guard_ok_def split: pg_pc.splits)

lemma pg_guard_ok_other:
  "pg_guard_ok v g W (Some h) \<Longrightarrow> g \<noteq> h \<Longrightarrow> pg_guard_ok v g W' mx"
  by (auto simp: pg_guard_ok_def split: pg_pc.splits)

text \<open>The token after one guard has changed: kept, taken from nobody, passed on, or dropped.\<close>

lemma pg_token_keep:
  "pg_token s holder \<Longrightarrow> pg_holds v = pg_holds (pg_guards s g) \<Longrightarrow>
   pg_token (pg_set g v (s\<lparr>pg_waiters := W\<rparr>)) holder"
  by (simp add: pg_token_def)

lemma pg_token_drop:
  "pg_token s (Some g) \<Longrightarrow> \<not> pg_holds v \<Longrightarrow>
   pg_token (pg_set g v (s\<lparr>pg_in_progress := False, pg_mutex := mx\<rparr>)) None"
  by (auto simp: pg_token_def)

lemma pg_token_take:
  "pg_token s None \<Longrightarrow> pg_holds v \<Longrightarrow> pg_token (pg_set g v (s\<lparr>pg_in_progress := True\<rparr>)) (Some g)"
  by (auto simp: pg_token_def)

lemma pg_token_pass:
  "pg_token s (Some g) \<Longrightarrow> g \<noteq> t \<Longrightarrow> \<not> pg_holds v \<Longrightarrow> pg_holds w \<Longrightarrow>
   pg_token (pg_set t w (pg_set g v s\<lparr>pg_mutex := mx\<rparr>)) (Some t)"
  by (auto simp: pg_token_def)

lemma pg_keep:
  assumes inv: "pg_inv s" and old: "v0 = pg_guards s g"
    and holds: "pg_holds v = pg_holds v0"
    and ok: "pg_guard_ok v g (set W) (pg_mutex s)"
    and others: "\<And>h. h \<noteq> g \<Longrightarrow> pg_guard_ok (pg_guards s h) h (set (pg_waiters s)) (pg_mutex s) \<Longrightarrow>
      pg_guard_ok (pg_guards s h) h (set W) (pg_mutex s)"
    and live: "\<And>h. h \<in> set W \<longleftrightarrow> (if h = g then g_pc v = Live else h \<in> set (pg_waiters s))"
    and dist: "distinct W"
  shows "pg_inv (pg_set g v (s\<lparr>pg_waiters := W\<rparr>))"
proof -
  obtain holder where "pg_token s holder" using inv by (auto simp: pg_inv_def)
  then have "pg_token (pg_set g v (s\<lparr>pg_waiters := W\<rparr>)) holder"
    using holds old by (intro pg_token_keep) simp_all
  then show ?thesis
    using inv ok others live dist by (auto simp: pg_inv_def)
qed

lemma pg_construct_inv:
  assumes "pg_inv s" and "g_pc (pg_guards s g) = Unborn"
  shows "pg_inv (pg_set g \<lparr>g_requested = b, g_leader = False, g_pc = Constructing\<rparr> s)"
proof -
  have "pg_inv (pg_set g \<lparr>g_requested = b, g_leader = False, g_pc = Constructing\<rparr>
      (s\<lparr>pg_waiters := pg_waiters s\<rparr>))"
    by (rule pg_keep [OF assms(1) refl])
      (use assms in \<open>auto simp: pg_holds_def pg_guard_ok_def pg_inv_def\<close>)
  then show ?thesis by simp
qed

lemma pg_try_acquire_inv:
  assumes inv: "pg_inv s" and pc: "g_pc (pg_guards s g) = Constructing"
  shows "pg_inv (pg_try_acquire g s)"
proof -
  let ?v = "pg_guards s g"
  obtain holder where tok: "pg_token s holder" using inv by (auto simp: pg_inv_def)
  have "pg_guard_ok ?v g (set (pg_waiters s)) (pg_mutex s)" using inv by (simp add: pg_inv_def)
  with pc have follower: "\<not> g_leader ?v" by (simp add: pg_guard_ok_def)
  then have eq: "?v\<lparr>g_leader := False, g_pc := Acquired\<rparr> = ?v\<lparr>g_pc := Acquired\<rparr>"
    by (cases ?v) simp
  have same: "pg_inv (pg_set g (?v\<lparr>g_pc := Acquired\<rparr>) (s\<lparr>pg_waiters := pg_waiters s\<rparr>))"
    by (rule pg_keep [OF inv refl])
      (use inv pc follower in \<open>auto simp: pg_holds_def pg_guard_ok_def pg_inv_def\<close>)
  show ?thesis
  proof (cases "g_requested ?v")
    case False
    with same follower show ?thesis by (simp add: pg_try_acquire_def Let_def)
  next
    case asked: True
    show ?thesis
    proof (cases holder)
      case None
      let ?w = "?v\<lparr>g_leader := True, g_pc := Acquired\<rparr>"
      have free: "\<not> pg_in_progress s" using tok None by (simp add: pg_token_def)
      have "pg_token (pg_set g ?w (s\<lparr>pg_in_progress := True\<rparr>)) (Some g)"
        using tok None by (intro pg_token_take) (auto simp: pg_holds_def)
      then show ?thesis
        using inv pc asked follower free
        by (auto simp: pg_inv_def pg_try_acquire_def Let_def pg_guard_ok_def)
    next
      case (Some h)
      then have busy: "pg_in_progress s" using tok by (simp add: pg_token_def)
      then have sid: "s\<lparr>pg_in_progress := True\<rparr> = s" by (cases s) simp
      have "pg_try_acquire g s =
          pg_set g (?v\<lparr>g_leader := False, g_pc := Acquired\<rparr>) (s\<lparr>pg_in_progress := True\<rparr>)"
        using asked follower busy by (simp add: pg_try_acquire_def Let_def)
      with same show ?thesis unfolding eq sid by simp
    qed
  qed
qed

lemma pg_register_inv:
  assumes inv: "pg_inv s" and pc: "g_pc (pg_guards s g) = Acquired" and free: "pg_mutex s = None"
  shows "pg_inv (pg_register_waiter g s)"
proof -
  let ?W = "pg_waiters s @ [g]"
  have "g \<notin> set (pg_waiters s)" using inv pc by (auto simp: pg_inv_def)
  then have "pg_inv (pg_set g ((pg_guards s g)\<lparr>g_pc := Live\<rparr>) (s\<lparr>pg_waiters := ?W\<rparr>))"
    using inv pc
    by (intro pg_keep [OF inv refl])
      (auto simp: pg_holds_def pg_guard_ok_def pg_inv_def free dest: pg_guard_ok_free split: pg_pc.splits)
  with free show ?thesis by (simp add: pg_register_waiter_def)
qed

lemma pg_unregister_inv:
  assumes inv: "pg_inv s" and pc: "g_pc (pg_guards s g) = Live" and free: "pg_mutex s = None"
  shows "pg_inv (pg_unregister_waiter g s)"
proof -
  let ?W = "remove1 g (pg_waiters s)"
  have "pg_inv (pg_set g ((pg_guards s g)\<lparr>g_pc := Unregistered\<rparr>) (s\<lparr>pg_waiters := ?W\<rparr>))"
    using inv pc
    by (intro pg_keep [OF inv refl])
      (auto simp: pg_holds_def pg_guard_ok_def pg_inv_def free split: pg_pc.splits)
  with free show ?thesis by (simp add: pg_unregister_waiter_def)
qed

lemma pg_token_holder:
  "pg_inv s \<Longrightarrow> pg_holds (pg_guards s g) \<Longrightarrow> pg_token s (Some g)"
  by (auto simp: pg_inv_def pg_token_def)

lemma pg_transfer_begin_inv:
  assumes inv: "pg_inv s" and pc: "g_pc (pg_guards s g) = Unregistered"
    and free: "g_leader (pg_guards s g) \<Longrightarrow> pg_mutex s = None"
  shows "pg_inv (pg_transfer_begin g s)"
proof (cases "g_leader (pg_guards s g)")
  case False
  let ?v = "(pg_guards s g)\<lparr>g_pc := Dead\<rparr>"
  have "pg_inv (pg_set g ?v (s\<lparr>pg_waiters := pg_waiters s\<rparr>))"
    by (rule pg_keep [OF inv refl])
      (use inv pc False in \<open>auto simp: pg_holds_def pg_guard_ok_def pg_inv_def\<close>)
  with False show ?thesis by (simp add: pg_transfer_begin_def Let_def)
next
  case True
  then have mx: "pg_mutex s = None" by (rule free)
  have ok: "pg_guard_ok (pg_guards s h) h W' mx'" for h W' mx'
    using inv mx by (auto simp: pg_inv_def intro: pg_guard_ok_free)
  have token: "pg_token s (Some g)"
    using inv pc True by (intro pg_token_holder) (simp_all add: pg_holds_def)
  show ?thesis
  proof (cases "pg_waiters s")
    case Nil
    let ?v = "(pg_guards s g)\<lparr>g_pc := Releasing\<rparr>"
    have "pg_token (pg_set g ?v (s\<lparr>pg_in_progress := False, pg_mutex := Some g\<rparr>)) None"
      by (rule pg_token_drop [OF token]) (simp add: pg_holds_def)
    then show ?thesis
      using True Nil inv pc ok
      by (auto simp: pg_transfer_begin_def Let_def pg_inv_def pg_guard_ok_def [of ?v])
  next
    case (Cons t ts)
    let ?v = "(pg_guards s g)\<lparr>g_leader := False, g_pc := Handing t\<rparr>"
    have "pg_token (pg_set g ?v (s\<lparr>pg_mutex := Some g\<rparr>)) (Some g)"
      using token pc True by (auto simp: pg_token_def pg_holds_def)
    then show ?thesis
      using True Cons inv pc ok
      by (auto simp: pg_transfer_begin_def Let_def pg_inv_def pg_guard_ok_def [of ?v])
  qed
qed

lemma pg_transfer_end_inv:
  assumes inv: "pg_inv s" and pc: "g_pc (pg_guards s g) = Releasing \<or> g_pc (pg_guards s g) = Handing t"
  shows "pg_inv (pg_transfer_end g s)"
proof -
  let ?v = "pg_guards s g"
  have okg: "pg_guard_ok ?v g (set (pg_waiters s)) (pg_mutex s)" using inv by (simp add: pg_inv_def)
  then have mx: "pg_mutex s = Some g" using pc by (auto simp: pg_guard_ok_def)
  have ok: "pg_guard_ok (pg_guards s h) h W' mx'" if "h \<noteq> g" for h W' mx'
    using inv mx that by (auto simp: pg_inv_def intro: pg_guard_ok_other)
  from pc show ?thesis
  proof
    assume rel: "g_pc ?v = Releasing"
    obtain holder where token: "pg_token s holder" using inv by (auto simp: pg_inv_def)
    have "\<not> pg_holds ?v" using rel by (simp add: pg_holds_def)
    with token have "holder \<noteq> Some g" by (auto simp: pg_token_def)
    with token have "pg_token (pg_set g (?v\<lparr>g_leader := False, g_pc := Dead\<rparr>) (s\<lparr>pg_mutex := None\<rparr>)) holder"
      using rel by (auto simp: pg_token_def pg_holds_def)
    then show ?thesis
      using inv rel ok
      by (auto simp: pg_transfer_end_def Let_def pg_inv_def pg_guard_ok_def [of "?v\<lparr>g_leader := False, g_pc := Dead\<rparr>"])
  next
    assume hand: "g_pc ?v = Handing t"
    let ?w = "(pg_guards s t)\<lparr>g_leader := True\<rparr>"
    have t: "t \<in> set (pg_waiters s)" using okg hand by (simp add: pg_guard_ok_def)
    then have live: "g_pc (pg_guards s t) = Live" using inv by (auto simp: pg_inv_def)
    then have ne: "g \<noteq> t" using hand by auto
    have token: "pg_token s (Some g)"
      using inv hand by (intro pg_token_holder) (simp_all add: pg_holds_def)
    have "pg_token (pg_set t ?w (pg_set g (?v\<lparr>g_pc := Dead\<rparr>) s\<lparr>pg_mutex := None\<rparr>)) (Some t)"
      using live by (intro pg_token_pass [OF token ne]) (simp_all add: pg_holds_def)
    moreover have "\<not> g_leader ?v" using okg hand by (simp add: pg_guard_ok_def)
    ultimately show ?thesis
      using inv hand ok ne live
      by (auto simp: pg_transfer_end_def Let_def pg_inv_def pg_guard_ok_def [of "?v\<lparr>g_pc := Dead\<rparr>"]
          pg_guard_ok_def [of ?w])
  qed
qed

lemma pg_exec_inv:
  assumes "pg_inv s" and "pg_exec e s = Some t"
  shows "pg_inv t"
proof (cases e)
  case (Construct g b)
  with assms show ?thesis by (auto simp: pg_construct_inv split: if_splits)
next
  case (Advance g)
  with assms show ?thesis
    by (cases "g_pc (pg_guards s g)")
      (auto simp: pg_try_acquire_inv pg_register_inv pg_unregister_inv pg_transfer_end_inv
        intro!: pg_transfer_begin_inv split: if_splits)
qed

lemma pg_reach_inv: "pg_reach s \<Longrightarrow> pg_inv s"
  by (induction rule: pg_reach.induct) (auto intro: pg_inv_init pg_exec_inv)

lemma pg_live_leader_holds: "g_pc v = Live \<Longrightarrow> g_leader v \<Longrightarrow> pg_holds v"
  by (simp add: pg_holds_def)

text \<open>A schedule in which guard 1 leads, guard 2 waits, and 1 hands the leadership to 2.\<close>

definition pg_handover :: "pg_event list" where
  "pg_handover =
     [Construct 1 True, Advance 1, Advance 1, Construct 2 True, Advance 2, Advance 2,
      Advance 1, Advance 1, Advance 1]"

lemmas pg_eval =
  pg_init_def pg_set_def pg_try_acquire_def pg_register_waiter_def pg_unregister_waiter_def
  pg_transfer_begin_def pg_transfer_end_def

subsection \<open>Properties\<close>

text \<open>C28. Mutual exclusion. Whatever the interleaving of constructors, scopes and destructors, two
  guards whose protected scope is open and that are both leaders are the same guard, and then
  \<open>in_progress\<close> is set: at most one thread drives the completion queue of an endpoint.\<close>

theorem pg_mutual_exclusion:
  assumes "pg_reach s"
    and "g_pc (pg_guards s g) = Live" and "g_leader (pg_guards s g)"
    and "g_pc (pg_guards s h) = Live" and "g_leader (pg_guards s h)"
  shows "g = h \<and> pg_in_progress s"
proof -
  obtain holder where token: "pg_token s holder"
    using pg_reach_inv [OF assms(1)] by (auto simp: pg_inv_def)
  have "holder = Some g"
    using token pg_live_leader_holds [OF assms(2,3)] unfolding pg_token_def by blast
  moreover have "holder = Some h"
    using token pg_live_leader_holds [OF assms(4,5)] unfolding pg_token_def by blast
  ultimately show ?thesis using token unfolding pg_token_def by simp
qed

lemma pg_handover_run:
  "\<exists>s. pg_run pg_handover pg_init = Some s \<and> g_pc (pg_guards s 2) = Live \<and> g_leader (pg_guards s 2) \<and>
     g_pc (pg_guards s 1) = Dead"
  by (simp add: pg_handover_def pg_eval)

theorem pg_mutual_exclusion_witness:
  "\<exists>s. pg_reach s \<and> g_leader (pg_guards s 2) \<and> pg_in_progress s \<and>
     (\<forall>h. g_pc (pg_guards s h) = Live \<longrightarrow> g_leader (pg_guards s h) \<longrightarrow> 2 = h)"
proof -
  obtain s where run: "pg_run pg_handover pg_init = Some s"
    and live: "g_pc (pg_guards s 2) = Live" "g_leader (pg_guards s 2)"
    using pg_handover_run by blast
  have "pg_reach s" using pg_run_reach [OF pg_reach.start run] .
  from this pg_mutual_exclusion [OF this live live] pg_mutual_exclusion [OF this live] live
  show ?thesis by blast
qed

text \<open>Hand-over. In every reachable state a leader that enters
  \<open>transfer_leader_and_wake\<close> with a non-empty waiters list ends with the head of the list as the
  leader, itself no longer leader, and \<open>in_progress\<close> never cleared in between.\<close>

theorem pg_leader_handover:
  assumes "pg_reach s" and "g_pc (pg_guards s g) = Unregistered" and "g_leader (pg_guards s g)"
    and "pg_waiters s = w # ws" and "pg_mutex s = None"
  shows "\<exists>t. pg_run [Advance g, Advance g] s = Some t \<and> g_leader (pg_guards t w) \<and>
     \<not> g_leader (pg_guards t g) \<and> pg_in_progress t \<and> pg_waiters t = w # ws \<and> pg_mutex t = None"
proof -
  have inv: "pg_inv s" using assms(1) by (rule pg_reach_inv)
  then have token: "pg_token s (Some g)"
    using assms by (intro pg_token_holder) (simp_all add: pg_holds_def)
  have "g_pc (pg_guards s w) = Live" using inv assms by (auto simp: pg_inv_def)
  then have "w \<noteq> g" using assms by auto
  with token show ?thesis
    using assms by (simp add: pg_transfer_begin_def pg_transfer_end_def Let_def pg_token_def)
qed

theorem pg_leader_handover_witness:
  "\<exists>s t. pg_reach s \<and> pg_run [Advance 1, Advance 1] s = Some t \<and> g_leader (pg_guards t 2)"
proof -
  let ?es = "[Construct 1 True, Advance 1, Advance 1, Construct 2 True, Advance 2, Advance 2, Advance 1]"
  obtain s where run: "pg_run ?es pg_init = Some s"
    and s: "g_pc (pg_guards s 1) = Unregistered" "g_leader (pg_guards s 1)" "pg_waiters s = [2]"
      "pg_mutex s = None"
    by (simp add: pg_eval)
  have reach: "pg_reach s" using pg_run_reach [OF pg_reach.start run] .
  with pg_leader_handover [OF reach s] show ?thesis by blast
qed

text \<open>C30. Lost wake-up. \<open>try_acquire\<close> and \<open>register_waiter\<close> are two steps. If the leader
  leaves between them it finds no waiter and clears \<open>in_progress\<close>; the late guard then registers as a
  follower. A state is reachable in which a guard that asked for leadership is live and not the
  leader, nobody else is in the protocol, \<open>in_progress\<close> is false, and the mutex is free: nobody is
  left to hand the leadership over, and only the end of its own scope can move the guard.\<close>

theorem pg_lost_wakeup:
  "\<exists>s. pg_reach s \<and> g_pc (pg_guards s 2) = Live \<and> g_requested (pg_guards s 2) \<and>
     \<not> g_leader (pg_guards s 2) \<and> \<not> pg_in_progress s \<and> pg_waiters s = [2] \<and> pg_mutex s = None \<and>
     (\<forall>g. g = 2 \<or> pg_exec (Advance g) s = None)"
proof -
  let ?es = "[Construct 1 True, Advance 1, Advance 1, Construct 2 True, Advance 2,
              Advance 1, Advance 1, Advance 1, Advance 2]"
  obtain s where run: "pg_run ?es pg_init = Some s"
    and s: "g_pc (pg_guards s 2) = Live \<and> g_requested (pg_guards s 2) \<and>
     \<not> g_leader (pg_guards s 2) \<and> \<not> pg_in_progress s \<and> pg_waiters s = [2] \<and> pg_mutex s = None \<and>
     (\<forall>g. g = 2 \<or> pg_exec (Advance g) s = None)"
    by (simp add: pg_eval)
  have "pg_reach s" using pg_run_reach [OF pg_reach.start run] .
  with s show ?thesis by blast
qed

end
