(* ===== verification/Vector_Queue.thy ===== *)
theory Vector_Queue
  imports Lfi_Prelude
begin

text \<open>
  \<open>VectorQueue<T>\<close> of \<open>include/impl/vector_queue.hpp\<close>: a ring buffer over a vector that doubles
  when it is full, with \<open>erase_if\<close> compacting in place. \<open>vq_list\<close> reads the queue in FIFO order
  and \<open>vq_inv\<close> is the class invariant; every operation is shown to keep the invariant and to be
  the corresponding list operation, through both branches of the growth code. The element type
  and its value-initialised element \<open>d\<close> are parameters. Indices are \<open>nat\<close>: \<open>size_t\<close> arithmetic on
  them stays below twice the capacity of a vector that exists, so it does not wrap. A read or
  write beyond the vector would be undefined behaviour in C++; \<open>vq_push_in_bounds\<close> and
  \<open>vq_front_in_bounds\<close> show that the invariant excludes it.
\<close>

record 'a vqueue =
  vq_buffer :: "'a list"
  vq_head :: nat
  vq_tail :: nat
  vq_count :: nat

definition vq_new :: "'a \<Rightarrow> nat \<Rightarrow> 'a vqueue" where
  "vq_new d cap = \<lparr>vq_buffer = replicate cap d, vq_head = 0, vq_tail = 0, vq_count = 0\<rparr>"

text \<open>The vector after \<open>m_buffer.resize(oldSize * 2)\<close> and, for a wrapped queue, the \<open>memcpy\<close>.\<close>

definition vq_grow :: "'a \<Rightarrow> 'a vqueue \<Rightarrow> 'a vqueue" where
  "vq_grow d q =
     (let oldSize = length (vq_buffer q);
          resized = vq_buffer q @ replicate oldSize d
      in if vq_tail q \<le> vq_head q
         then q\<lparr>vq_buffer := take oldSize resized @ take (vq_tail q) resized @
                               drop (oldSize + vq_tail q) resized,
                vq_tail := oldSize + vq_tail q\<rparr>
         else q\<lparr>vq_buffer := resized\<rparr>)"

definition vq_push :: "'a \<Rightarrow> 'a \<Rightarrow> 'a vqueue \<Rightarrow> 'a vqueue" where
  "vq_push d v q =
     (let q1 = (if vq_count q = length (vq_buffer q) then vq_grow d q else q)
      in q1\<lparr>vq_buffer := (vq_buffer q1)[vq_tail q1 := v],
            vq_tail := (if vq_tail q1 + 1 = length (vq_buffer q1) then 0 else vq_tail q1 + 1),
            vq_count := vq_count q1 + 1\<rparr>)"

definition vq_pop :: "'a vqueue \<Rightarrow> 'a vqueue" where
  "vq_pop q =
     (if 0 < vq_count q
      then q\<lparr>vq_head := (if vq_head q + 1 = length (vq_buffer q) then 0 else vq_head q + 1),
             vq_count := vq_count q - 1\<rparr>
      else q)"

text \<open>Position of the \<open>i\<close>-th element, with the wrap written as the code writes it.\<close>

definition vq_pos :: "nat \<Rightarrow> nat \<Rightarrow> nat \<Rightarrow> nat" where
  "vq_pos head buffer_size i = (let sum = head + i in if buffer_size \<le> sum then sum - buffer_size else sum)"

text \<open>The loop of \<open>erase_if\<close> from \<open>read_idx\<close> on: the buffer and \<open>write_idx\<close> it ends with.\<close>

function vq_erase_loop ::
  "('a \<Rightarrow> bool) \<Rightarrow> nat \<Rightarrow> nat \<Rightarrow> nat \<Rightarrow> nat \<Rightarrow> 'a list \<Rightarrow> 'a list \<times> nat" where
  "vq_erase_loop predicate head count read_idx write_idx buf =
     (if read_idx < count
      then (let current_pos = vq_pos head (length buf) read_idx
            in if predicate (buf ! current_pos)
               then vq_erase_loop predicate head count (read_idx + 1) write_idx buf
               else (let buf' = (if write_idx \<noteq> read_idx
                                 then buf[vq_pos head (length buf) write_idx := buf ! current_pos]
                                 else buf)
                     in vq_erase_loop predicate head count (read_idx + 1) (write_idx + 1) buf'))
      else (buf, write_idx))"
  by pat_completeness auto
termination
  by (relation "measure (\<lambda>(predicate, head, count, read_idx, write_idx, buf). count - read_idx)") auto

declare vq_erase_loop.simps [simp del]

definition vq_erase_if :: "('a \<Rightarrow> bool) \<Rightarrow> 'a vqueue \<Rightarrow> 'a vqueue" where
  "vq_erase_if predicate q =
     (if vq_count q = 0 then q
      else (let (buf, write_idx) =
                  vq_erase_loop predicate (vq_head q) (vq_count q) 0 0 (vq_buffer q);
                raw_tail = vq_head q + write_idx
            in q\<lparr>vq_buffer := buf, vq_count := write_idx,
                 vq_tail := (if length (vq_buffer q) \<le> raw_tail
                             then raw_tail - length (vq_buffer q) else raw_tail)\<rparr>))"

definition vq_front :: "'a vqueue \<Rightarrow> 'a" where
  "vq_front q = vq_buffer q ! vq_head q"

definition vq_empty :: "'a vqueue \<Rightarrow> bool" where
  "vq_empty q \<longleftrightarrow> vq_count q = 0"

definition vq_size :: "'a vqueue \<Rightarrow> nat" where
  "vq_size q = vq_count q"

definition vq_capacity :: "'a vqueue \<Rightarrow> nat" where
  "vq_capacity q = length (vq_buffer q)"

text \<open>\<open>Iterator::operator*\<close>, and the elements a range-for visits from \<open>begin()\<close> to \<open>end()\<close>.\<close>

definition vq_deref :: "'a vqueue \<Rightarrow> nat \<Rightarrow> 'a" where
  "vq_deref q index = vq_buffer q ! ((vq_head q + index) mod length (vq_buffer q))"

definition vq_iter :: "'a vqueue \<Rightarrow> 'a list" where
  "vq_iter q = map (vq_deref q) [0..<vq_count q]"

subsection \<open>Invariant and abstraction\<close>

definition vq_inv :: "'a vqueue \<Rightarrow> bool" where
  "vq_inv q \<longleftrightarrow>
     0 < length (vq_buffer q) \<and> vq_head q < length (vq_buffer q) \<and>
     vq_count q \<le> length (vq_buffer q) \<and>
     vq_tail q = (vq_head q + vq_count q) mod length (vq_buffer q)"

definition vq_list :: "'a vqueue \<Rightarrow> 'a list" where
  "vq_list q = map (\<lambda>i. vq_buffer q ! vq_pos (vq_head q) (length (vq_buffer q)) i) [0..<vq_count q]"

lemma vq_pos_mod: "h < n \<Longrightarrow> i \<le> n \<Longrightarrow> vq_pos h n i = (h + i) mod n"
  by (auto simp: vq_pos_def Let_def mod_if)

lemma vq_pos_less: "h < n \<Longrightarrow> i \<le> n \<Longrightarrow> vq_pos h n i < n"
  by (auto simp: vq_pos_def Let_def)

lemma vq_pos_inj: "h < n \<Longrightarrow> i < n \<Longrightarrow> j < n \<Longrightarrow> vq_pos h n i = vq_pos h n j \<longleftrightarrow> i = j"
  by (auto simp: vq_pos_def Let_def split: if_splits)

lemma vq_tail_pos: "vq_inv q \<Longrightarrow> vq_tail q = vq_pos (vq_head q) (length (vq_buffer q)) (vq_count q)"
  by (simp add: vq_inv_def vq_pos_mod)

lemma length_vq_list [simp]: "length (vq_list q) = vq_count q"
  by (simp add: vq_list_def)

lemma vq_iter_list: "vq_inv q \<Longrightarrow> vq_iter q = vq_list q"
  by (auto simp: vq_iter_def vq_list_def vq_deref_def vq_inv_def vq_pos_mod)


subsection \<open>Construction, growth and push\<close>

lemma vq_new_inv: "0 < cap \<Longrightarrow> vq_inv (vq_new d cap)"
  by (simp add: vq_inv_def vq_new_def)

lemma vq_new_list: "vq_list (vq_new d cap) = []"
  by (simp add: vq_list_def vq_new_def)

lemma vq_full_tail: "vq_inv q \<Longrightarrow> vq_count q = length (vq_buffer q) \<Longrightarrow> vq_tail q = vq_head q"
  by (simp add: vq_inv_def)

lemma vq_grow_fields:
  assumes "vq_inv q" and "vq_count q = length (vq_buffer q)"
  shows "length (vq_buffer (vq_grow d q)) = 2 * length (vq_buffer q)"
    and "vq_head (vq_grow d q) = vq_head q" and "vq_count (vq_grow d q) = vq_count q"
    and "vq_tail (vq_grow d q) = length (vq_buffer q) + vq_head q"
    and "vq_buffer (vq_grow d q) =
      vq_buffer q @ take (vq_head q) (vq_buffer q) @ replicate (length (vq_buffer q) - vq_head q) d"
  using assms vq_full_tail [OF assms]
  by (auto simp: vq_grow_def vq_inv_def Let_def)

lemma vq_grow_inv:
  assumes "vq_inv q" and "vq_count q = length (vq_buffer q)"
  shows "vq_inv (vq_grow d q)"
  using assms vq_grow_fields [OF assms, of d] by (auto simp: vq_inv_def)

lemma vq_grow_list:
  assumes "vq_inv q" and "vq_count q = length (vq_buffer q)"
  shows "vq_list (vq_grow d q) = vq_list q"
proof (rule nth_equalityI)
  show "length (vq_list (vq_grow d q)) = length (vq_list q)"
    using vq_grow_fields [OF assms, of d] by simp
next
  fix i
  assume "i < length (vq_list (vq_grow d q))"
  then have i: "i < length (vq_buffer q)"
    using vq_grow_fields [OF assms, of d] assms by simp
  then show "vq_list (vq_grow d q) ! i = vq_list q ! i"
    using vq_grow_fields [OF assms, of d] assms
    by (auto simp: vq_list_def vq_pos_def Let_def nth_append vq_inv_def)
qed

lemma vq_push_nonfull:
  assumes inv: "vq_inv q" and room: "vq_count q < length (vq_buffer q)"
  shows "vq_inv (vq_push d v q)" and "vq_list (vq_push d v q) = vq_list q @ [v]"
proof -
  let ?n = "length (vq_buffer q)"
  let ?p = "vq_pos (vq_head q) ?n"
  have tail: "vq_tail q = ?p (vq_count q)" using inv by (rule vq_tail_pos)
  have less: "?p (vq_count q) < ?n" using inv room by (auto simp: vq_inv_def intro!: vq_pos_less)
  show "vq_inv (vq_push d v q)"
    using inv room by (auto simp: vq_push_def Let_def vq_inv_def mod_if)
  have "(vq_buffer q)[?p (vq_count q) := v] ! ?p i = vq_buffer q ! ?p i" if "i < vq_count q" for i
    using that inv room by (auto simp: vq_inv_def vq_pos_inj)
  then show "vq_list (vq_push d v q) = vq_list q @ [v]"
    using inv room less by (auto simp: vq_list_def vq_push_def Let_def tail)
qed

lemma vq_push_grown:
  assumes "vq_inv q" and "vq_count q = length (vq_buffer q)"
  shows "vq_push d v q = vq_push d v (vq_grow d q)"
  using assms vq_grow_fields [OF assms, of d] by (auto simp: vq_push_def vq_inv_def)

lemma vq_push_correct:
  assumes inv: "vq_inv q"
  shows "vq_inv (vq_push d v q)" and "vq_list (vq_push d v q) = vq_list q @ [v]"
proof -
  have "vq_inv (vq_push d v q) \<and> vq_list (vq_push d v q) = vq_list q @ [v]"
  proof (cases "vq_count q = length (vq_buffer q)")
    case True
    have "vq_count (vq_grow d q) < length (vq_buffer (vq_grow d q))"
      using vq_grow_fields [OF inv True, of d] inv True by (simp add: vq_inv_def)
    then show ?thesis
      using vq_push_nonfull [OF vq_grow_inv [OF inv True], of d d v]
      by (simp add: vq_push_grown [OF inv True] vq_grow_list [OF inv True])
  next
    case False
    with inv have "vq_count q < length (vq_buffer q)" by (simp add: vq_inv_def)
    with inv show ?thesis by (simp add: vq_push_nonfull)
  qed
  then show "vq_inv (vq_push d v q)" and "vq_list (vq_push d v q) = vq_list q @ [v]" by auto
qed

text \<open>The write of \<open>push\<close> is inside the vector it writes to.\<close>

lemma vq_push_in_bounds:
  assumes "vq_inv q"
  shows "vq_tail (if vq_count q = length (vq_buffer q) then vq_grow d q else q)
    < length (vq_buffer (if vq_count q = length (vq_buffer q) then vq_grow d q else q))"
  using assms vq_grow_fields [of q d] by (auto simp: vq_inv_def)

lemma vq_front_in_bounds: "vq_inv q \<Longrightarrow> vq_head q < length (vq_buffer q)"
  by (simp add: vq_inv_def)

subsection \<open>Front and pop\<close>

lemma vq_list_cons:
  assumes inv: "vq_inv q" and ne: "0 < vq_count q"
  shows "vq_list q = vq_front q # vq_list (vq_pop q)" and "vq_inv (vq_pop q)"
proof -
  let ?n = "length (vq_buffer q)" and ?h = "vq_head q" and ?h' = "vq_head (vq_pop q)"
  have pos: "vq_pos ?h ?n (Suc i) = vq_pos ?h' ?n i" if "i < vq_count q - 1" for i
    using that inv ne by (auto simp: vq_pos_def vq_pop_def Let_def vq_inv_def)
  have "[0..<vq_count q] = 0 # map Suc [0..<vq_count q - 1]"
    using ne by (cases "vq_count q") (simp_all add: map_Suc_upt upt_conv_Cons del: upt_Suc)
  then have "vq_list q = vq_buffer q ! vq_pos ?h ?n 0 #
      map (\<lambda>i. vq_buffer q ! vq_pos ?h ?n (Suc i)) [0..<vq_count q - 1]"
    by (simp add: vq_list_def)
  also have "map (\<lambda>i. vq_buffer q ! vq_pos ?h ?n (Suc i)) [0..<vq_count q - 1] =
      map (\<lambda>i. vq_buffer q ! vq_pos ?h' ?n i) [0..<vq_count q - 1]"
    using pos by simp
  also have "\<dots> = vq_list (vq_pop q)"
    using ne by (simp add: vq_list_def vq_pop_def)
  also have "vq_buffer q ! vq_pos ?h ?n 0 = vq_front q"
    using inv by (simp add: vq_front_def vq_pos_def vq_inv_def)
  finally show "vq_list q = vq_front q # vq_list (vq_pop q)" .
  show "vq_inv (vq_pop q)"
    using inv ne by (auto simp: vq_inv_def vq_pop_def mod_if)
qed

lemma vq_pop_correct:
  assumes "vq_inv q"
  shows "vq_inv (vq_pop q)" and "vq_list (vq_pop q) = tl (vq_list q)"
proof -
  have "vq_inv (vq_pop q) \<and> vq_list (vq_pop q) = tl (vq_list q)"
  proof (cases "vq_count q = 0")
    case True
    with assms show ?thesis by (simp add: vq_pop_def vq_list_def)
  next
    case False
    with vq_list_cons [OF assms] show ?thesis by simp
  qed
  then show "vq_inv (vq_pop q)" and "vq_list (vq_pop q) = tl (vq_list q)" by auto
qed

lemma vq_front_correct: "vq_inv q \<Longrightarrow> vq_list q \<noteq> [] \<Longrightarrow> vq_front q = hd (vq_list q)"
  using vq_list_cons [of q] by (cases "vq_count q") (auto simp: vq_list_def)

lemma vq_empty_correct: "vq_empty q \<longleftrightarrow> vq_list q = []"
  by (simp add: vq_empty_def vq_list_def)

subsection \<open>Conditional erase\<close>

text \<open>
  Loop invariant of \<open>erase_if\<close>: the first \<open>write_idx\<close> positions hold what has been kept, the
  positions from \<open>read_idx\<close> on are still untouched, and \<open>write_idx \<le> read_idx\<close>, so a write
  never overtakes a read.
\<close>

abbreviation vq_slice :: "nat \<Rightarrow> 'a list \<Rightarrow> nat \<Rightarrow> nat \<Rightarrow> 'a list" where
  "vq_slice head buf i j \<equiv> map (\<lambda>k. buf ! vq_pos head (length buf) k) [i..<j]"

lemma vq_erase_loop_correct:
  assumes "head < length buf" and "count \<le> length buf" and "write_idx \<le> read_idx"
    and "read_idx \<le> count" and "vq_erase_loop predicate head count read_idx write_idx buf = (buf', w')"
  shows "length buf' = length buf \<and> w' \<le> count \<and>
    vq_slice head buf' 0 w' =
      vq_slice head buf 0 write_idx @
      filter (\<lambda>x. \<not> predicate x) (vq_slice head buf read_idx count)"
  using assms
proof (induction predicate head count read_idx write_idx buf rule: vq_erase_loop.induct)
  case (1 predicate head count read_idx write_idx buf)
  let ?n = "length buf"
  let ?x = "buf ! vq_pos head ?n read_idx"
  show ?case
  proof (cases "read_idx < count")
    case False
    with "1.prems" show ?thesis by (simp add: vq_erase_loop.simps [of predicate head count])
  next
    case True
    have split: "[read_idx..<count] = read_idx # [Suc read_idx..<count]"
      using True by (simp add: upt_conv_Cons)
    show ?thesis
    proof (cases "predicate ?x")
      case drop: True
      have step: "vq_erase_loop predicate head count (read_idx + 1) write_idx buf = (buf', w')"
        using "1.prems"(5) True drop
        by (simp add: vq_erase_loop.simps [of predicate head count read_idx] Let_def)
      have "length buf' = length buf \<and> w' \<le> count \<and>
          vq_slice head buf' 0 w' = vq_slice head buf 0 write_idx @
            filter (\<lambda>x. \<not> predicate x) (vq_slice head buf (read_idx + 1) count)"
        by (rule "1.IH"(1) [OF True refl drop _ _ _ _ step]) (use "1.prems" True in simp_all)
      then show ?thesis using drop by (auto simp: split)
    next
      case keep: False
      let ?buf = "if write_idx \<noteq> read_idx then buf[vq_pos head ?n write_idx := ?x] else buf"
      have step: "vq_erase_loop predicate head count (read_idx + 1) (write_idx + 1) ?buf = (buf', w')"
        using "1.prems"(5) True keep
        by (simp add: vq_erase_loop.simps [of predicate head count read_idx] Let_def)
      have len: "length ?buf = ?n" by simp
      have kept: "vq_slice head ?buf 0 write_idx = vq_slice head buf 0 write_idx"
        and rest: "vq_slice head ?buf (Suc read_idx) count = vq_slice head buf (Suc read_idx) count"
        using "1.prems" True by (auto simp: vq_pos_inj nth_list_update)
      have at_w: "?buf ! vq_pos head ?n write_idx = ?x"
        using "1.prems" True by (auto simp: vq_pos_less)
      have snoc: "vq_slice head ?buf 0 (write_idx + 1) = vq_slice head buf 0 write_idx @ [?x]"
        using kept at_w len by simp
      have "length buf' = length ?buf \<and> w' \<le> count \<and>
          vq_slice head buf' 0 w' = vq_slice head ?buf 0 (write_idx + 1) @
            filter (\<lambda>x. \<not> predicate x) (vq_slice head ?buf (Suc read_idx) count)"
        unfolding Suc_eq_plus1
        by (rule "1.IH"(2) [OF True refl keep refl _ _ _ _ step]) (use "1.prems" True in simp_all)
      then show ?thesis
        unfolding snoc rest using keep by (auto simp: split)
    qed
  qed
qed

lemma vq_erase_if_correct:
  assumes inv: "vq_inv q"
  shows "vq_inv (vq_erase_if predicate q)"
    and "vq_list (vq_erase_if predicate q) = filter (\<lambda>x. \<not> predicate x) (vq_list q)"
proof -
  obtain buf w where loop:
    "vq_erase_loop predicate (vq_head q) (vq_count q) 0 0 (vq_buffer q) = (buf, w)"
    by (metis prod.exhaust)
  have *: "length buf = length (vq_buffer q)" "w \<le> vq_count q"
    "vq_slice (vq_head q) buf 0 w =
       filter (\<lambda>x. \<not> predicate x) (vq_slice (vq_head q) (vq_buffer q) 0 (vq_count q))"
    using vq_erase_loop_correct [OF _ _ _ _ loop] inv by (auto simp: vq_inv_def)
  show "vq_inv (vq_erase_if predicate q)"
    using inv * loop by (auto simp: vq_erase_if_def vq_inv_def Let_def mod_if)
  show "vq_list (vq_erase_if predicate q) = filter (\<lambda>x. \<not> predicate x) (vq_list q)"
    using inv * loop by (auto simp: vq_erase_if_def vq_list_def Let_def)
qed

subsection \<open>The queue interface\<close>

text \<open>
  What the endpoint's posting loop and the cancellation of a request rely on. The drain lemma is
  the loop's shape: look at the front, act on it, pop.
\<close>

locale fifo_queue =
  fixes inv :: "'q \<Rightarrow> bool"
    and elems :: "'q \<Rightarrow> 'a list"
    and push :: "'a \<Rightarrow> 'q \<Rightarrow> 'q"
    and pop :: "'q \<Rightarrow> 'q"
    and front :: "'q \<Rightarrow> 'a"
    and erase :: "('a \<Rightarrow> bool) \<Rightarrow> 'q \<Rightarrow> 'q"
  assumes push_inv: "inv q \<Longrightarrow> inv (push x q)"
    and push_elems: "inv q \<Longrightarrow> elems (push x q) = elems q @ [x]"
    and pop_inv: "inv q \<Longrightarrow> inv (pop q)"
    and pop_elems: "inv q \<Longrightarrow> elems (pop q) = tl (elems q)"
    and front_elems: "inv q \<Longrightarrow> elems q \<noteq> [] \<Longrightarrow> front q = hd (elems q)"
    and erase_inv: "inv q \<Longrightarrow> inv (erase P q)"
    and erase_elems: "inv q \<Longrightarrow> elems (erase P q) = filter (\<lambda>x. \<not> P x) (elems q)"
begin

lemma pushes:
  "inv q \<Longrightarrow> inv (fold push xs q) \<and> elems (fold push xs q) = elems q @ xs"
  by (induction xs arbitrary: q) (auto simp: push_inv push_elems)

lemma pops: "inv q \<Longrightarrow> inv ((pop ^^ n) q) \<and> elems ((pop ^^ n) q) = drop n (elems q)"
  by (induction n) (auto simp: pop_inv pop_elems drop_Suc tl_drop)

text \<open>The \<open>n\<close>-th front seen while popping is the \<open>n\<close>-th element pushed.\<close>

lemma front_after_pops:
  "inv q \<Longrightarrow> n < length (elems q) \<Longrightarrow> front ((pop ^^ n) q) = elems q ! n"
  using pops [of q n] by (simp add: front_elems hd_drop_conv_nth)

lemma erase_absent: "inv q \<Longrightarrow> P x \<Longrightarrow> x \<notin> set (elems (erase P q))"
  by (simp add: erase_elems)

end

interpretation vq: fifo_queue vq_inv vq_list "vq_push d" vq_pop vq_front vq_erase_if for d
  by unfold_locales
    (simp_all add: vq_push_correct vq_pop_correct vq_front_correct vq_erase_if_correct)

subsection \<open>Properties\<close>

text \<open>C27. First in, first out, across growth and wrap-around. On a queue of any positive initial
  capacity, after pushing \<open>xs\<close>, popping \<open>k\<close> times, pushing \<open>ys\<close> and erasing the elements that satisfy
  \<open>P\<close>, the \<open>n\<close>-th front is the \<open>n\<close>-th of the remaining elements in the order they were pushed, and no
  array access was out of bounds.\<close>

theorem vq_fifo:
  assumes "0 < cap" and "zs = filter (\<lambda>x. \<not> P x) (drop k xs @ ys)" and "n < length zs"
    and "q = vq_erase_if P (fold (vq_push d) ys ((vq_pop ^^ k) (fold (vq_push d) xs (vq_new d cap))))"
  shows "vq_front ((vq_pop ^^ n) q) = zs ! n \<and> vq_size q = length zs \<and>
    vq_head q < length (vq_buffer q)"
proof -
  let ?a = "fold (vq_push d) xs (vq_new d cap)"
  let ?b = "fold (vq_push d) ys ((vq_pop ^^ k) ?a)"
  have "vq_inv ?a \<and> vq_list ?a = xs"
    using vq.pushes [OF vq_new_inv [OF assms(1)], where d = d and xs = xs] by (simp add: vq_new_list)
  then have "vq_inv ?b \<and> vq_list ?b = drop k xs @ ys"
    using vq.pops [of ?a k] vq.pushes [where q = "(vq_pop ^^ k) ?a" and d = d and xs = ys] by simp
  then have q: "vq_inv q" "vq_list q = zs"
    using vq.erase_inv [of ?b P] vq.erase_elems [of ?b P] assms(2,4) by simp_all
  moreover have "vq_size q = length zs" using q length_vq_list [of q] by (simp add: vq_size_def)
  ultimately show ?thesis using vq.front_after_pops [of q n] vq_front_in_bounds [of q] assms(3) by simp
qed

theorem vq_fifo_witness:
  "vq_front ((vq_pop ^^ 1) (vq_erase_if (\<lambda>x. x = 4)
     (fold (vq_push (0::nat)) [5, 6] ((vq_pop ^^ 2) (fold (vq_push 0) [1, 2, 3, 4] (vq_new 0 2)))))) = 5"
  using vq_fifo [of 2 _ "\<lambda>x. x = 4" 2 "[1, 2, 3, 4::nat]" "[5, 6]" 1 _ 0, OF _ refl _ refl]
  by (simp add: numeral_2_eq_2)

end
