(* ===== verification/Wire_Format.thy ===== *)
theory Wire_Format
  imports Lfi_Prelude
begin

text \<open>
  Constants and encodings shared by all operations: the error codes of \<open>include/lfi_error.h\<close> and
  their messages (\<open>lfi_strerror\<close>), the reserved communicator identifiers and tags, and the 64-bit
  libfabric tag that carries a 32-bit rank and a 32-bit user tag (\<open>MASK_RANK\<close>, \<open>MASK_TAG\<close> of
  \<open>include/impl/lfi.hpp\<close>), packed by \<open>async_send_internal\<close> and \<open>async_recv_internal\<close> and taken
  apart by \<open>lfi_endpoint::progress\<close>. Also the textual forms that \<open>operator<<\<close> gives to
  communicators, tags and fault-tolerance states.
\<close>

subsection \<open>Error codes\<close>

definition LFI_SUCCESS :: int where "LFI_SUCCESS = 0"
definition LFI_ERROR :: int where "LFI_ERROR = 1"
definition LFI_TIMEOUT :: int where "LFI_TIMEOUT = 2"
definition LFI_CANCELED :: int where "LFI_CANCELED = 3"
definition LFI_BROKEN_COMM :: int where "LFI_BROKEN_COMM = 4"
definition LFI_COMM_NOT_FOUND :: int where "LFI_COMM_NOT_FOUND = 5"
definition LFI_PEEK_NO_MSG :: int where "LFI_PEEK_NO_MSG = 6"
definition LFI_NOT_COMPLETED :: int where "LFI_NOT_COMPLETED = 7"
definition LFI_NULL_REQUEST :: int where "LFI_NULL_REQUEST = 8"
definition LFI_SEND_ANY_COMM :: int where "LFI_SEND_ANY_COMM = 9"
definition LFI_ETRUN_RECV :: int where "LFI_ETRUN_RECV = 10"
definition LFI_LIBFABRIC_ERROR :: int where "LFI_LIBFABRIC_ERROR = 11"
definition LFI_GROUP_NO_INIT :: int where "LFI_GROUP_NO_INIT = 12"
definition LFI_GROUP_NO_SELF :: int where "LFI_GROUP_NO_SELF = 13"
definition LFI_GROUP_INVAL :: int where "LFI_GROUP_INVAL = 14"
definition LFI_MR_NOT_FOUND :: int where "LFI_MR_NOT_FOUND = 15"
definition LFI_IOV_LIMIT :: int where "LFI_IOV_LIMIT = 16"

lemmas lfi_errors =
  LFI_SUCCESS_def LFI_ERROR_def LFI_TIMEOUT_def LFI_CANCELED_def LFI_BROKEN_COMM_def
  LFI_COMM_NOT_FOUND_def LFI_PEEK_NO_MSG_def LFI_NOT_COMPLETED_def LFI_NULL_REQUEST_def
  LFI_SEND_ANY_COMM_def LFI_ETRUN_RECV_def LFI_LIBFABRIC_ERROR_def LFI_GROUP_NO_INIT_def
  LFI_GROUP_NO_SELF_def LFI_GROUP_INVAL_def LFI_MR_NOT_FOUND_def LFI_IOV_LIMIT_def

definition strerror_cases :: "(int \<times> string) list" where
  "strerror_cases =
    [(LFI_SUCCESS, ''Success''),
     (LFI_ERROR, ''General error''),
     (LFI_TIMEOUT, ''Timeout''),
     (LFI_CANCELED, ''Canceled''),
     (LFI_BROKEN_COMM, ''Broken comunicator''),
     (LFI_COMM_NOT_FOUND, ''Comunicator not found''),
     (LFI_PEEK_NO_MSG, ''No msg encounter''),
     (LFI_NOT_COMPLETED, ''Request not completed''),
     (LFI_NULL_REQUEST, ''Request is NULL''),
     (LFI_SEND_ANY_COMM, ''Use of ANY_COMM in send''),
     (LFI_ETRUN_RECV, ''The published receive buffer is smaller than the received one.''),
     (LFI_LIBFABRIC_ERROR, ''Internal libfabric error''),
     (LFI_GROUP_NO_INIT, ''The group is not initialized''),
     (LFI_GROUP_NO_SELF, ''The hostname of the current process is missing''),
     (LFI_GROUP_INVAL, ''Invalid argument''),
     (LFI_MR_NOT_FOUND, ''Memory region not found''),
     (LFI_IOV_LIMIT, ''IOV count exceeds hardware/software limit'')]"

text \<open>The switch of \<open>LFI::lfi_strerror\<close>, and the C entry point, which takes \<open>abs\<close> once more.\<close>

definition lfi_strerror_impl :: "int \<Rightarrow> string" where
  "lfi_strerror_impl error =
     (case map_of strerror_cases \<bar>error\<bar> of Some msg \<Rightarrow> msg | None \<Rightarrow> ''Unknown'')"

definition lfi_strerror :: "int \<Rightarrow> string" where
  "lfi_strerror error = lfi_strerror_impl \<bar>error\<bar>"

text \<open>Totality of the error table. Every error code of \<open>lfi_error.h\<close>, with either sign, has its
  own message, and every other code is reported as unknown.\<close>

theorem lfi_strerror_known:
  "lfi_strerror e \<noteq> ''Unknown'' \<longleftrightarrow> \<bar>e\<bar> \<le> 16"
proof -
  have "lfi_strerror_impl a \<noteq> ''Unknown'' \<longleftrightarrow> a \<le> 16" if "0 \<le> a" for a
  proof (cases "a \<le> 16")
    case True
    with that have "a \<in> set [0..16]" by simp
    then show ?thesis
      by (simp add: upto.simps) (auto simp: lfi_strerror_impl_def strerror_cases_def lfi_errors)
  next
    case False
    with that show ?thesis by (simp add: lfi_strerror_impl_def strerror_cases_def lfi_errors)
  qed
  then show ?thesis by (simp add: lfi_strerror_def)
qed

text \<open>Return values carry the code negated; the message does not depend on the sign.\<close>

lemma lfi_strerror_neg: "lfi_strerror (- e) = lfi_strerror e"
  by (simp add: lfi_strerror_def)

subsection \<open>Reserved communicators and tags\<close>

definition LFI_ANY_COMM_SHM :: u32 where "LFI_ANY_COMM_SHM = 0xFFFFFFFF - 1"
definition LFI_ANY_COMM_PEER :: u32 where "LFI_ANY_COMM_PEER = 0xFFFFFFFF - 2"
definition UNINITIALIZED_COMM :: u32 where "UNINITIALIZED_COMM = 0xFFFFFFFF"

definition any_comm :: "u32 \<Rightarrow> bool" where
  "any_comm c \<longleftrightarrow> c = LFI_ANY_COMM_SHM \<or> c = LFI_ANY_COMM_PEER"

definition LFI_TAG_RECV_LD_PRELOAD :: u32 where "LFI_TAG_RECV_LD_PRELOAD = 0xFFFFFFFF - 3"
definition LFI_TAG_BUFFERED_LD_PRELOAD :: u32 where "LFI_TAG_BUFFERED_LD_PRELOAD = 100000"
definition LFI_TAG_GROUP :: u32 where "LFI_TAG_GROUP = 0xFFFFFFFF - 4"
definition LFI_TAG_BARRIER :: u32 where "LFI_TAG_BARRIER = 0xFFFFFFFF - 5"
definition LFI_TAG_BROADCAST :: u32 where "LFI_TAG_BROADCAST = 0xFFFFFFFF - 6"
definition LFI_TAG_ALLREDUCE :: u32 where "LFI_TAG_ALLREDUCE = 0xFFFFFFFF - 7"
definition LFI_TAG_DUMMY :: u32 where "LFI_TAG_DUMMY = 0xFFFFFFFF - 8"
definition LFI_TAG_INITIAL_SEND_SRV :: u32 where "LFI_TAG_INITIAL_SEND_SRV = 0xFFFFFFFF - 9"
definition LFI_TAG_INITIAL_SEND_CLI :: u32 where "LFI_TAG_INITIAL_SEND_CLI = 0xFFFFFFFF - 10"

lemmas lfi_tags =
  LFI_TAG_RECV_LD_PRELOAD_def LFI_TAG_BUFFERED_LD_PRELOAD_def LFI_TAG_GROUP_def
  LFI_TAG_BARRIER_def LFI_TAG_BROADCAST_def LFI_TAG_ALLREDUCE_def LFI_TAG_DUMMY_def
  LFI_TAG_INITIAL_SEND_SRV_def LFI_TAG_INITIAL_SEND_CLI_def

lemmas lfi_comm_ids = LFI_ANY_COMM_SHM_def LFI_ANY_COMM_PEER_def UNINITIALIZED_COMM_def

subsection \<open>The 64-bit tag\<close>

definition MASK_RANK :: u64 where "MASK_RANK = 0xFFFFFFFF00000000"
definition MASK_RANK_BYTES :: nat where "MASK_RANK_BYTES = 32"
definition MASK_TAG :: u64 where "MASK_TAG = 0x00000000FFFFFFFF"

text \<open>
  \<open>(aux_rank << MASK_RANK_BYTES) | aux_tag\<close>: the sender packs the rank it has in the peer
  (\<open>rank_self_in_peer\<close>), the receiver the identifier of the communicator it listens on.
\<close>

definition pack_tag :: "u32 \<Rightarrow> u32 \<Rightarrow> u64" where
  "pack_tag rank tag = push_bit MASK_RANK_BYTES (ucast rank) OR ucast tag"

definition recv_ignore :: "u32 \<Rightarrow> u64" where
  "recv_ignore comm_id = (if any_comm comm_id then MASK_RANK else 0)"

definition tag_of :: "u64 \<Rightarrow> u32" where
  "tag_of t = ucast (t AND MASK_TAG)"

definition source_of :: "u64 \<Rightarrow> u32" where
  "source_of t = ucast (drop_bit MASK_RANK_BYTES (t AND MASK_RANK))"

lemmas tag_defs = pack_tag_def tag_of_def source_of_def MASK_RANK_def MASK_TAG_def MASK_RANK_BYTES_def

lemma mask_tag_mask: "MASK_TAG = mask 32"
  by (simp add: MASK_TAG_def mask_eq_exp_minus_1)

lemma mask_rank_mask: "MASK_RANK = push_bit 32 (mask 32)"
  by (simp add: MASK_RANK_def mask_eq_exp_minus_1 push_bit_eq_mult)

lemma bit_pack_tag:
  "n < 64 \<Longrightarrow> bit (pack_tag r t) n = (if n < 32 then bit t n else bit r (n - 32))"
  by (auto simp: pack_tag_def MASK_RANK_BYTES_def bit_simps dest: bit_imp_le_length)

lemma tag_of_pack: "tag_of (pack_tag r t) = t"
  by (rule bit_word_eqI) (simp add: tag_of_def mask_tag_mask bit_simps bit_pack_tag)

lemma source_of_pack: "source_of (pack_tag r t) = r"
  by (rule bit_word_eqI)
    (simp add: source_of_def mask_rank_mask MASK_RANK_BYTES_def bit_simps bit_pack_tag)

lemma pack_tag_inj: "pack_tag r t = pack_tag r' t' \<longleftrightarrow> r = r' \<and> t = t'"
  by (metis tag_of_pack source_of_pack)

lemma pack_of_parts: "pack_tag (source_of w) (tag_of w) = w"
  by (rule bit_word_eqI)
    (auto simp: bit_pack_tag source_of_def tag_of_def mask_rank_mask mask_tag_mask
      MASK_RANK_BYTES_def bit_simps)

lemma pack_ignoring_rank: "pack_tag r t AND NOT MASK_RANK = ucast t"
  by (rule bit_word_eqI) (auto simp: bit_pack_tag mask_rank_mask bit_simps dest: bit_imp_le_length)

text \<open>C29. Matching. libfabric delivers a message to a posted receive when the two tags agree
  outside the receive's ignore mask. For the 64-bit tags that the two sides build this comes down to
  the user tag, and the rank unless the receive is on one of the two "any" communicators; and the
  receiver reads both back from the tag of the completion.\<close>

theorem tag_match_iff:
  "pack_tag r t AND NOT (recv_ignore c) = pack_tag c t' AND NOT (recv_ignore c) \<longleftrightarrow>
   t = t' \<and> (any_comm c \<or> r = c)"
proof (cases "any_comm c")
  case True
  have "ucast t = (ucast t' :: u64) \<longleftrightarrow> t = t'"
    by (metis tag_of_pack pack_tag_def tag_of_def pack_ignoring_rank)
  with True show ?thesis by (simp add: recv_ignore_def pack_ignoring_rank)
next
  case False
  then show ?thesis by (auto simp: recv_ignore_def pack_tag_inj)
qed

subsection \<open>Textual forms\<close>

text \<open>Decimal output of an unsigned value by \<open>operator<<\<close>.\<close>

fun dec_of_nat :: "nat \<Rightarrow> string" where
  "dec_of_nat n =
     (if n < 10 then [char_of (48 + n)] else dec_of_nat (n div 10) @ [char_of (48 + n mod 10)])"

declare dec_of_nat.simps [simp del]

definition digit_val :: "char \<Rightarrow> nat" where
  "digit_val c = of_char c - 48"

definition is_digit :: "char \<Rightarrow> bool" where
  "is_digit c \<longleftrightarrow> 48 \<le> (of_char c :: nat) \<and> (of_char c :: nat) \<le> 57"

definition digits_val :: "string \<Rightarrow> nat" where
  "digits_val s = foldl (\<lambda>acc c. 10 * acc + digit_val c) 0 s"

lemma digit_char: "d < 10 \<Longrightarrow> is_digit (char_of (48 + d)) \<and> digit_val (char_of (48 + d)) = d"
  by (simp add: is_digit_def digit_val_def)

lemma dec_of_nat_digits: "\<forall>c \<in> set (dec_of_nat n). is_digit c"
proof (induction n rule: dec_of_nat.induct)
  case (1 n)
  then show ?case by (subst dec_of_nat.simps) (auto simp: digit_char)
qed

lemma dec_of_nat_ne: "dec_of_nat n \<noteq> []"
  by (subst dec_of_nat.simps) simp

lemma digits_val_dec: "digits_val (dec_of_nat n) = n"
proof (induction n rule: dec_of_nat.induct)
  case (1 n)
  then show ?case
    by (subst dec_of_nat.simps) (auto simp: digits_val_def digit_char)
qed

lemma dec_of_nat_inj: "dec_of_nat m = dec_of_nat n \<longleftrightarrow> m = n"
  by (metis digits_val_dec)

definition dec_of_int :: "int \<Rightarrow> string" where
  "dec_of_int i = (if i < 0 then CHR ''-'' # dec_of_nat (nat (- i)) else dec_of_nat (nat i))"

definition format_lfi_comm :: "u64 \<Rightarrow> string" where
  "format_lfi_comm comm =
     (if comm = ucast LFI_ANY_COMM_SHM then ''ANY_SHM''
      else if comm = ucast LFI_ANY_COMM_PEER then ''ANY_PEER''
      else if comm = ucast UNINITIALIZED_COMM then ''UNINITIALIZED_COMM''
      else dec_of_nat (unat comm))"

definition tag_names :: "(u32 \<times> string) list" where
  "tag_names =
    [(LFI_TAG_RECV_LD_PRELOAD, ''RECV_LD_PRELOAD''),
     (LFI_TAG_BUFFERED_LD_PRELOAD, ''BUFFERED_LD_PRELOAD''),
     (LFI_TAG_GROUP, ''GROUP''),
     (LFI_TAG_BARRIER, ''BARRIER''),
     (LFI_TAG_BROADCAST, ''BROADCAST''),
     (LFI_TAG_ALLREDUCE, ''ALLREDUCE''),
     (LFI_TAG_DUMMY, ''DUMMY''),
     (LFI_TAG_INITIAL_SEND_SRV, ''INITIAL_SEND_SRV''),
     (LFI_TAG_INITIAL_SEND_CLI, ''INITIAL_SEND_CLI'')]"

definition format_lfi_tag :: "u64 \<Rightarrow> string" where
  "format_lfi_tag tag =
     (case map_of (map (\<lambda>(t, s). (ucast t, s)) tag_names) tag of
        Some s \<Rightarrow> s
      | None \<Rightarrow> dec_of_nat (unat tag))"

definition format_fi_tag :: "u64 \<Rightarrow> string" where
  "format_fi_tag tag =
     ''{tag: '' @ format_lfi_tag (tag AND MASK_TAG) @ '', rank: '' @
     format_lfi_comm (drop_bit MASK_RANK_BYTES (tag AND MASK_RANK)) @ ''}''"

lemma dec_not_name: "s \<noteq> [] \<Longrightarrow> \<not> is_digit (hd s) \<Longrightarrow> dec_of_nat n \<noteq> s"
  using dec_of_nat_digits [of n] by (cases "dec_of_nat n") auto

text \<open>Two tags never print alike, so a log line determines the tag.\<close>

lemma format_lfi_tag_inj: "format_lfi_tag a = format_lfi_tag b \<longleftrightarrow> a = b"
proof -
  let ?m = "map (\<lambda>(t :: u32, s :: string). (ucast t :: u64, s)) tag_names"
  have name: "s \<noteq> [] \<and> \<not> is_digit (hd s)" if "map_of ?m x = Some s" for x s
    using that by (auto simp: tag_names_def lfi_tags is_digit_def split: if_splits)
  have inj: "x = y" if "map_of ?m x = Some s" and "map_of ?m y = Some s" for x y s
    using that by (auto simp: tag_names_def lfi_tags split: if_splits)
  show ?thesis
    using name inj
    by (auto simp: format_lfi_tag_def dec_of_nat_inj word_unat_eq_iff [symmetric]
        split: option.splits dest: dec_not_name sym)
qed

end
