(* ===== verification/Env_Config.thy ===== *)
theory Env_Config
  imports Wire_Format
begin

text \<open>
  \<open>LFI::env\<close> of \<open>include/impl/env.hpp\<close>: thirteen settings with defaults, each overridable by an
  environment variable that \<open>parse_env\<close> reads with \<open>strtol\<close> in base 10 and narrows to \<open>int\<close>. The
  process environment is the parameter \<open>getenv\<close>. \<open>strtol\<close> is modelled from the C standard: leading
  white space, an optional sign, then the longest run of digits, saturating at the limits of a
  64-bit \<open>long\<close>; the returned suffix is where \<open>endptr\<close> points, and it points to the whole text
  when there is no digit.
\<close>

definition c_isspace :: "char \<Rightarrow> bool" where
  "c_isspace c \<longleftrightarrow> of_char c \<in> {9, 10, 11, 12, 13, 32 :: nat}"

definition clamp_long :: "int \<Rightarrow> int" where
  "clamp_long x = max (- (2 ^ 63)) (min (2 ^ 63 - 1) x)"

text \<open>Result: the value and the rest of the text; a text without a number is returned whole.\<close>

definition strtol10 :: "string \<Rightarrow> int \<times> string" where
  "strtol10 s =
     (let s1 = dropWhile c_isspace s;
          neg = (case s1 of c # _ \<Rightarrow> c = CHR ''-'' | [] \<Rightarrow> False);
          s2 = (case s1 of c # cs \<Rightarrow> if c = CHR ''-'' \<or> c = CHR ''+'' then cs else s1 | [] \<Rightarrow> []);
          ds = takeWhile is_digit s2
      in if ds = [] then (0, s)
         else (clamp_long (if neg then - int (digits_val ds) else int (digits_val ds)),
               dropWhile is_digit s2))"

text \<open>
  \<open>parse_env\<close> before the assignment \<open>value = int_value\<close>: the \<open>int\<close> to assign, or \<open>None\<close> when the
  variable is unset, empty or (with a warning) not a number, in which case \<open>value\<close> is kept.
\<close>

definition parse_env :: "string option \<Rightarrow> int option" where
  "parse_env env_value =
     (case env_value of
        None \<Rightarrow> None
      | Some s \<Rightarrow>
          if s = '''' then None
          else (let (v, rest) = strtol10 s
                in if rest = s \<or> rest \<noteq> '''' then None else Some (i32 v)))"

text \<open>The assignment converts to the type of the setting: \<open>int\<close>, \<open>bool\<close> or \<open>size_t\<close>.\<close>

definition env_int :: "int \<Rightarrow> int option \<Rightarrow> int" where
  "env_int dflt p = (case p of None \<Rightarrow> dflt | Some v \<Rightarrow> v)"

definition env_bool :: "bool \<Rightarrow> int option \<Rightarrow> bool" where
  "env_bool dflt p = (case p of None \<Rightarrow> dflt | Some v \<Rightarrow> v \<noteq> 0)"

definition env_size :: "u64 \<Rightarrow> int option \<Rightarrow> u64" where
  "env_size dflt p = (case p of None \<Rightarrow> dflt | Some v \<Rightarrow> word_of_int v)"

record env_cfg =
  LFI_fault_tolerance :: bool
  LFI_fault_tolerance_time :: int
  LFI_port :: int
  LFI_group_port :: int
  LFI_ms_wait_sleep :: int
  LFI_use_inject :: bool
  LFI_async_connection :: bool
  LFI_efficient_progress :: bool
  LFI_ld_preload_threads :: u64
  LFI_ld_preload_buffered :: u64
  LFI_debug_dump_interval :: int
  LFI_use_shm :: bool
  LFI_debug :: bool

definition env_default :: env_cfg where
  "env_default =
    \<lparr>LFI_fault_tolerance = True,
     LFI_fault_tolerance_time = 5,
     LFI_port = 56789,
     LFI_group_port = 56790,
     LFI_ms_wait_sleep = 10,
     LFI_use_inject = False,
     LFI_async_connection = True,
     LFI_efficient_progress = True,
     LFI_ld_preload_threads = 1,
     LFI_ld_preload_buffered = 64 * 1024,
     LFI_debug_dump_interval = 0,
     LFI_use_shm = True,
     LFI_debug = True\<rparr>"

definition env_init :: "(string \<Rightarrow> string option) \<Rightarrow> env_cfg" where
  "env_init getenv =
    \<lparr>LFI_fault_tolerance =
       env_bool (LFI_fault_tolerance env_default) (parse_env (getenv ''LFI_FAULT_TOLERANCE'')),
     LFI_fault_tolerance_time =
       env_int (LFI_fault_tolerance_time env_default) (parse_env (getenv ''LFI_FAULT_TOLERANCE_TIME'')),
     LFI_port = env_int (LFI_port env_default) (parse_env (getenv ''LFI_PORT'')),
     LFI_group_port = env_int (LFI_group_port env_default) (parse_env (getenv ''LFI_GROUP_PORT'')),
     LFI_ms_wait_sleep = env_int (LFI_ms_wait_sleep env_default) (parse_env (getenv ''LFI_MS_WAIT_SLEEP'')),
     LFI_use_inject = env_bool (LFI_use_inject env_default) (parse_env (getenv ''LFI_USE_INJECT'')),
     LFI_async_connection =
       env_bool (LFI_async_connection env_default) (parse_env (getenv ''LFI_ASYNC_CONNECTION'')),
     LFI_efficient_progress =
       env_bool (LFI_efficient_progress env_default) (parse_env (getenv ''LFI_EFFICIENT_PROGRESS'')),
     LFI_ld_preload_threads =
       env_size (LFI_ld_preload_threads env_default) (parse_env (getenv ''LFI_LD_PRELOAD_THREADS'')),
     LFI_ld_preload_buffered =
       env_size (LFI_ld_preload_buffered env_default) (parse_env (getenv ''LFI_LD_PRELOAD_BUFFERED'')),
     LFI_debug_dump_interval =
       env_int (LFI_debug_dump_interval env_default) (parse_env (getenv ''LFI_DEBUG_DUMP_INTERVAL'')),
     LFI_use_shm = env_bool (LFI_use_shm env_default) (parse_env (getenv ''LFI_USE_SHM'')),
     LFI_debug = env_bool (LFI_debug env_default) (parse_env (getenv ''LFI_DEBUG''))\<rparr>"

lemma env_init_unset: "(\<And>v. getenv v = None) \<Longrightarrow> env_init getenv = env_default"
  by (simp add: env_init_def env_default_def parse_env_def env_bool_def env_int_def env_size_def)

subsection \<open>Reading back what is written\<close>

lemma is_digit_not_sign: "is_digit c \<Longrightarrow> c \<noteq> CHR ''-'' \<and> c \<noteq> CHR ''+'' \<and> \<not> c_isspace c"
  by (auto simp: is_digit_def c_isspace_def)

lemma takeWhile_dec [simp]: "takeWhile is_digit (dec_of_nat n) = dec_of_nat n"
  using dec_of_nat_digits [of n] by (simp add: takeWhile_eq_all_conv)

lemma dropWhile_dec [simp]: "dropWhile is_digit (dec_of_nat n) = []"
  using dec_of_nat_digits [of n] by simp

lemma strtol10_dec: "strtol10 (dec_of_int x) = (clamp_long x, [])"
proof (cases "x < 0")
  case True
  then have "dropWhile c_isspace (dec_of_int x) = dec_of_int x"
    by (simp add: dec_of_int_def c_isspace_def)
  with True show ?thesis
    by (simp add: strtol10_def dec_of_int_def dec_of_nat_ne digits_val_dec)
next
  case False
  obtain c cs where d: "dec_of_nat (nat x) = c # cs" and c: "is_digit c"
    using dec_of_nat_ne [of "nat x"] dec_of_nat_digits [of "nat x"]
    by (cases "dec_of_nat (nat x)") auto
  have "takeWhile is_digit (c # cs) = c # cs" "dropWhile is_digit (c # cs) = []"
    using takeWhile_dec [of "nat x"] dropWhile_dec [of "nat x"] unfolding d by blast+
  moreover have "int (digits_val (c # cs)) = x"
    using False digits_val_dec [of "nat x"] by (simp add: d)
  ultimately show ?thesis
    using False is_digit_not_sign [OF c] by (simp add: strtol10_def dec_of_int_def d)
qed

text \<open>
  A setting written in decimal is read back exactly when it fits an \<open>int\<close>; a larger one is
  accepted too, and reduced modulo \<open>2^32\<close>.
\<close>

lemma parse_env_dec: "parse_env (Some (dec_of_int x)) = Some (i32 (clamp_long x))"
proof -
  have "dec_of_int x \<noteq> []" by (simp add: dec_of_int_def dec_of_nat_ne)
  then show ?thesis by (simp add: parse_env_def strtol10_dec)
qed

subsection \<open>Properties\<close>

text \<open>Settings round trip. A setting written as the decimal text of a value that fits a C
  \<open>int\<close> is read back as that value, whatever its type: the number itself for an \<open>int\<close>, whether it
  is non-zero for a \<open>bool\<close>, and its two's complement extension to 64 bits for a \<open>size_t\<close>; the
  settings whose variables are unset keep their defaults.\<close>

theorem env_round_trip:
  assumes "- (2 ^ 31) \<le> x" and "x < 2 ^ 31"
    and "cfg = env_init (\<lambda>v. if v = name then Some (dec_of_int x) else None)"
  shows "LFI_port cfg = (if name = ''LFI_PORT'' then x else 56789) \<and>
    LFI_fault_tolerance cfg = (if name = ''LFI_FAULT_TOLERANCE'' then x \<noteq> 0 else True) \<and>
    LFI_efficient_progress cfg = (if name = ''LFI_EFFICIENT_PROGRESS'' then x \<noteq> 0 else True) \<and>
    LFI_fault_tolerance_time cfg = (if name = ''LFI_FAULT_TOLERANCE_TIME'' then x else 5) \<and>
    LFI_ld_preload_threads cfg = (if name = ''LFI_LD_PRELOAD_THREADS'' then word_of_int x else 1)"
proof -
  have "clamp_long x = x" using assms by (simp add: clamp_long_def)
  then have "parse_env (Some (dec_of_int x)) = Some x"
    using assms by (simp add: parse_env_dec i32_small)
  moreover have "parse_env None = None" by (simp add: parse_env_def)
  ultimately show ?thesis
    unfolding assms(3) by (simp add: env_init_def env_default_def env_bool_def env_int_def env_size_def)
qed

theorem env_round_trip_witness:
  "LFI_ld_preload_threads (env_init (\<lambda>v. if v = ''LFI_LD_PRELOAD_THREADS'' then Some (dec_of_int (-1)) else None))
     = - 1"
  using env_round_trip [of "-1" _ "''LFI_LD_PRELOAD_THREADS''", OF _ _ refl] by simp

end
