(* ===== verification/Lfi_State.thy ===== *)
theory Lfi_State
  imports Progress_Guard Vector_Queue Wire_Format Env_Config
begin

text \<open>
  The state of the library: \<open>lfi_request\<close>, \<open>lfi_pending_op\<close>, \<open>lfi_comm\<close>, \<open>lfi_endpoint\<close>,
  \<open>lfi_mr\<close> and the members of class \<open>LFI\<close>, as the headers under \<open>include/impl\<close> declare them, and
  the record \<open>world\<close> of everything the code calls but does not contain: libfabric, the clock, the
  other threads and the callbacks of the application.

  Objects that the code shares through pointers live in maps from addresses: requests
  (\<open>l_reqs\<close>), contexts (\<open>l_ctxs\<close>), shared wait structures (\<open>l_waits\<close>), and the link fields of the
  two intrusive lists (\<open>l_rlinks\<close>, \<open>l_clinks\<close>). A communicator's address is its identifier: the
  code allocates one per identifier and frees it when the entry of \<open>m_comms\<close> is erased.

  An operation has the type \<open>'f lfi \<Rightarrow> ('a \<times> 'f lfi) option\<close>. \<open>None\<close> means that the call does not
  return: it blocks for ever, calls \<open>std::terminate\<close>, or uses an object that does not exist. Each
  source of \<open>None\<close> is named where it is introduced.
\<close>

subsection \<open>Identifiers and enumerations\<close>

type_synonym rid = nat    \<comment> \<open>address of a request\<close>
type_synonym ctx = nat    \<comment> \<open>address of a \<open>lfi_request_context\<close>\<close>
type_synonym wid = nat    \<comment> \<open>address of a \<open>wait_struct\<close>\<close>
type_synonym cid = u32    \<comment> \<open>communicator\<close>
type_synonym fid = nat    \<comment> \<open>libfabric object, 0 for \<open>nullptr\<close>\<close>
type_synonym cb = nat     \<comment> \<open>application callback\<close>

datatype ep_id = Shm | Peer

datatype op_type = OpNone | OpSend | OpInject | OpPut | OpGet | OpRecv

datatype pend_type = PNone | PSend | PSendv | PRecv | PRecvv | PInject | PPut | PGet

datatype ft_status = IDLE | HEARTBEAT | FT_ERROR

datatype comm_status = NOT_READY | READY_INTERNAL | READY

text \<open>Memory that is handed to libfabric: the caller's, or a variable of the library.\<close>

datatype ptr = Mem u64 | HeartbeatOf cid | LocalHeartbeat

record mr_key =
  shm_key :: int
  peer_key :: int

definition FI_EAGAIN :: int where "FI_EAGAIN = 11"
definition FI_ENOMSG :: int where "FI_ENOMSG = 42"
definition FI_ENOSYS :: int where "FI_ENOSYS = 38"
definition FI_ECANCELED :: int where "FI_ECANCELED = 125"
definition FI_ETOOSMALL :: int where "FI_ETOOSMALL = 257"
definition FI_EAVAIL :: int where "FI_EAVAIL = 259"
definition FI_ETRUNC :: int where "FI_ETRUNC = 265"
definition FI_ADDR_UNSPEC :: u64 where "FI_ADDR_UNSPEC = - 1"

lemmas fi_consts =
  FI_EAGAIN_def FI_ENOMSG_def FI_ENOSYS_def FI_ECANCELED_def FI_ETOOSMALL_def FI_EAVAIL_def FI_ETRUNC_def

subsection \<open>Objects\<close>

text \<open>\<open>lfi_pending_op\<close>. One field holds the tag or the remote address, one the mask or the key.\<close>

record pending_op =
  po_type :: pend_type
  po_ep :: fid
  po_buf :: ptr
  po_len :: u64
  po_addr :: u64
  po_tag_remote_addr :: u64
  po_ignore_remote_key :: u64
  po_context :: "ctx option"

definition po_null :: pending_op where
  "po_null = \<lparr>po_type = PNone, po_ep = 0, po_buf = Mem 0, po_len = 0, po_addr = 0,
     po_tag_remote_addr = 0, po_ignore_remote_key = 0, po_context = None\<rparr>"

text \<open>\<open>lfi_request\<close>; its links are in \<open>l_rlinks\<close>. \<open>rq_comm\<close> is the pointer \<open>m_comm\<close>.\<close>

record request =
  rq_endpoint :: ep_id
  rq_comm_id :: cid
  rq_comm :: cid
  rq_error :: int
  rq_wait_context :: "ctx option"
  rq_op_type :: op_type
  rq_size :: u64
  rq_tag :: u32
  rq_source :: u32
  rq_shared_wait :: "wid option"
  rq_callback :: "cb option"
  rq_callback_ctx :: u64

text \<open>\<open>lfi_comm\<close>; its links are in \<open>l_clinks\<close>, and \<open>ft_value_heartbeat\<close>, which the remote read
  fills in, belongs to the memory of the fabric. Times are nanosecond counts.\<close>

record comm =
  cm_rank_peer :: u32
  cm_rank_self_in_peer :: u32
  cm_fi_addr :: u64
  cm_endpoint :: ep_id
  cm_requests :: "rid dll"
  cm_heartbeat_time :: int
  cm_last_request_time :: int
  cm_status :: ft_status
  cm_remote_heartbeat_addr :: u64
  cm_remote_heartbeat_key :: mr_key
  cm_heartbeat_req :: "rid option"
  cm_is_canceled :: bool
  cm_is_ready :: comm_status

definition comm_new :: "ep_id \<Rightarrow> u32 \<Rightarrow> int \<Rightarrow> comm" where
  "comm_new e rank now =
    \<lparr>cm_rank_peer = rank, cm_rank_self_in_peer = 0, cm_fi_addr = FI_ADDR_UNSPEC, cm_endpoint = e,
     cm_requests = dll_empty, cm_heartbeat_time = 0, cm_last_request_time = now, cm_status = IDLE,
     cm_remote_heartbeat_addr = 0, cm_remote_heartbeat_key = \<lparr>shm_key = -1, peer_key = -1\<rparr>,
     cm_heartbeat_req = None, cm_is_canceled = False, cm_is_ready = NOT_READY\<rparr>"

text \<open>The part of \<open>fi_info\<close> that the code reads or writes.\<close>

record fi_info =
  fi_prov_name :: string
  fi_iov_limit :: u64
  fi_inject_size :: u64
  fi_tx_caps :: u64
  fi_rx_caps :: u64

record endpoint =
  ep_is_shm :: bool
  ep_use_scalable :: bool
  ep_hints :: "string option"    \<comment> \<open>the provider name asked for\<close>
  ep_info :: "fi_info option"
  ep_fabric :: fid
  ep_domain :: fid
  ep_ep :: fid
  ep_rx :: fid
  ep_tx :: fid
  ep_av :: fid
  ep_cq :: fid
  ep_enable :: bool
  ep_addr :: "u8 list"
  ep_pg :: pg_state              \<comment> \<open>\<open>in_progress\<close>, \<open>waiters_list\<close> and the guards\<close>
  ep_any_reqs :: "rid list"
  ep_failed :: "cid list"
  ep_ft_comms :: "cid dll"
  ep_last_progress :: int
  ep_progress_count :: u32
  ep_canceled_coms :: "cid list"
  ep_to_cancel :: "rid list"
  ep_callbacks :: "(cb \<times> int \<times> u64) list"
  ep_priority :: "pending_op vqueue"
  ep_pending :: "pending_op vqueue"

text \<open>\<open>VectorQueue\<close> starts with 64 slots, as its constructor's default says.\<close>

definition endpoint_new :: "bool \<Rightarrow> endpoint" where
  "endpoint_new shm =
    \<lparr>ep_is_shm = shm, ep_use_scalable = True, ep_hints = None, ep_info = None, ep_fabric = 0,
     ep_domain = 0, ep_ep = 0, ep_rx = 0, ep_tx = 0, ep_av = 0, ep_cq = 0, ep_enable = False,
     ep_addr = [], ep_pg = pg_init, ep_any_reqs = [], ep_failed = [], ep_ft_comms = dll_empty,
     ep_last_progress = 0, ep_progress_count = 0, ep_canceled_coms = [], ep_to_cancel = [],
     ep_callbacks = [], ep_priority = vq_new po_null 64, ep_pending = vq_new po_null 64\<rparr>"

definition rx_endpoint :: "endpoint \<Rightarrow> fid" where
  "rx_endpoint e = (if ep_use_scalable e then ep_rx e else ep_ep e)"

definition tx_endpoint :: "endpoint \<Rightarrow> fid" where
  "tx_endpoint e = (if ep_use_scalable e then ep_tx e else ep_ep e)"

text \<open>\<open>lfi_endpoint::operator==\<close>\<close>

definition ep_eq :: "endpoint \<Rightarrow> endpoint \<Rightarrow> bool" where
  "ep_eq a b \<longleftrightarrow>
     (if ep_use_scalable a \<noteq> ep_use_scalable b then False
      else if ep_use_scalable a then ep_rx a = ep_rx b \<and> ep_tx a = ep_tx b
      else ep_ep a = ep_ep b)"

record lfi_mr =
  mr_addr :: ptr
  mr_size :: u64
  mr_shm :: fid
  mr_peer :: fid

record 'f lfi =
  l_env :: env_cfg
  l_shm :: endpoint
  l_peer :: endpoint
  l_comms :: "(cid \<times> comm option) list"
  l_clinks :: "cid dheap"
  l_futs :: "cid list"                \<comment> \<open>identifiers with a pending connection future\<close>
  l_rank_counter :: u32
  l_reqs :: "rid \<Rightarrow> request option"
  l_rlinks :: "rid dheap"
  l_next_rid :: rid
  l_ctxs :: "ctx \<Rightarrow> rid option"
  l_next_ctx :: ctx
  l_free :: "ctx list"                \<comment> \<open>the factory's \<open>m_queue\<close>\<close>
  l_created :: int                    \<comment> \<open>its \<open>m_stat_created\<close>\<close>
  l_waits :: "wid \<Rightarrow> int option"
  l_next_wid :: wid
  l_next_gid :: gid
  l_mrs :: "(mr_key \<times> lfi_mr) list"
  l_hb_key :: mr_key
  l_ft_init :: bool
  l_linear :: u32
  l_log :: "(cb \<times> int \<times> u64) list"   \<comment> \<open>callbacks called so far\<close>
  l_fab :: 'f

text \<open>The members of a \<open>LFI\<close> object before its constructor's body runs.\<close>

definition lfi_new :: "env_cfg \<Rightarrow> 'f \<Rightarrow> 'f lfi" where
  "lfi_new cfg f =
    \<lparr>l_env = cfg, l_shm = endpoint_new True, l_peer = endpoint_new False, l_comms = [],
     l_clinks = (\<lambda>_. dnode_fresh), l_futs = [], l_rank_counter = 0, l_reqs = (\<lambda>_. None),
     l_rlinks = (\<lambda>_. dnode_fresh), l_next_rid = 0, l_ctxs = (\<lambda>_. None), l_next_ctx = 0, l_free = [],
     l_created = 0, l_waits = (\<lambda>_. None), l_next_wid = 0, l_next_gid = 0, l_mrs = [],
     l_hb_key = \<lparr>shm_key = -1, peer_key = -1\<rparr>, l_ft_init = False, l_linear = 0, l_log = [],
     l_fab = f\<rparr>"

definition ep_of :: "ep_id \<Rightarrow> 'f lfi \<Rightarrow> endpoint" where
  "ep_of e s = (case e of Shm \<Rightarrow> l_shm s | Peer \<Rightarrow> l_peer s)"

definition upd_ep :: "ep_id \<Rightarrow> (endpoint \<Rightarrow> endpoint) \<Rightarrow> 'f lfi \<Rightarrow> 'f lfi" where
  "upd_ep e g s = (case e of Shm \<Rightarrow> s\<lparr>l_shm := g (l_shm s)\<rparr> | Peer \<Rightarrow> s\<lparr>l_peer := g (l_peer s)\<rparr>)"

definition the_comm :: "cid \<Rightarrow> 'f lfi \<Rightarrow> comm option" where
  "the_comm c s = (case map_of (l_comms s) c of Some (Some m) \<Rightarrow> Some m | _ \<Rightarrow> None)"

definition set_comm :: "cid \<Rightarrow> comm \<Rightarrow> 'f lfi \<Rightarrow> 'f lfi" where
  "set_comm c m s = s\<lparr>l_comms := AList.update c (Some m) (l_comms s)\<rparr>"

definition upd_comm :: "cid \<Rightarrow> (comm \<Rightarrow> comm) \<Rightarrow> 'f lfi \<Rightarrow> 'f lfi" where
  "upd_comm c g s = (case the_comm c s of None \<Rightarrow> s | Some m \<Rightarrow> set_comm c (g m) s)"

definition upd_req :: "rid \<Rightarrow> (request \<Rightarrow> request) \<Rightarrow> 'f lfi \<Rightarrow> 'f lfi" where
  "upd_req r g s = s\<lparr>l_reqs := (l_reqs s)(r := map_option g (l_reqs s r))\<rparr>"

subsection \<open>The world outside the library\<close>

record cq_entry =
  cqe_context :: ctx
  cqe_len :: u64
  cqe_tag :: u64

record cq_err =
  cqr_context :: ctx
  cqr_err :: int

text \<open>
  The calls of libfabric, in the order of their arguments in the code, over an abstract state
  \<open>'f\<close>; the memory the NIC writes is part of it. \<open>w_future c\<close> is \<open>get()\<close> on the future of the
  connection of \<open>c\<close>: the connection thread runs to its end. \<open>w_others p t\<close> is a blocking wait on a
  condition variable: the other threads run until \<open>p\<close> holds, or until \<open>t\<close> milliseconds have passed
  when there is a limit; \<open>None\<close> when neither ever happens.
\<close>

record 'f world =
  w_tsend :: "fid \<Rightarrow> ptr \<Rightarrow> u64 \<Rightarrow> u64 \<Rightarrow> u64 \<Rightarrow> ctx option \<Rightarrow> 'f \<Rightarrow> int \<times> 'f"
  w_tsendv :: "fid \<Rightarrow> ptr \<Rightarrow> u64 \<Rightarrow> u64 \<Rightarrow> u64 \<Rightarrow> ctx option \<Rightarrow> 'f \<Rightarrow> int \<times> 'f"
  w_trecv :: "fid \<Rightarrow> ptr \<Rightarrow> u64 \<Rightarrow> u64 \<Rightarrow> u64 \<Rightarrow> u64 \<Rightarrow> ctx option \<Rightarrow> 'f \<Rightarrow> int \<times> 'f"
  w_trecvv :: "fid \<Rightarrow> ptr \<Rightarrow> u64 \<Rightarrow> u64 \<Rightarrow> u64 \<Rightarrow> u64 \<Rightarrow> ctx option \<Rightarrow> 'f \<Rightarrow> int \<times> 'f"
  w_tinject :: "fid \<Rightarrow> ptr \<Rightarrow> u64 \<Rightarrow> u64 \<Rightarrow> u64 \<Rightarrow> 'f \<Rightarrow> int \<times> 'f"
  w_write :: "fid \<Rightarrow> ptr \<Rightarrow> u64 \<Rightarrow> u64 \<Rightarrow> u64 \<Rightarrow> u64 \<Rightarrow> ctx option \<Rightarrow> 'f \<Rightarrow> int \<times> 'f"
  w_read :: "fid \<Rightarrow> ptr \<Rightarrow> u64 \<Rightarrow> u64 \<Rightarrow> u64 \<Rightarrow> u64 \<Rightarrow> ctx option \<Rightarrow> 'f \<Rightarrow> int \<times> 'f"
  w_cq_read :: "fid \<Rightarrow> nat \<Rightarrow> 'f \<Rightarrow> (int \<times> cq_entry list) \<times> 'f"
  w_cq_readerr :: "fid \<Rightarrow> 'f \<Rightarrow> cq_err \<times> 'f"
  w_cancel :: "fid \<Rightarrow> ctx \<Rightarrow> 'f \<Rightarrow> 'f"
  w_mr_reg :: "fid \<Rightarrow> ptr \<Rightarrow> u64 \<Rightarrow> 'f \<Rightarrow> (int \<times> fid) \<times> 'f"
  w_mr_key :: "fid \<Rightarrow> 'f \<Rightarrow> int"
  w_close :: "fid \<Rightarrow> 'f \<Rightarrow> int \<times> 'f"
  w_getname :: "fid \<Rightarrow> u64 \<Rightarrow> 'f \<Rightarrow> (int \<times> u64 \<times> u8 list) \<times> 'f"
  w_av_insert :: "fid \<Rightarrow> u8 list \<Rightarrow> 'f \<Rightarrow> (int \<times> u64) \<times> 'f"
  w_av_remove :: "fid \<Rightarrow> u64 \<Rightarrow> 'f \<Rightarrow> int \<times> 'f"
  w_heartbeat :: "cid \<Rightarrow> 'f \<Rightarrow> u64"
  w_set_heartbeat :: "cid \<Rightarrow> u64 \<Rightarrow> 'f \<Rightarrow> 'f"
  w_now :: "'f \<Rightarrow> int \<times> 'f"
  w_future :: "cid \<Rightarrow> 'f lfi \<Rightarrow> 'f lfi option"
  w_others :: "('f lfi \<Rightarrow> bool) \<Rightarrow> int option \<Rightarrow> 'f lfi \<Rightarrow> 'f lfi option"
  w_callback :: "cb \<Rightarrow> int \<Rightarrow> u64 \<Rightarrow> 'f lfi \<Rightarrow> 'f lfi option"

definition fab :: "('f \<Rightarrow> 'a \<times> 'f) \<Rightarrow> 'f lfi \<Rightarrow> 'a \<times> 'f lfi" where
  "fab call s = (let (x, f) = call (l_fab s) in (x, s\<lparr>l_fab := f\<rparr>))"

definition clock_now :: "'f world \<Rightarrow> 'f lfi \<Rightarrow> int \<times> 'f lfi" where
  "clock_now w s = fab (w_now w) s"

subsection \<open>Reading back what was written\<close>

lemma ep_of_upd [simp]: "ep_of e (upd_ep e' g s) = (if e = e' then g (ep_of e s) else ep_of e s)"
  by (simp add: ep_of_def upd_ep_def split: ep_id.splits)

lemma the_comm_set [simp]: "the_comm c (set_comm c' m s) = (if c = c' then Some m else the_comm c s)"
  by (simp add: the_comm_def set_comm_def map_of_update)

lemma the_comm_upd [simp]:
  "the_comm c (upd_comm c' g s) = (if c = c' then map_option g (the_comm c s) else the_comm c s)"
  by (auto simp: upd_comm_def split: option.splits)

lemma reqs_upd [simp]:
  "l_reqs (upd_req r g s) r' = (if r' = r then map_option g (l_reqs s r) else l_reqs s r')"
  by (simp add: upd_req_def)

text \<open>What a write to one kind of object leaves alone.\<close>

lemma upd_req_frame [simp]:
  "ep_of e (upd_req r g s) = ep_of e s" "the_comm c (upd_req r g s) = the_comm c s"
  "l_env (upd_req r g s) = l_env s" "l_comms (upd_req r g s) = l_comms s"
  "l_clinks (upd_req r g s) = l_clinks s" "l_futs (upd_req r g s) = l_futs s"
  "l_rlinks (upd_req r g s) = l_rlinks s" "l_ctxs (upd_req r g s) = l_ctxs s"
  "l_free (upd_req r g s) = l_free s" "l_created (upd_req r g s) = l_created s"
  "l_next_ctx (upd_req r g s) = l_next_ctx s" "l_waits (upd_req r g s) = l_waits s"
  "l_next_rid (upd_req r g s) = l_next_rid s" "l_next_gid (upd_req r g s) = l_next_gid s"
  "l_log (upd_req r g s) = l_log s" "l_fab (upd_req r g s) = l_fab s" "l_mrs (upd_req r g s) = l_mrs s"
  by (simp_all add: upd_req_def ep_of_def the_comm_def split: ep_id.splits)

lemma set_comm_frame [simp]:
  "ep_of e (set_comm c m s) = ep_of e s" "l_reqs (set_comm c m s) = l_reqs s"
  "l_env (set_comm c m s) = l_env s"
  "l_clinks (set_comm c m s) = l_clinks s" "l_futs (set_comm c m s) = l_futs s"
  "l_rlinks (set_comm c m s) = l_rlinks s" "l_ctxs (set_comm c m s) = l_ctxs s"
  "l_free (set_comm c m s) = l_free s" "l_created (set_comm c m s) = l_created s"
  "l_next_ctx (set_comm c m s) = l_next_ctx s" "l_waits (set_comm c m s) = l_waits s"
  "l_next_rid (set_comm c m s) = l_next_rid s" "l_next_gid (set_comm c m s) = l_next_gid s"
  "l_log (set_comm c m s) = l_log s" "l_fab (set_comm c m s) = l_fab s" "l_mrs (set_comm c m s) = l_mrs s"
  by (simp_all add: set_comm_def ep_of_def split: ep_id.splits)

lemma upd_comm_frame [simp]:
  "ep_of e (upd_comm c g s) = ep_of e s" "l_reqs (upd_comm c g s) = l_reqs s"
  "l_env (upd_comm c g s) = l_env s"
  "l_clinks (upd_comm c g s) = l_clinks s" "l_futs (upd_comm c g s) = l_futs s"
  "l_rlinks (upd_comm c g s) = l_rlinks s" "l_ctxs (upd_comm c g s) = l_ctxs s"
  "l_free (upd_comm c g s) = l_free s" "l_created (upd_comm c g s) = l_created s"
  "l_next_ctx (upd_comm c g s) = l_next_ctx s" "l_waits (upd_comm c g s) = l_waits s"
  "l_next_rid (upd_comm c g s) = l_next_rid s" "l_next_gid (upd_comm c g s) = l_next_gid s"
  "l_log (upd_comm c g s) = l_log s" "l_fab (upd_comm c g s) = l_fab s" "l_mrs (upd_comm c g s) = l_mrs s"
  by (simp_all add: upd_comm_def split: option.splits)

lemma upd_ep_frame [simp]:
  "the_comm c (upd_ep e g s) = the_comm c s" "l_reqs (upd_ep e g s) = l_reqs s"
  "l_env (upd_ep e g s) = l_env s" "l_comms (upd_ep e g s) = l_comms s"
  "l_clinks (upd_ep e g s) = l_clinks s" "l_futs (upd_ep e g s) = l_futs s"
  "l_rlinks (upd_ep e g s) = l_rlinks s" "l_ctxs (upd_ep e g s) = l_ctxs s"
  "l_free (upd_ep e g s) = l_free s" "l_created (upd_ep e g s) = l_created s"
  "l_next_ctx (upd_ep e g s) = l_next_ctx s" "l_waits (upd_ep e g s) = l_waits s"
  "l_next_rid (upd_ep e g s) = l_next_rid s" "l_next_gid (upd_ep e g s) = l_next_gid s"
  "l_log (upd_ep e g s) = l_log s" "l_fab (upd_ep e g s) = l_fab s" "l_mrs (upd_ep e g s) = l_mrs s"
  by (simp_all add: upd_ep_def the_comm_def split: ep_id.splits)

lemma the_comm_frame [simp]:
  "the_comm c (s\<lparr>l_clinks := v_l_clinks\<rparr>) = the_comm c s"
  "the_comm c (s\<lparr>l_futs := v_l_futs\<rparr>) = the_comm c s"
  "the_comm c (s\<lparr>l_rank_counter := v_l_rank_counter\<rparr>) = the_comm c s"
  "the_comm c (s\<lparr>l_reqs := v_l_reqs\<rparr>) = the_comm c s"
  "the_comm c (s\<lparr>l_rlinks := v_l_rlinks\<rparr>) = the_comm c s"
  "the_comm c (s\<lparr>l_next_rid := v_l_next_rid\<rparr>) = the_comm c s"
  "the_comm c (s\<lparr>l_ctxs := v_l_ctxs\<rparr>) = the_comm c s"
  "the_comm c (s\<lparr>l_next_ctx := v_l_next_ctx\<rparr>) = the_comm c s"
  "the_comm c (s\<lparr>l_free := v_l_free\<rparr>) = the_comm c s"
  "the_comm c (s\<lparr>l_created := v_l_created\<rparr>) = the_comm c s"
  "the_comm c (s\<lparr>l_waits := v_l_waits\<rparr>) = the_comm c s"
  "the_comm c (s\<lparr>l_next_wid := v_l_next_wid\<rparr>) = the_comm c s"
  "the_comm c (s\<lparr>l_next_gid := v_l_next_gid\<rparr>) = the_comm c s"
  "the_comm c (s\<lparr>l_mrs := v_l_mrs\<rparr>) = the_comm c s"
  "the_comm c (s\<lparr>l_hb_key := v_l_hb_key\<rparr>) = the_comm c s"
  "the_comm c (s\<lparr>l_ft_init := v_l_ft_init\<rparr>) = the_comm c s"
  "the_comm c (s\<lparr>l_linear := v_l_linear\<rparr>) = the_comm c s"
  "the_comm c (s\<lparr>l_log := v_l_log\<rparr>) = the_comm c s"
  "the_comm c (s\<lparr>l_fab := v_l_fab\<rparr>) = the_comm c s"
  by (simp_all add: the_comm_def)

lemma ep_of_frame [simp]:
  "ep_of e (s\<lparr>l_clinks := v_l_clinks\<rparr>) = ep_of e s"
  "ep_of e (s\<lparr>l_futs := v_l_futs\<rparr>) = ep_of e s"
  "ep_of e (s\<lparr>l_rank_counter := v_l_rank_counter\<rparr>) = ep_of e s"
  "ep_of e (s\<lparr>l_reqs := v_l_reqs\<rparr>) = ep_of e s"
  "ep_of e (s\<lparr>l_rlinks := v_l_rlinks\<rparr>) = ep_of e s"
  "ep_of e (s\<lparr>l_next_rid := v_l_next_rid\<rparr>) = ep_of e s"
  "ep_of e (s\<lparr>l_ctxs := v_l_ctxs\<rparr>) = ep_of e s"
  "ep_of e (s\<lparr>l_next_ctx := v_l_next_ctx\<rparr>) = ep_of e s"
  "ep_of e (s\<lparr>l_free := v_l_free\<rparr>) = ep_of e s"
  "ep_of e (s\<lparr>l_created := v_l_created\<rparr>) = ep_of e s"
  "ep_of e (s\<lparr>l_waits := v_l_waits\<rparr>) = ep_of e s"
  "ep_of e (s\<lparr>l_next_wid := v_l_next_wid\<rparr>) = ep_of e s"
  "ep_of e (s\<lparr>l_next_gid := v_l_next_gid\<rparr>) = ep_of e s"
  "ep_of e (s\<lparr>l_mrs := v_l_mrs\<rparr>) = ep_of e s"
  "ep_of e (s\<lparr>l_hb_key := v_l_hb_key\<rparr>) = ep_of e s"
  "ep_of e (s\<lparr>l_ft_init := v_l_ft_init\<rparr>) = ep_of e s"
  "ep_of e (s\<lparr>l_linear := v_l_linear\<rparr>) = ep_of e s"
  "ep_of e (s\<lparr>l_log := v_l_log\<rparr>) = ep_of e s"
  "ep_of e (s\<lparr>l_fab := v_l_fab\<rparr>) = ep_of e s"
  "ep_of e (s\<lparr>l_comms := v_l_comms\<rparr>) = ep_of e s"
  by (simp_all add: ep_of_def split: ep_id.splits)

end
