(* ===== verification/Sample_World.thy ===== *)
theory Sample_World
  imports Lfi_State
begin

text \<open>
  A concrete world in which the development's statements are evaluated: a fabric that accepts every
  operation and remembers it, returns the completions it was loaded with, and has a clock that a
  reading advances by one nanosecond; no other thread moves and callbacks do nothing.
\<close>

record sample =
  sf_posted :: "(pend_type \<times> u64 \<times> ctx option) list"
  sf_full :: bool                  \<comment> \<open>no resources: every post returns \<open>FI_EAGAIN\<close>\<close>
  sf_cq :: "cq_entry list"
  sf_errs :: "cq_err list"
  sf_canceled :: "ctx list"
  sf_open :: "fid list"
  sf_next :: fid
  sf_heartbeat :: "cid \<Rightarrow> u64"
  sf_clock :: int
  sf_in :: "u8 list"               \<comment> \<open>what arrives on the sockets\<close>
  sf_out :: "u8 list"              \<comment> \<open>what was sent over them\<close>
  sf_socks :: "int list"           \<comment> \<open>open sockets\<close>
  sf_tries :: nat                  \<comment> \<open>calls of \<open>connect\<close>\<close>

definition sample0 :: sample where
  "sample0 = \<lparr>sf_posted = [], sf_full = False, sf_cq = [], sf_errs = [], sf_canceled = [], sf_open = [],
     sf_next = 1, sf_heartbeat = (\<lambda>_. 0), sf_clock = 0,
     sf_in = [], sf_out = [], sf_socks = [], sf_tries = 0\<rparr>"

definition sf_post :: "pend_type \<Rightarrow> u64 \<Rightarrow> ctx option \<Rightarrow> sample \<Rightarrow> int \<times> sample" where
  "sf_post t tag c f =
     (if sf_full f then (- FI_EAGAIN, f) else (0, f\<lparr>sf_posted := sf_posted f @ [(t, tag, c)]\<rparr>))"

definition sf_cq_read :: "nat \<Rightarrow> sample \<Rightarrow> (int \<times> cq_entry list) \<times> sample" where
  "sf_cq_read n f =
     (if sf_errs f \<noteq> [] then ((- FI_EAVAIL, []), f)
      else if sf_cq f = [] then ((- FI_EAGAIN, []), f)
      else ((int (min n (length (sf_cq f))), take n (sf_cq f)), f\<lparr>sf_cq := drop n (sf_cq f)\<rparr>))"

definition sf_new :: "sample \<Rightarrow> (int \<times> fid) \<times> sample" where
  "sf_new f = ((0, sf_next f), f\<lparr>sf_next := sf_next f + 1, sf_open := sf_next f # sf_open f\<rparr>)"

definition sample_world :: "sample world" where
  "sample_world =
    \<lparr>w_tsend = (\<lambda>_ _ _ _ tag c. sf_post PSend tag c),
     w_tsendv = (\<lambda>_ _ _ _ tag c. sf_post PSendv tag c),
     w_trecv = (\<lambda>_ _ _ _ tag _ c. sf_post PRecv tag c),
     w_trecvv = (\<lambda>_ _ _ _ tag _ c. sf_post PRecvv tag c),
     w_tinject = (\<lambda>_ _ _ _ tag. sf_post PInject tag None),
     w_write = (\<lambda>_ _ _ _ addr _ c. sf_post PPut addr c),
     w_read = (\<lambda>_ _ _ _ addr _ c. sf_post PGet addr c),
     w_cq_read = (\<lambda>_. sf_cq_read),
     w_cq_readerr = (\<lambda>_ f. (hd (sf_errs f), f\<lparr>sf_errs := tl (sf_errs f)\<rparr>)),
     w_cancel = (\<lambda>_ c f. f\<lparr>sf_canceled := c # sf_canceled f\<rparr>),
     w_mr_reg = (\<lambda>_ _ _. sf_new),
     w_mr_key = (\<lambda>x _. int x),
     w_close = (\<lambda>x f. (0, f\<lparr>sf_open := remove1 x (sf_open f)\<rparr>)),
     w_getname = (\<lambda>_ n f. if n = 0 then ((- FI_ETOOSMALL, 2, []), f) else ((0, 2, [1, 2]), f)),
     w_av_insert = (\<lambda>_ _ f. ((1, 7), f)),
     w_av_remove = (\<lambda>_ _ f. (0, f)),
     w_heartbeat = (\<lambda>c f. sf_heartbeat f c),
     w_set_heartbeat = (\<lambda>c v f. f\<lparr>sf_heartbeat := (sf_heartbeat f)(c := v)\<rparr>),
     w_now = (\<lambda>f. (sf_clock f, f\<lparr>sf_clock := sf_clock f + 1\<rparr>)),
     w_future = (\<lambda>_. Some),
     w_others = (\<lambda>p limit s. if p s \<or> limit \<noteq> None then Some s else None),
     w_callback = (\<lambda>_ _ _. Some)\<rparr>"

text \<open>One communicator, number 7, connected over the inter-node endpoint as rank 3 of its peer.\<close>

definition sample_comm :: comm where
  "sample_comm = (comm_new Peer 7 0)\<lparr>cm_rank_self_in_peer := 3, cm_is_ready := READY\<rparr>"

definition sample_info :: fi_info where
  "sample_info = \<lparr>fi_prov_name = ''tcp'', fi_iov_limit = 4, fi_inject_size = 64, fi_tx_caps = 0, fi_rx_caps = 0\<rparr>"

definition sample_lfi :: "sample lfi" where
  "sample_lfi =
     upd_ep Peer (\<lambda>x. x\<lparr>ep_info := Some sample_info, ep_ep := 10, ep_rx := 11, ep_tx := 12, ep_cq := 13,
                        ep_enable := True\<rparr>)
       (set_comm 7 sample_comm (lfi_new env_default sample0))"

lemmas sample_simps =
  sample_lfi_def sample_comm_def sample_info_def sample0_def sample_world_def lfi_new_def endpoint_new_def
  comm_new_def env_default_def upd_ep_def set_comm_def the_comm_def upd_comm_def ep_of_def

end
