(* ===== verification/Socket.thy ===== *)
theory Socket
  imports Sample_World "HOL-Library.Signed_Division"
begin

text \<open>
  \<open>src/impl/socket.cpp\<close> and \<open>include/impl/ns.hpp\<close>: the TCP sockets over which two processes exchange what
  they need to become a communicator. The calls of the operating system are the fields of \<open>os\<close>, over
  the same outside state \<open>'f\<close> as the calls of libfabric. A loop that goes on for ever is \<open>None\<close>.
\<close>

subsection \<open>The operating system\<close>

text \<open>The port of a socket address is kept in host order: \<open>ntohs\<close> undoes \<open>htons\<close>.\<close>

record sockaddr =
  sa_addr :: u32
  sa_port :: "16 word"

text \<open>
  \<open>os_send fd bs\<close> offers the bytes \<open>bs\<close>; \<open>os_recv fd n\<close> has room for \<open>n\<close> bytes and returns those it
  wrote. \<open>os_getsockname\<close> is \<open>None\<close> when it fails and leaves the buffer as it was. \<open>os_poll\<close> waits for
  input on one descriptor and returns its result and whether \<open>POLLIN\<close> is set. \<open>os_inet_pton\<close> is
  \<open>None\<close> for a text that is no IPv4 address.
\<close>

record 'f os =
  os_socket :: "'f \<Rightarrow> int \<times> 'f"
  os_setsockopt :: "int \<Rightarrow> string \<Rightarrow> int \<Rightarrow> 'f \<Rightarrow> int \<times> 'f"
  os_close :: "int \<Rightarrow> 'f \<Rightarrow> int \<times> 'f"
  os_inet_pton :: "string \<Rightarrow> u32 option"
  os_inet_ntop :: "u32 \<Rightarrow> string"
  os_bind :: "int \<Rightarrow> sockaddr \<Rightarrow> 'f \<Rightarrow> int \<times> 'f"
  os_listen :: "int \<Rightarrow> int \<Rightarrow> 'f \<Rightarrow> int \<times> 'f"
  os_getsockname :: "int \<Rightarrow> 'f \<Rightarrow> sockaddr option \<times> 'f"
  os_connect :: "int \<Rightarrow> sockaddr \<Rightarrow> 'f \<Rightarrow> int \<times> 'f"
  os_getaddrinfo :: "string \<Rightarrow> string option \<Rightarrow> 'f \<Rightarrow> (int \<times> sockaddr list) \<times> 'f"
  os_freeaddrinfo :: "sockaddr list \<Rightarrow> 'f \<Rightarrow> 'f"
  os_gethostname :: "'f \<Rightarrow> string option"
  os_poll :: "int \<Rightarrow> int \<Rightarrow> 'f \<Rightarrow> (int \<times> bool) \<times> 'f"
  os_accept :: "int \<Rightarrow> 'f \<Rightarrow> int \<times> 'f"
  os_errno :: "'f \<Rightarrow> int"
  os_send :: "int \<Rightarrow> u8 list \<Rightarrow> 'f \<Rightarrow> int \<times> 'f"
  os_recv :: "int \<Rightarrow> nat \<Rightarrow> 'f \<Rightarrow> (int \<times> u8 list) \<times> 'f"
  os_clock :: "'f \<Rightarrow> int \<times> 'f"
  os_sleep :: "int \<Rightarrow> 'f \<Rightarrow> 'f"
  os_heartbeat_addr :: u64   \<comment> \<open>address of \<open>m_local_heartbeat\<close>\<close>
  os_buf_addr :: u64         \<comment> \<open>address of a local variable of the connection code\<close>

definition EINTR :: int where "EINTR = 4"
definition EAGAIN :: int where "EAGAIN = 11"

subsection \<open>Opening, binding, connecting\<close>

definition sock_close :: "'f os \<Rightarrow> int \<Rightarrow> 'f \<Rightarrow> int \<times> 'f" where
  "sock_close os fd = os_close os fd"

text \<open>Close on an error and return the error.\<close>

definition close_with :: "'f os \<Rightarrow> int \<Rightarrow> int \<Rightarrow> 'f \<Rightarrow> int \<times> 'f" where
  "close_with os fd ret f = (let (_, f1) = sock_close os fd f in (ret, f1))"

definition sock_open :: "'f os \<Rightarrow> 'f \<Rightarrow> int \<times> 'f" where
  "sock_open os f =
     (let (out_socket, f1) = os_socket os f
      in if out_socket < 0 then (out_socket, f1)
         else let (ret, f2) = os_setsockopt os out_socket ''TCP_NODELAY'' 1 f1
         in if ret < 0 then close_with os out_socket ret f2
            else let (ret2, f3) = os_setsockopt os out_socket ''SO_REUSEADDR'' 1 f2
            in if ret2 < 0 then close_with os out_socket ret2 f3 else (out_socket, f3))"

text \<open>The result and the value of the reference parameter \<open>port\<close>. An address that does not convert
  returns without closing the socket.\<close>

definition bind_addr :: "'f os \<Rightarrow> string \<Rightarrow> u32 option" where
  "bind_addr os addr = (if addr \<noteq> '''' then os_inet_pton os addr else Some 0)"

definition server_init :: "'f os \<Rightarrow> string \<Rightarrow> int \<Rightarrow> 'f \<Rightarrow> (int \<times> int) \<times> 'f" where
  "server_init os addr port f =
     (let (socket, f1) = sock_open os f
      in if socket < 0 then ((socket, port), f1)
         else case bind_addr os addr of
           None \<Rightarrow> ((-1, port), f1)
         | Some a \<Rightarrow>
             let server_addr = \<lparr>sa_addr = a, sa_port = word_of_int port\<rparr>;
                 (ret, f2) = os_bind os socket server_addr f1
             in if ret < 0 then (let (r, f3) = close_with os socket ret f2 in ((r, port), f3))
                else let (ret2, f3) = os_listen os socket 1024 f2
                in if ret2 < 0 then (let (r, f4) = close_with os socket ret2 f3 in ((r, port), f4))
                   else let (name, f4) = os_getsockname os socket f3
                   in ((socket, uint (sa_port (case name of Some n \<Rightarrow> n | None \<Rightarrow> server_addr))), f4))"

partial_function (option) retry_connect_loop ::
  "'f os \<Rightarrow> int \<Rightarrow> sockaddr \<Rightarrow> int \<Rightarrow> int \<Rightarrow> int \<Rightarrow> 'f \<Rightarrow> (int \<times> 'f) option" where
  "retry_connect_loop os fd addr timeout_ms pause start f =
     (let (ret, f1) = os_connect os fd addr f
      in if ret < 0 then
           let (now, f2) = os_clock os f1
           in if ms_of_ns (now - start) > timeout_ms then Some (ret, f2)
              else retry_connect_loop os fd addr timeout_ms pause start (os_sleep os pause f2)
         else Some (ret, f1))"

definition retry_connect :: "'f os \<Rightarrow> int \<Rightarrow> sockaddr \<Rightarrow> int \<Rightarrow> int \<Rightarrow> 'f \<Rightarrow> (int \<times> 'f) option" where
  "retry_connect os fd addr timeout_ms time_to_sleep_ms f =
     (let (start, f1) = os_clock os f in retry_connect_loop os fd addr timeout_ms time_to_sleep_ms start f1)"

text \<open>The loop over the addresses: \<open>Inl\<close> is the early return when a socket cannot be opened, \<open>Inr\<close> the
  values of \<open>socket\<close> and \<open>ret\<close> after the loop.\<close>

fun connect_any ::
  "'f os \<Rightarrow> int \<Rightarrow> sockaddr list \<Rightarrow> int \<Rightarrow> int \<Rightarrow> 'f \<Rightarrow> ((int + int \<times> int) \<times> 'f) option" where
  "connect_any os timeout_ms [] socket ret f = Some (Inr (socket, ret), f)"
| "connect_any os timeout_ms (p # ps) _ _ f =
     (let (socket, f1) = sock_open os f
      in if socket < 0 then Some (Inl socket, f1)
         else do { (ret, f2) \<leftarrow> retry_connect os socket p timeout_ms (timeout_ms sdiv 10) f1;
                   if ret = -1 then connect_any os timeout_ms ps socket ret (snd (sock_close os socket f2))
                   else Some (Inr (socket, ret), f2) })"

definition client_by_name :: "'f os \<Rightarrow> string \<Rightarrow> int \<Rightarrow> int \<Rightarrow> 'f \<Rightarrow> (int \<times> 'f) option" where
  "client_by_name os addr port timeout_ms f =
     (let ((status, res), f1) = os_getaddrinfo os addr (Some (dec_of_int port)) f
      in if status \<noteq> 0 then Some (-1, f1)
         else do { (out, f2) \<leftarrow> connect_any os timeout_ms res (-1) (-1) f1;
                   case out of
                     Inl socket \<Rightarrow> Some (socket, f2)
                   | Inr (socket, ret) \<Rightarrow> Some (if ret = -1 then -1 else socket, os_freeaddrinfo os res f2) })"

definition client_by_ip :: "'f os \<Rightarrow> string \<Rightarrow> int \<Rightarrow> 'f \<Rightarrow> int \<times> 'f" where
  "client_by_ip os addr port f =
     (case os_inet_pton os addr of
        None \<Rightarrow> (-1, f)
      | Some a \<Rightarrow>
          let (socket, f1) = sock_open os f
          in if socket < 0 then (socket, f1)
             else let (ret, f2) = os_connect os socket \<lparr>sa_addr = a, sa_port = word_of_int port\<rparr> f1
             in if ret = -1 then close_with os socket (-1) f2 else (socket, f2))"

definition client_init :: "'f os \<Rightarrow> string \<Rightarrow> int \<Rightarrow> int \<Rightarrow> bool \<Rightarrow> 'f \<Rightarrow> (int \<times> 'f) option" where
  "client_init os addr port timeout_ms is_ip f =
     (if \<not> is_ip then client_by_name os addr port timeout_ms f else Some (client_by_ip os addr port f))"

subsection \<open>Accepting\<close>

partial_function (option) accept_loop :: "'f os \<Rightarrow> int \<Rightarrow> int \<Rightarrow> int \<Rightarrow> 'f \<Rightarrow> (int \<times> 'f) option" where
  "accept_loop os fd current_timeout_ms start f =
     (if current_timeout_ms > 0 then
        let ((ret, pollin), f1) = os_poll os fd current_timeout_ms f
        in if ret < 0 then
             (if os_errno os f1 = EINTR then
                let (now, f2) = os_clock os f1;
                    left = i32 (current_timeout_ms - ms_of_ns (now - start))
                in if left \<le> 0 then Some (-1, f2) else accept_loop os fd left start f2
              else Some (-1, f1))
           else if ret = 0 then Some (-1, f1)
           else if pollin then Some (os_accept os fd f1)
           else Some (-1, f1)
      else Some (-1, f))"

definition accept_timeout :: "'f os \<Rightarrow> int \<Rightarrow> int \<Rightarrow> 'f \<Rightarrow> (int \<times> 'f) option" where
  "accept_timeout os fd timeout_ms f =
     (if timeout_ms = 0 then Some (os_accept os fd f)
      else let (start, f1) = os_clock os f in accept_loop os fd timeout_ms start f1)"

definition sock_accept :: "'f os \<Rightarrow> int \<Rightarrow> int \<Rightarrow> 'f \<Rightarrow> (int \<times> 'f) option" where
  "sock_accept os fd timeout_ms f =
     do { (new_socket, f1) \<leftarrow> accept_timeout os fd timeout_ms f;
          if new_socket < 0 then Some (-1, f1)
          else let (ret, f2) = os_setsockopt os new_socket ''TCP_NODELAY'' 1 f1
          in Some (if ret < 0 then close_with os new_socket (-1) f2 else (new_socket, f2)) }"

subsection \<open>Sending and receiving\<close>

text \<open>\<open>int l = len\<close> narrows the length, and the \<open>size_t\<close> the system call gets is the sign extension of
  \<open>l\<close>. Using more bytes than the buffer has is undefined (\<open>None\<close>).\<close>

definition call_len :: "int \<Rightarrow> nat" where
  "call_len l = nat (l mod 2 ^ 64)"

partial_function (option) send_loop :: "'f os \<Rightarrow> int \<Rightarrow> u8 list \<Rightarrow> int \<Rightarrow> 'f \<Rightarrow> (int \<times> 'f) option" where
  "send_loop os fd buffer l f =
     (if length buffer < call_len l then None
      else let (r0, f1) = os_send os fd (take (call_len l) buffer) f;
               r = i32 r0
      in if r < 0 then Some (r, f1)
         else if l - r > 0 then send_loop os fd (drop (nat r) buffer) (l - r) f1
         else Some (0, f1))"

definition sock_send :: "'f os \<Rightarrow> int \<Rightarrow> u8 list \<Rightarrow> 'f \<Rightarrow> (int \<times> 'f) option" where
  "sock_send os fd data f =
     do { (r, f1) \<leftarrow> send_loop os fd data (i32 (int (length data))) f;
          Some (if r < 0 then r else int (length data), f1) }"

text \<open>The buffer is what has been filled so far and the rest, with what it held before.\<close>

partial_function (option) recv_loop ::
  "'f os \<Rightarrow> int \<Rightarrow> u8 list \<Rightarrow> u8 list \<Rightarrow> int \<Rightarrow> 'f \<Rightarrow> ((int \<times> u8 list) \<times> 'f) option" where
  "recv_loop os fd filled buffer l f =
     (if length buffer < call_len l then None
      else let ((r0, bs), f1) = os_recv os fd (call_len l) f;
               r = i32 r0
      in if r < 0 then Some ((r, filled @ buffer), f1)
         else if l - r > 0 then recv_loop os fd (filled @ bs) (drop (nat r) buffer) (l - r) f1
         else Some ((0, filled @ bs @ drop (nat r) buffer), f1))"

definition sock_recv :: "'f os \<Rightarrow> int \<Rightarrow> u8 list \<Rightarrow> 'f \<Rightarrow> ((int \<times> u8 list) \<times> 'f) option" where
  "sock_recv os fd old f =
     do { ((r, data), f1) \<leftarrow> recv_loop os fd [] old (i32 (int (length old))) f;
          Some ((if r < 0 then r else int (length old), data), f1) }"

subsection \<open>Values as bytes\<close>

text \<open>Unsigned integers as they lie in the memory of a little endian machine.\<close>

definition le_bytes :: "nat \<Rightarrow> 'a::len word \<Rightarrow> u8 list" where
  "le_bytes n v = map (\<lambda>i. ucast (drop_bit (8 * i) v)) [0..<n]"

definition le_word :: "u8 list \<Rightarrow> 'a::len word" where
  "le_word bs = foldr (\<lambda>b v. push_bit 8 v OR ucast b) bs 0"

definition bytes_of_str :: "string \<Rightarrow> u8 list" where
  "bytes_of_str s = map (\<lambda>c. word_of_nat (of_char c)) s"

definition str_of_bytes :: "u8 list \<Rightarrow> string" where
  "str_of_bytes bs = map (\<lambda>b. char_of (unat b)) bs"

subsection \<open>Strings\<close>

partial_function (option) send_again :: "'f os \<Rightarrow> int \<Rightarrow> u8 list \<Rightarrow> 'f \<Rightarrow> (int \<times> 'f) option" where
  "send_again os fd data f =
     do { (ret, f1) \<leftarrow> sock_send os fd data f;
          if ret < 0 \<and> os_errno os f1 = EAGAIN then send_again os fd data f1 else Some (ret, f1) }"

definition send_str :: "'f os \<Rightarrow> int \<Rightarrow> string \<Rightarrow> 'f \<Rightarrow> (int \<times> 'f) option" where
  "send_str os fd str f =
     do { (ret, f1) \<leftarrow> send_again os fd (le_bytes 8 (word_of_nat (length str) :: u64)) f;
          if ret \<noteq> 8 then Some (ret, f1)
          else if length str = 0 then Some (0, f1)
          else send_again os fd (bytes_of_str str) f1 }"

partial_function (option) recv_again ::
  "'f os \<Rightarrow> int \<Rightarrow> u8 list \<Rightarrow> 'f \<Rightarrow> ((int \<times> u8 list) \<times> 'f) option" where
  "recv_again os fd old f =
     do { ((ret, data), f1) \<leftarrow> sock_recv os fd old f;
          if ret < 0 \<and> os_errno os f1 = EAGAIN then recv_again os fd data f1 else Some ((ret, data), f1) }"

text \<open>\<open>resize\<close> beyond \<open>max_size()\<close> throws.\<close>

definition max_size :: nat where
  "max_size = 2 ^ 63 - 1"

text \<open>The parameter \<open>str\<close> is a reference: its new value is part of the result.\<close>

definition recv_str :: "'f os \<Rightarrow> int \<Rightarrow> string \<Rightarrow> 'f \<Rightarrow> ((int \<times> string) \<times> 'f) option" where
  "recv_str os fd str f =
     do { ((ret, size), f1) \<leftarrow> recv_again os fd (replicate 8 0) f;
          if ret \<noteq> 8 then Some ((ret, str), f1)
          else do {
            let size_str = unat (le_word size :: u64);
            if size_str = 0 then Some ((0, str), f1)
            else if max_size < size_str then None
            else do { ((ret2, data), f2) \<leftarrow> recv_again os fd (replicate size_str 0) f1;
                      Some ((ret2, str_of_bytes data), f2) } } }"

subsection \<open>Names\<close>

definition get_host_name :: "'f os \<Rightarrow> 'f \<Rightarrow> string" where
  "get_host_name os f = (case os_gethostname os f of Some n \<Rightarrow> n | None \<Rightarrow> '''')"

text \<open>\<open>getaddrinfo\<close> that succeeds with no address would be a null dereference.\<close>

definition get_host_ip :: "'f os \<Rightarrow> string \<Rightarrow> 'f \<Rightarrow> (string \<times> 'f) option" where
  "get_host_ip os hostname f =
     (let name = (if hostname = '''' then get_host_name os f else hostname);
          ((status, res), f1) = os_getaddrinfo os name None f
      in if status \<noteq> 0 then Some ('''', f1)
         else case res of
           [] \<Rightarrow> None
         | a # _ \<Rightarrow> Some (os_inet_ntop os (sa_addr a), os_freeaddrinfo os res f1))"

subsection \<open>A sample operating system\<close>

text \<open>For evaluation: at most three bytes per call, connections are accepted from the fiftieth
  millisecond on, and only one text is an address.\<close>

definition sf_socket :: "sample \<Rightarrow> int \<times> sample" where
  "sf_socket f = (int (sf_next f), f\<lparr>sf_next := sf_next f + 1, sf_socks := int (sf_next f) # sf_socks f\<rparr>)"

definition sample_os :: "sample os" where
  "sample_os =
    \<lparr>os_socket = sf_socket, os_setsockopt = (\<lambda>_ _ _ f. (0, f)),
     os_close = (\<lambda>fd f. (0, f\<lparr>sf_socks := removeAll fd (sf_socks f)\<rparr>)),
     os_inet_pton = (\<lambda>s. if s = ''10.0.0.1'' then Some 167772161 else None), os_inet_ntop = (\<lambda>_. ''10.0.0.1''),
     os_bind = (\<lambda>_ _ f. (0, f)), os_listen = (\<lambda>_ _ f. (0, f)),
     os_getsockname = (\<lambda>_ f. (Some \<lparr>sa_addr = 0, sa_port = 40000\<rparr>, f)),
     os_connect = (\<lambda>_ _ f. (if sf_clock f < 50000000 then -1 else 0, f\<lparr>sf_tries := Suc (sf_tries f)\<rparr>)),
     os_getaddrinfo = (\<lambda>_ _ f. ((0, [\<lparr>sa_addr = 167772161, sa_port = 40000\<rparr>]), f)), os_freeaddrinfo = (\<lambda>_ f. f),
     os_gethostname = (\<lambda>_. Some ''node''), os_poll = (\<lambda>_ _ f. ((1, True), f)), os_accept = (\<lambda>_. sf_socket),
     os_errno = (\<lambda>_. 0),
     os_send = (\<lambda>_ bs f. (int (min 3 (length bs)), f\<lparr>sf_out := sf_out f @ take 3 bs\<rparr>)),
     os_recv = (\<lambda>_ n f. ((int (min (min 3 n) (length (sf_in f))), take (min 3 n) (sf_in f)), f\<lparr>sf_in := drop (min 3 n) (sf_in f)\<rparr>)),
     os_clock = (\<lambda>f. (sf_clock f, f\<lparr>sf_clock := sf_clock f + 1\<rparr>)),
     os_sleep = (\<lambda>p f. f\<lparr>sf_clock := sf_clock f + max 0 p * 1000000\<rparr>),
     os_heartbeat_addr = 4096, os_buf_addr = 8192\<rparr>"

subsection \<open>A connection that works\<close>

text \<open>
  Blocking stream sockets as POSIX describes them, for a connection that does not break: \<open>out\<close> is what
  has been handed over to the other side so far, \<open>inp\<close> what has arrived or will arrive and has not been
  read. A \<open>send\<close> accepts at least one byte and not more than it was offered; a \<open>recv\<close> returns at least
  one byte when there is one, and not more than there is room for.
\<close>

definition stream :: "'f os \<Rightarrow> int \<Rightarrow> ('f \<Rightarrow> u8 list) \<Rightarrow> ('f \<Rightarrow> u8 list) \<Rightarrow> bool" where
  "stream os fd inp out \<longleftrightarrow>
     (\<forall>bs f. \<exists>n f'. os_send os fd bs f = (int n, f') \<and> n \<le> length bs \<and> (bs = [] \<or> 0 < n) \<and>
        out f' = out f @ take n bs \<and> inp f' = inp f) \<and>
     (\<forall>k f. \<exists>n f'. os_recv os fd k f = ((int n, take n (inp f)), f') \<and> n \<le> k \<and> n \<le> length (inp f) \<and>
        (k = 0 \<or> inp f = [] \<or> 0 < n) \<and> inp f' = drop n (inp f) \<and> out f' = out f)"

lemma stream_send:
  assumes "stream os fd inp out"
  obtains n f' where "os_send os fd bs f = (int n, f')" "n \<le> length bs" "bs = [] \<or> 0 < n"
    "out f' = out f @ take n bs" "inp f' = inp f"
proof -
  have "\<exists>n f'. os_send os fd bs f = (int n, f') \<and> n \<le> length bs \<and> (bs = [] \<or> 0 < n) \<and>
      out f' = out f @ take n bs \<and> inp f' = inp f"
    using assms by (simp only: stream_def)
  then show ?thesis using that by blast
qed

lemma stream_recv:
  assumes "stream os fd inp out"
  obtains n f' where "os_recv os fd k f = ((int n, take n (inp f)), f')" "n \<le> k" "n \<le> length (inp f)"
    "k = 0 \<or> inp f = [] \<or> 0 < n" "inp f' = drop n (inp f)" "out f' = out f"
proof -
  have "\<exists>n f'. os_recv os fd k f = ((int n, take n (inp f)), f') \<and> n \<le> k \<and> n \<le> length (inp f) \<and>
      (k = 0 \<or> inp f = [] \<or> 0 < n) \<and> inp f' = drop n (inp f) \<and> out f' = out f"
    using assms by (simp only: stream_def)
  then show ?thesis using that by blast
qed

lemma call_len_nat: "n < 2 ^ 31 \<Longrightarrow> call_len (int n) = n"
  by (simp add: call_len_def)

lemma send_loop_all:
  assumes "stream os fd inp out" and "length data < 2 ^ 31"
  shows "\<exists>f'. send_loop os fd data (int (length data)) f = Some (0, f') \<and> out f' = out f @ data \<and> inp f' = inp f"
  using assms(2)
proof (induction "length data" arbitrary: data f rule: less_induct)
  case less
  obtain n f1 where n: "os_send os fd data f = (int n, f1)" "n \<le> length data" "data = [] \<or> 0 < n"
    "out f1 = out f @ take n data" "inp f1 = inp f" by (rule stream_send [OF assms(1), of data f])
  have r: "i32 (int n) = int n" using n(2) less.prems by (intro i32_small) simp_all
  note step = send_loop.simps [of os fd data "int (length data)" f]
  show ?case
  proof (cases "n < length data")
    case True
    then have shorter: "length (drop n data) < length data" using n(3) by (cases data) auto
    obtain f2 where "send_loop os fd (drop n data) (int (length (drop n data))) f1 = Some (0, f2)"
      "out f2 = out f1 @ drop n data" "inp f2 = inp f1"
      using less.hyps [OF shorter, of f1] shorter less.prems by auto
    then show ?thesis using step n r True less.prems by (simp add: call_len_nat of_nat_diff)
  next
    case False
    then show ?thesis using step n r less.prems by (simp add: call_len_nat)
  qed
qed

lemma sock_send_all:
  assumes "stream os fd inp out" and "length data < 2 ^ 31"
  obtains f' where "sock_send os fd data f = Some (int (length data), f')" "out f' = out f @ data" "inp f' = inp f"
proof -
  have "i32 (int (length data)) = int (length data)" using assms(2) by (intro i32_small) simp_all
  then show ?thesis using that send_loop_all [OF assms, of f] by (auto simp: sock_send_def)
qed

lemma recv_loop_all:
  assumes "stream os fd inp out" and "length buffer < 2 ^ 31" and "length buffer \<le> length (inp f)"
  shows "\<exists>f'. recv_loop os fd filled buffer (int (length buffer)) f =
       Some ((0, filled @ take (length buffer) (inp f)), f') \<and>
     inp f' = drop (length buffer) (inp f) \<and> out f' = out f"
  using assms(2,3)
proof (induction "length buffer" arbitrary: buffer filled f rule: less_induct)
  case less
  obtain n f1 where n: "os_recv os fd (length buffer) f = ((int n, take n (inp f)), f1)" "n \<le> length buffer"
    "n \<le> length (inp f)" "length buffer = 0 \<or> inp f = [] \<or> 0 < n" "inp f1 = drop n (inp f)" "out f1 = out f"
    by (rule stream_recv [OF assms(1), of "length buffer" f])
  have r: "i32 (int n) = int n" using n(2) less.prems by (intro i32_small) simp_all
  note step = recv_loop.simps [of os fd filled buffer "int (length buffer)" f]
  show ?case
  proof (cases "n < length buffer")
    case True
    then have "inp f \<noteq> []" using less.prems by auto
    then have shorter: "length (drop n buffer) < length buffer" using n(4) True by (cases buffer) auto
    have room: "length (drop n buffer) < 2 ^ 31" "length (drop n buffer) \<le> length (inp f1)"
      using less.prems n(5) by auto
    obtain f2 where f2: "recv_loop os fd (filled @ take n (inp f)) (drop n buffer) (int (length (drop n buffer))) f1 =
        Some ((0, (filled @ take n (inp f)) @ take (length (drop n buffer)) (inp f1)), f2)"
      "inp f2 = drop (length (drop n buffer)) (inp f1)" "out f2 = out f1"
      using less.hyps [OF shorter room] by blast
    have "take n (inp f) @ take (length (drop n buffer)) (inp f1) = take (length buffer) (inp f)"
      using n(5) True by (simp add: take_add [symmetric])
    moreover have "drop (length (drop n buffer)) (inp f1) = drop (length buffer) (inp f)" using n(5) True by simp
    moreover have "int (length buffer) - int n = int (length (drop n buffer))" using True by simp
    ultimately show ?thesis using step n(1,6) r True less.prems(1) f2 by (simp add: call_len_nat)
  next
    case False
    then show ?thesis using step n r less.prems by (simp add: call_len_nat)
  qed
qed

lemma sock_recv_all:
  assumes "stream os fd inp out" and "inp f = bs @ rest" and "length old = length bs" and "length bs < 2 ^ 31"
  obtains f' where "sock_recv os fd old f = Some ((int (length bs), bs), f')" "inp f' = rest" "out f' = out f"
proof -
  have "i32 (int (length old)) = int (length old)" using assms(3,4) by (intro i32_small) simp_all
  then show ?thesis using that recv_loop_all [OF assms(1), of old f "[]"] assms(2-4) by (auto simp: sock_recv_def)
qed

subsection \<open>Bytes and back\<close>

lemma length_le_bytes [simp]: "length (le_bytes n v) = n"
  by (simp add: le_bytes_def)

lemma le_bytes_Suc: "le_bytes (Suc n) v = ucast v # le_bytes n (drop_bit 8 v)"
  by (simp add: le_bytes_def upt_conv_Cons map_Suc_upt [symmetric] comp_def drop_bit_drop_bit ac_simps del: upt_Suc)

lemma le_word_bytes: "le_word (le_bytes n v) = take_bit (8 * n) (v :: 'a::len word)"
proof (induction n arbitrary: v)
  case 0
  then show ?case by (simp add: le_bytes_def le_word_def)
next
  case (Suc n)
  have "le_word (le_bytes (Suc n) v) = push_bit 8 (take_bit (8 * n) (drop_bit 8 v)) OR ucast (ucast v :: u8)"
    using Suc [of "drop_bit 8 v"] by (simp add: le_bytes_Suc le_word_def)
  also have "\<dots> = take_bit (8 * Suc n) v"
    by (rule bit_word_eqI) (auto simp: bit_simps)
  finally show ?case .
qed

lemma le_word_64 [simp]: "le_word (le_bytes 8 v) = (v :: u64)"
  by (simp add: le_word_bytes take_bit_word_eq_self)

lemma le_word_32 [simp]: "le_word (le_bytes 4 v) = (v :: u32)"
  by (simp add: le_word_bytes take_bit_word_eq_self)

lemma str_of_bytes_of_str [simp]: "str_of_bytes (bytes_of_str s) = s"
proof -
  have "char_of (unat (word_of_nat (of_char c) :: u8)) = c" for c
    by (simp add: unat_of_nat char_of_take_bit_eq)
  then show ?thesis by (simp add: str_of_bytes_def bytes_of_str_def comp_def)
qed

lemma length_bytes_of_str [simp]: "length (bytes_of_str s) = length s"
  by (simp add: bytes_of_str_def)

subsection \<open>Strings over a connection\<close>

lemma send_again_all:
  assumes "stream os fd inp out" and "length data < 2 ^ 31"
  obtains f' where "send_again os fd data f = Some (int (length data), f')" "out f' = out f @ data" "inp f' = inp f"
proof -
  obtain f' where f': "sock_send os fd data f = Some (int (length data), f')" "out f' = out f @ data" "inp f' = inp f"
    by (rule sock_send_all [OF assms])
  then show ?thesis using that send_again.simps [of os fd data f] by simp
qed

lemma recv_again_all:
  assumes "stream os fd inp out" and "inp f = bs @ rest" and "length old = length bs" and "length bs < 2 ^ 31"
  obtains f' where "recv_again os fd old f = Some ((int (length bs), bs), f')" "inp f' = rest" "out f' = out f"
proof -
  obtain f' where f': "sock_recv os fd old f = Some ((int (length bs), bs), f')" "inp f' = rest" "out f' = out f"
    by (rule sock_recv_all [OF assms])
  then show ?thesis using that recv_again.simps [of os fd old f] by simp
qed

definition str_message :: "string \<Rightarrow> u8 list" where
  "str_message str = le_bytes 8 (word_of_nat (length str) :: u64) @ bytes_of_str str"

lemma send_str_message:
  assumes "stream os fd inp out" and "length str < 2 ^ 31"
  obtains f' where "send_str os fd str f = Some (int (length str), f')" "out f' = out f @ str_message str" "inp f' = inp f"
proof -
  let ?size = "le_bytes 8 (word_of_nat (length str) :: u64)"
  have "length ?size < 2 ^ 31" by simp
  then obtain f1 where f1: "send_again os fd ?size f = Some (int (length ?size), f1)" "out f1 = out f @ ?size" "inp f1 = inp f"
    by (rule send_again_all [OF assms(1)])
  have "length (bytes_of_str str) < 2 ^ 31" using assms(2) by simp
  then obtain f2 where f2: "send_again os fd (bytes_of_str str) f1 = Some (int (length (bytes_of_str str)), f2)"
    "out f2 = out f1 @ bytes_of_str str" "inp f2 = inp f1"
    by (rule send_again_all [OF assms(1)])
  show ?thesis
  proof (cases "str = []")
    case True
    then show ?thesis using that [of f1] f1 by (simp add: send_str_def str_message_def bytes_of_str_def)
  next
    case False
    then show ?thesis using that [of f2] f1 f2 by (simp add: send_str_def str_message_def)
  qed
qed

lemma recv_str_message:
  assumes "stream os fd inp out" and "length str < 2 ^ 31" and "inp f = str_message str @ rest"
  obtains f' where "recv_str os fd old f = Some ((int (length str), if str = '''' then old else str), f')"
    "inp f' = rest" "out f' = out f"
proof -
  let ?size = "le_bytes 8 (word_of_nat (length str) :: u64)"
  have n: "unat (word_of_nat (length str) :: u64) = length str"
    using assms(2) by (simp add: unat_of_nat take_bit_nat_eq_self)
  have eight: "length (replicate 8 (0 :: u8)) = length ?size" "length ?size < 2 ^ 31"
    by (simp_all only: length_replicate length_le_bytes) simp
  have "inp f = ?size @ bytes_of_str str @ rest" using assms(3) by (simp add: str_message_def)
  then obtain f1 where f1: "recv_again os fd (replicate 8 0) f = Some ((int (length ?size), ?size), f1)"
    "inp f1 = bytes_of_str str @ rest" "out f1 = out f"
    using recv_again_all [OF assms(1) _ eight(1,2)] by blast
  show ?thesis
  proof (cases "str = []")
    case True
    then show ?thesis using that [of f1] f1 by (simp add: recv_str_def bytes_of_str_def)
  next
    case False
    have body: "length (replicate (length str) (0 :: u8)) = length (bytes_of_str str)" "length (bytes_of_str str) < 2 ^ 31"
      using assms(2) by simp_all
    obtain f2 where f2: "recv_again os fd (replicate (length str) 0) f1 =
        Some ((int (length (bytes_of_str str)), bytes_of_str str), f2)" "inp f2 = rest" "out f2 = out f1"
      using recv_again_all [OF assms(1) f1(2) body] by blast
    have small: "\<not> max_size < length str" using assms(2) by (simp add: max_size_def)
    show ?thesis using that [of f2] f1 f2 n False small by (simp add: recv_str_def)
  qed
qed

text \<open>C18. A string sent over a working connection arrives. \<open>send_str\<close> returns the length of the string
  and hands over its length and its characters; \<open>recv_str\<close> on a connection where these bytes arrive
  returns the same length and the same string and leaves what follows unread. Only an empty string
  does not: \<open>recv_str\<close> then keeps what its parameter held before.\<close>

theorem str_round_trip:
  assumes "stream os fd inp out" and "stream os' fd' inp' out'" and "length str < 2 ^ 31"
    and "inp' g = str_message str @ rest"
  shows "\<exists>f' g'. send_str os fd str f = Some (int (length str), f') \<and> out f' = out f @ str_message str \<and>
     recv_str os' fd' old g = Some ((int (length str), if str = '''' then old else str), g') \<and> inp' g' = rest"
proof -
  obtain f' where "send_str os fd str f = Some (int (length str), f')" "out f' = out f @ str_message str" "inp f' = inp f"
    by (rule send_str_message [OF assms(1,3)])
  moreover obtain g' where "recv_str os' fd' old g = Some ((int (length str), if str = '''' then old else str), g')"
    "inp' g' = rest" "out' g' = out' g"
    by (rule recv_str_message [OF assms(2-4)])
  ultimately show ?thesis by blast
qed

lemma sample_stream: "stream sample_os fd sf_in sf_out"
proof -
  have "\<exists>n f'. os_send sample_os fd bs f = (int n, f') \<and> n \<le> length bs \<and> (bs = [] \<or> 0 < n) \<and>
      sf_out f' = sf_out f @ take n bs \<and> sf_in f' = sf_in f" for bs f
    by (rule exI [where x = "min 3 (length bs)"]) (auto simp: sample_os_def min_def)
  moreover have "\<exists>n f'. os_recv sample_os fd k f = ((int n, take n (sf_in f)), f') \<and> n \<le> k \<and> n \<le> length (sf_in f) \<and>
      (k = 0 \<or> sf_in f = [] \<or> 0 < n) \<and> sf_in f' = drop n (sf_in f) \<and> sf_out f' = sf_out f" for k f
    by (rule exI [where x = "min (min 3 k) (length (sf_in f))"]) (auto simp: sample_os_def min_def)
  ultimately show ?thesis by (simp add: stream_def)
qed

theorem str_round_trip_witness:
  "\<exists>f' g'. send_str sample_os 4 ''node'' sample0 = Some (4, f') \<and>
     recv_str sample_os 5 ''old'' (sample0\<lparr>sf_in := str_message ''node'' @ [9]\<rparr>) = Some ((4, ''node''), g') \<and> sf_in g' = [9]"
  using str_round_trip [OF sample_stream sample_stream, of "''node''" "sample0\<lparr>sf_in := str_message ''node'' @ [9]\<rparr>" "[9]" 4 sample0 5 "''old''"]
  by auto


subsection \<open>A connection that ends\<close>

text \<open>At the end of the stream \<open>recv\<close> returns 0, and does so from then on.\<close>

definition at_eof :: "'f os \<Rightarrow> int \<Rightarrow> ('f \<Rightarrow> bool) \<Rightarrow> bool" where
  "at_eof os fd ended \<longleftrightarrow> (\<forall>k f. ended f \<longrightarrow> (\<exists>f'. os_recv os fd k f = ((0, []), f') \<and> ended f'))"

lemma recv_loop_ended:
  assumes "recv_loop os fd filled buffer l f = Some res"
  shows "at_eof os fd ended \<longrightarrow> ended f \<longrightarrow> l < 0 \<or> l = 0"
proof (rule recv_loop.raw_induct [where P = "\<lambda>os fd filled buffer l f res. at_eof os fd ended \<longrightarrow> ended f \<longrightarrow> l < 0 \<or> l = 0",
    OF _ assms])
  fix loop :: "'a os \<Rightarrow> int \<Rightarrow> u8 list \<Rightarrow> u8 list \<Rightarrow> int \<Rightarrow> 'a \<Rightarrow> ((int \<times> u8 list) \<times> 'a) option"
    and os fd filled buffer l f res
  assume IH: "\<And>os fd filled buffer l f res. loop os fd filled buffer l f = Some res \<Longrightarrow>
      at_eof os fd ended \<longrightarrow> ended f \<longrightarrow> l < 0 \<or> l = 0"
    and body: "(if length buffer < call_len l then None
      else let ((r0, bs), f1) = os_recv os fd (call_len l) f; r = i32 r0
      in if r < 0 then Some ((r, filled @ buffer), f1)
         else if l - r > 0 then loop os fd (filled @ bs) (drop (nat r) buffer) (l - r) f1
         else Some ((0, filled @ bs @ drop (nat r) buffer), f1)) = Some res"
  show "at_eof os fd ended \<longrightarrow> ended f \<longrightarrow> l < 0 \<or> l = 0"
  proof (intro impI)
    assume eof: "at_eof os fd ended" and "ended f"
    then obtain f1 where f1: "os_recv os fd (call_len l) f = ((0, []), f1)" "ended f1" unfolding at_eof_def by blast
    have "i32 0 = 0" by (simp add: i32_def)
    then show "l < 0 \<or> l = 0" using body f1 IH [of os fd _ _ l f1 res] eof by (auto split: if_splits)
  qed
qed

text \<open>A peer that goes away hangs the process. When the peer closes the connection before it has sent
  everything, \<open>recv\<close> of the operating system returns 0, which \<open>socket::recv\<close> takes for a short read:
  it asks again for ever and never returns, whatever number of bytes is still missing.\<close>

theorem sock_recv_eof:
  assumes "at_eof os fd ended" and "ended f" and "0 < length old" and "length old < 2 ^ 31"
  shows "sock_recv os fd old f = None"
proof -
  have "i32 (int (length old)) = int (length old)" using assms(4) by (intro i32_small) simp_all
  then have "recv_loop os fd [] old (i32 (int (length old))) f = None"
    using recv_loop_ended [of os fd "[]" old "int (length old)" f _ ended] assms
    by (cases "recv_loop os fd [] old (int (length old)) f") auto
  then show ?thesis by (simp add: sock_recv_def)
qed

theorem sock_recv_eof_witness: "sock_recv sample_os 4 [0, 0] (sample0\<lparr>sf_in := []\<rparr>) = None"
proof -
  have "at_eof sample_os 4 (\<lambda>f. sf_in f = [])" by (simp add: at_eof_def sample_os_def)
  then show ?thesis by (rule sock_recv_eof) simp_all
qed


subsection \<open>Retrying a connection\<close>

text \<open>A clock that does not go back and that a sleep of \<open>p\<close> milliseconds advances by as much; \<open>tries\<close>
  counts the calls of \<open>connect\<close>.\<close>

definition timed :: "'f os \<Rightarrow> ('f \<Rightarrow> int) \<Rightarrow> ('f \<Rightarrow> nat) \<Rightarrow> bool" where
  "timed os clk tries \<longleftrightarrow>
     (\<forall>f. fst (os_clock os f) = clk f \<and> clk f \<le> clk (snd (os_clock os f)) \<and> tries (snd (os_clock os f)) = tries f) \<and>
     (\<forall>fd a f. clk f \<le> clk (snd (os_connect os fd a f)) \<and> tries (snd (os_connect os fd a f)) = Suc (tries f)) \<and>
     (\<forall>p f. clk f + p * 1000000 \<le> clk (os_sleep os p f) \<and> tries (os_sleep os p f) = tries f)"

lemma ms_of_ns_le: "0 \<le> n \<Longrightarrow> n * 1000000 \<le> x \<Longrightarrow> n \<le> ms_of_ns x"
  by (simp add: ms_of_ns_def)

lemma ms_of_ns_gt: "0 \<le> n \<Longrightarrow> n < ms_of_ns x \<Longrightarrow> n * 1000000 < x"
  by (simp add: ms_of_ns_def split: if_splits)

lemma retry_loop_bounded:
  assumes "timed os clk tries" and "0 < pause" and "0 \<le> T" and "T < int k * pause" and "m \<le> k"
    and "start + int (k - m) * pause * 1000000 \<le> clk f"
  shows "\<exists>r f'. retry_connect_loop os fd a T pause start f = Some (r, f') \<and> (r < 0 \<longrightarrow> start + T * 1000000 < clk f') \<and>
     tries f' \<le> tries f + m + 1"
  using assms(5,6)
proof (induction m arbitrary: f)
  case (0 f)
  obtain r f1 where f1: "os_connect os fd a f = (r, f1)" by fastforce
  obtain now f2 where f2: "os_clock os f1 = (now, f2)" by fastforce
  have c: "clk f \<le> clk f1" "tries f1 = Suc (tries f)" "now = clk f1" "clk f1 \<le> clk f2" "tries f2 = tries f1"
    using assms(1) f1 f2 unfolding timed_def by (metis fst_conv snd_conv)+
  have "int k * pause \<le> ms_of_ns (now - start)" using 0 c assms(2) by (intro ms_of_ns_le) simp_all
  then have late: "T < ms_of_ns (now - start)" using assms(4) by simp
  then have "T * 1000000 < now - start" by (rule ms_of_ns_gt [OF assms(3)])
  then show ?case using late retry_connect_loop.simps [of os fd a T pause start f] f1 f2 c by simp
next
  case (Suc m f)
  obtain r f1 where f1: "os_connect os fd a f = (r, f1)" by fastforce
  obtain now f2 where f2: "os_clock os f1 = (now, f2)" by fastforce
  have c: "clk f \<le> clk f1" "tries f1 = Suc (tries f)" "now = clk f1" "clk f1 \<le> clk f2" "tries f2 = tries f1"
    "clk f2 + pause * 1000000 \<le> clk (os_sleep os pause f2)" "tries (os_sleep os pause f2) = tries f2"
    using assms(1) f1 f2 unfolding timed_def by (metis fst_conv snd_conv)+
  have "int (k - m) * pause = int (k - Suc m) * pause + pause"
    using Suc.prems(1) by (simp add: of_nat_diff algebra_simps)
  then have "start + int (k - m) * pause * 1000000 \<le> clk (os_sleep os pause f2)"
    using Suc.prems(2) c by (simp add: algebra_simps)
  then obtain r' f' where "retry_connect_loop os fd a T pause start (os_sleep os pause f2) = Some (r', f')"
    "r' < 0 \<longrightarrow> start + T * 1000000 < clk f'" "tries f' \<le> tries (os_sleep os pause f2) + m + 1"
    using Suc.IH [of "os_sleep os pause f2"] Suc.prems(1) by auto
  moreover have "T < ms_of_ns (now - start) \<Longrightarrow> start + T * 1000000 < clk f2"
    using ms_of_ns_gt [OF assms(3)] c by fastforce
  ultimately show ?case using retry_connect_loop.simps [of os fd a T pause start f] f1 f2 c by auto
qed




subsection \<open>Descriptors\<close>

text \<open>\<open>fds\<close> is the set of open descriptors: \<open>socket\<close> and \<open>accept\<close> add a new one, \<open>close\<close> removes its
  argument, and no other call changes the set.\<close>

definition opens :: "('f \<Rightarrow> int set) \<Rightarrow> 'f \<Rightarrow> int \<times> 'f \<Rightarrow> bool" where
  "opens fds f res \<longleftrightarrow>
     (if fst res < 0 then fds (snd res) = fds f else fst res \<notin> fds f \<and> fds (snd res) = insert (fst res) (fds f))"

lemma opens_cong: "fds g = fds f \<Longrightarrow> opens fds g = opens fds f"
  by (simp add: opens_def fun_eq_iff)

lemma opens_failed: "r < 0 \<Longrightarrow> opens fds f (r, f') \<longleftrightarrow> fds f' = fds f"
  by (simp add: opens_def)

definition ledger :: "'f os \<Rightarrow> ('f \<Rightarrow> int set) \<Rightarrow> bool" where
  "ledger os fds \<longleftrightarrow>
     (\<forall>f. opens fds f (os_socket os f)) \<and> (\<forall>fd f. opens fds f (os_accept os fd f)) \<and>
     (\<forall>fd f. fds (snd (os_close os fd f)) = fds f - {fd}) \<and>
     (\<forall>fd n v f. fds (snd (os_setsockopt os fd n v f)) = fds f) \<and>
     (\<forall>fd a f. fds (snd (os_bind os fd a f)) = fds f) \<and> (\<forall>fd n f. fds (snd (os_listen os fd n f)) = fds f) \<and>
     (\<forall>fd f. fds (snd (os_getsockname os fd f)) = fds f) \<and> (\<forall>fd a f. fds (snd (os_connect os fd a f)) = fds f) \<and>
     (\<forall>n p f. fds (snd (os_getaddrinfo os n p f)) = fds f) \<and> (\<forall>l f. fds (os_freeaddrinfo os l f) = fds f) \<and>
     (\<forall>fd t f. fds (snd (os_poll os fd t f)) = fds f) \<and> (\<forall>f. fds (snd (os_clock os f)) = fds f) \<and>
     (\<forall>p f. fds (os_sleep os p f) = fds f)"

lemma ledger_keeps:
  assumes "ledger os fds"
  shows "os_setsockopt os fd n v f = (r, f') \<Longrightarrow> fds f' = fds f"
    and "os_bind os fd a f = (r, f') \<Longrightarrow> fds f' = fds f"
    and "os_listen os fd i f = (r, f') \<Longrightarrow> fds f' = fds f"
    and "os_getsockname os fd f = (x, f') \<Longrightarrow> fds f' = fds f"
    and "os_connect os fd a f = (r, f') \<Longrightarrow> fds f' = fds f"
    and "os_getaddrinfo os s p f = (y, f') \<Longrightarrow> fds f' = fds f"
    and "os_poll os fd i f = (z, f') \<Longrightarrow> fds f' = fds f"
    and "os_clock os f = (r, f') \<Longrightarrow> fds f' = fds f"
    and "fds (os_freeaddrinfo os l f) = fds f"
    and "fds (os_sleep os r f) = fds f"
  using assms unfolding ledger_def by (metis snd_conv)+

lemma ledger_open: "ledger os fds \<Longrightarrow> opens fds f (os_socket os f)"
  by (simp add: ledger_def)

lemma ledger_accept: "ledger os fds \<Longrightarrow> opens fds f (os_accept os fd f)"
  by (simp add: ledger_def)

lemma ledger_close_with:
  assumes "ledger os fds" and "close_with os fd ret f = (r, f')"
  shows "r = ret \<and> fds f' = fds f - {fd}"
  using assms unfolding ledger_def close_with_def sock_close_def by (auto simp: case_prod_beta Let_def)

lemma sock_open_ledger:
  assumes "ledger os fds"
  shows "opens fds f (sock_open os f)"
proof -
  obtain fd f1 where f1: "os_socket os f = (fd, f1)" by fastforce
  obtain r f2 where f2: "os_setsockopt os fd ''TCP_NODELAY'' 1 f1 = (r, f2)" by fastforce
  obtain r' f3 where f3: "os_setsockopt os fd ''SO_REUSEADDR'' 1 f2 = (r', f3)" by fastforce
  obtain c g where c: "close_with os fd r f2 = (c, g)" by fastforce
  obtain c' g' where c': "close_with os fd r' f3 = (c', g')" by fastforce
  have o1: "opens fds f (fd, f1)" using ledger_open [OF assms, of f] f1 by simp
  have "fds f2 = fds f1" "fds f3 = fds f2" using ledger_keeps(1) [OF assms] f2 f3 by blast+
  moreover have "c = r" "fds g = fds f2 - {fd}" "c' = r'" "fds g' = fds f3 - {fd}"
    using ledger_close_with [OF assms c] ledger_close_with [OF assms c'] by auto
  moreover have "0 \<le> fd \<Longrightarrow> fds f1 - {fd} = fds f" using o1 by (simp add: opens_def)
  ultimately show ?thesis using o1 by (cases "fd < 0") (simp_all add: sock_open_def f1 f2 f3 c c' opens_def)
qed

lemma server_init_ledger:
  assumes "ledger os fds" and "server_init os addr port f = ((r, port'), f')"
  shows "if 0 \<le> fst (sock_open os f) \<and> bind_addr os addr = None
     then r = -1 \<and> fst (sock_open os f) \<notin> fds f \<and> fds f' = insert (fst (sock_open os f)) (fds f)
     else opens fds f (r, f')"
proof -
  obtain fd f1 where f1: "sock_open os f = (fd, f1)" by fastforce
  have o1: "opens fds f (fd, f1)" using sock_open_ledger [OF assms(1), of f] f1 by simp
  show ?thesis
  proof (cases "fd < 0 \<or> bind_addr os addr = None")
    case True
    then show ?thesis using assms(2) o1 by (auto simp: server_init_def f1 opens_def)
  next
    case False
    then obtain a where a: "bind_addr os addr = Some a" by auto
    let ?a = "\<lparr>sa_addr = a, sa_port = word_of_int port\<rparr>"
    obtain r2 f2 where f2: "os_bind os fd ?a f1 = (r2, f2)" by fastforce
    obtain r3 f3 where f3: "os_listen os fd 1024 f2 = (r3, f3)" by fastforce
    obtain n f4 where f4: "os_getsockname os fd f3 = (n, f4)" by fastforce
    obtain c g where c: "close_with os fd r2 f2 = (c, g)" by fastforce
    obtain c' g' where c': "close_with os fd r3 f3 = (c', g')" by fastforce
    have "fds f2 = fds f1" "fds f3 = fds f2" "fds f4 = fds f3"
      using ledger_keeps(2-4) [OF assms(1)] f2 f3 f4 by blast+
    moreover have "c = r2" "fds g = fds f2 - {fd}" "c' = r3" "fds g' = fds f3 - {fd}"
      using ledger_close_with [OF assms(1) c] ledger_close_with [OF assms(1) c'] by auto
    moreover have "fds f1 - {fd} = fds f" using o1 False by (simp add: opens_def)
    ultimately show ?thesis
      using assms(2) o1 a False by (auto simp: server_init_def f1 f2 f3 f4 c c' opens_def Let_def split: if_splits)
  qed
qed

lemma retry_loop_ledger:
  assumes "retry_connect_loop os fd a T pause start f = Some res"
  shows "ledger os fds \<longrightarrow> fds (snd res) = fds f"
proof (rule retry_connect_loop.raw_induct
    [where P = "\<lambda>os fd a T pause start f res. ledger os fds \<longrightarrow> fds (snd res) = fds f", OF _ assms])
  fix loop :: "'a os \<Rightarrow> int \<Rightarrow> sockaddr \<Rightarrow> int \<Rightarrow> int \<Rightarrow> int \<Rightarrow> 'a \<Rightarrow> (int \<times> 'a) option"
    and os fd a T pause start f res
  assume IH: "\<And>os fd a T pause start f res. loop os fd a T pause start f = Some res \<Longrightarrow>
      ledger os fds \<longrightarrow> fds (snd res) = fds f"
    and body: "(let (ret, f1) = os_connect os fd a f
      in if ret < 0 then
           let (now, f2) = os_clock os f1
           in if ms_of_ns (now - start) > T then Some (ret, f2)
              else loop os fd a T pause start (os_sleep os pause f2)
         else Some (ret, f1)) = Some res"
  show "ledger os fds \<longrightarrow> fds (snd res) = fds f"
  proof
    assume led: "ledger os fds"
    obtain ret f1 where f1: "os_connect os fd a f = (ret, f1)" by fastforce
    obtain now f2 where f2: "os_clock os f1 = (now, f2)" by fastforce
    have "fds f1 = fds f" "fds f2 = fds f1" "fds (os_sleep os pause f2) = fds f2"
      using ledger_keeps(5,8,10) [OF led] f1 f2 by blast+
    moreover have "res = (ret, f1) \<or> res = (ret, f2) \<or> loop os fd a T pause start (os_sleep os pause f2) = Some res"
      using body by (simp add: f1 f2 Let_def split: if_splits)
    ultimately show "fds (snd res) = fds f" using IH [of os fd a T pause start "os_sleep os pause f2" res] led by (elim disjE) simp_all
  qed
qed

lemma retry_connect_ledger:
  assumes "ledger os fds" and "retry_connect os fd a T pause f = Some (r, f')"
  shows "fds f' = fds f"
proof -
  obtain start f1 where f1: "os_clock os f = (start, f1)" by fastforce
  then have "retry_connect_loop os fd a T pause start f1 = Some (r, f')" using assms(2) by (simp add: retry_connect_def)
  from retry_loop_ledger [OF this, of fds] show ?thesis using ledger_keeps(8) [OF assms(1) f1] assms(1) by simp
qed

text \<open>What the loop over the addresses has opened when it ends.\<close>

definition any_opened :: "('f \<Rightarrow> int set) \<Rightarrow> 'f \<Rightarrow> (int + int \<times> int) \<times> 'f \<Rightarrow> bool" where
  "any_opened fds f res \<longleftrightarrow>
     (case fst res of
        Inl fd \<Rightarrow> opens fds f (fd, snd res) \<and> fd < 0
      | Inr (fd, ret) \<Rightarrow> if ret = -1 then fds (snd res) = fds f else opens fds f (fd, snd res))"

lemma any_opened_cong: "fds g = fds f \<Longrightarrow> any_opened fds g res \<longleftrightarrow> any_opened fds f res"
  by (simp add: any_opened_def opens_cong [of fds g f] split: sum.splits)

lemma connect_any_ledger:
  assumes "ledger os fds"
  shows "connect_any os T ps fd ret f = Some res \<Longrightarrow> ps = [] \<longrightarrow> ret = -1 \<Longrightarrow> any_opened fds f res"
proof (induction ps arbitrary: fd ret f)
  case Nil
  then show ?case by (auto simp: any_opened_def)
next
  case (Cons p ps)
  obtain sk f1 where f1: "sock_open os f = (sk, f1)" by fastforce
  have o1: "opens fds f (sk, f1)" using sock_open_ledger [OF assms, of f] f1 by simp
  show ?case
  proof (cases "sk < 0")
    case True
    then show ?thesis using Cons.prems(1) f1 o1 by (auto simp: any_opened_def)
  next
    case False
    then obtain r f2 where f2: "retry_connect os sk p T (T sdiv 10) f1 = Some (r, f2)"
      using Cons.prems(1) f1 by (auto split: bind_splits)
    have same: "fds f2 = fds f1" by (rule retry_connect_ledger [OF assms f2])
    show ?thesis
    proof (cases "r = -1")
      case True
      let ?f3 = "snd (sock_close os sk f2)"
      have "fds ?f3 = fds f" using assms o1 same False by (simp add: ledger_def sock_close_def opens_def)
      moreover have "any_opened fds ?f3 res" using Cons.IH [of sk r ?f3] Cons.prems(1) f1 f2 True False by simp
      ultimately show ?thesis using any_opened_cong [of fds ?f3 f res] by simp
    next
      case other: False
      then show ?thesis using Cons.prems(1) f1 f2 o1 same False by (auto simp: any_opened_def opens_def)
    qed
  qed
qed

lemma client_by_name_ledger:
  assumes "ledger os fds" and "client_by_name os addr port T f = Some (r, f')"
  shows "opens fds f (r, f')"
proof -
  obtain status res f1 where f1: "os_getaddrinfo os addr (Some (dec_of_int port)) f = ((status, res), f1)"
    by (metis prod.exhaust)
  have same: "fds f1 = fds f" by (rule ledger_keeps(6) [OF assms(1) f1])
  show ?thesis
  proof (cases "status = 0")
    case True
    then obtain out f2 where f2: "connect_any os T res (-1) (-1) f1 = Some (out, f2)"
      using assms(2) f1 by (auto simp: client_by_name_def split: bind_splits)
    have o2: "any_opened fds f1 (out, f2)" using connect_any_ledger [OF assms(1) f2] by simp
    show ?thesis
      using assms(2) True f1 f2 o2 same ledger_keeps(9) [OF assms(1), of res f2]
      by (auto simp: client_by_name_def any_opened_def opens_def split: sum.splits if_splits)
  next
    case False
    then show ?thesis using assms(2) f1 same by (auto simp: client_by_name_def opens_def)
  qed
qed

lemma client_by_ip_ledger:
  assumes "ledger os fds"
  shows "opens fds f (client_by_ip os addr port f)"
proof (cases "os_inet_pton os addr")
  case None
  then show ?thesis by (simp add: client_by_ip_def opens_def)
next
  case (Some a)
  let ?a = "\<lparr>sa_addr = a, sa_port = word_of_int port\<rparr>"
  obtain fd f1 where f1: "sock_open os f = (fd, f1)" by fastforce
  obtain r f2 where f2: "os_connect os fd ?a f1 = (r, f2)" by fastforce
  obtain c g where c: "close_with os fd (-1) f2 = (c, g)" by fastforce
  have "opens fds f (fd, f1)" using sock_open_ledger [OF assms, of f] f1 by simp
  moreover have "fds f2 = fds f1" by (rule ledger_keeps(5) [OF assms f2])
  ultimately show ?thesis
    using Some ledger_close_with [OF assms c] by (cases "fd < 0") (simp_all add: client_by_ip_def f1 f2 c opens_def)
qed

lemma accept_loop_ledger:
  assumes "accept_loop os fd T start f = Some res"
  shows "ledger os fds \<longrightarrow> opens fds f res"
proof (rule accept_loop.raw_induct [where P = "\<lambda>os fd T start f res. ledger os fds \<longrightarrow> opens fds f res", OF _ assms])
  fix loop :: "'a os \<Rightarrow> int \<Rightarrow> int \<Rightarrow> int \<Rightarrow> 'a \<Rightarrow> (int \<times> 'a) option" and os fd T start f res
  assume IH: "\<And>os fd T start f res. loop os fd T start f = Some res \<Longrightarrow> ledger os fds \<longrightarrow> opens fds f res"
    and body: "(if T > 0 then
        let ((ret, pollin), f1) = os_poll os fd T f
        in if ret < 0 then
             (if os_errno os f1 = EINTR then
                let (now, f2) = os_clock os f1; left = i32 (T - ms_of_ns (now - start))
                in if left \<le> 0 then Some (-1, f2) else loop os fd left start f2
              else Some (-1, f1))
           else if ret = 0 then Some (-1, f1)
           else if pollin then Some (os_accept os fd f1)
           else Some (-1, f1)
      else Some (-1, f)) = Some res"
  show "ledger os fds \<longrightarrow> opens fds f res"
  proof
    assume led: "ledger os fds"
    obtain ret p f1 where f1: "os_poll os fd T f = ((ret, p), f1)" by (metis prod.exhaust)
    obtain now f2 where f2: "os_clock os f1 = (now, f2)" by fastforce
    let ?left = "i32 (T - ms_of_ns (now - start))"
    have same: "fds f1 = fds f" "fds f2 = fds f"
      using ledger_keeps(7) [OF led f1] ledger_keeps(8) [OF led f2] by simp_all
    have "res = (-1, f2) \<or> res = (-1, f1) \<or> res = (-1, f) \<or> res = os_accept os fd f1 \<or> loop os fd ?left start f2 = Some res"
      using body by (simp add: f1 f2 Let_def split: if_splits)
    then show "opens fds f res"
      using IH [of os fd ?left start f2 res] ledger_accept [OF led, of f1 fd] led same
      by (elim disjE) (simp_all add: opens_failed opens_cong [of fds f1 f] opens_cong [of fds f2 f])
  qed
qed

lemma sock_accept_ledger:
  assumes "ledger os fds" and "sock_accept os fd T f = Some (r, f')"
  shows "opens fds f (r, f')"
proof -
  obtain sk f1 where f1: "accept_timeout os fd T f = Some (sk, f1)"
    using assms(2) by (auto simp: sock_accept_def split: bind_splits)
  have o1: "opens fds f (sk, f1)"
  proof (cases "T = 0")
    case True
    then show ?thesis using f1 ledger_accept [OF assms(1), of f fd] by (simp add: accept_timeout_def)
  next
    case False
    obtain start f0 where f0: "os_clock os f = (start, f0)" by fastforce
    then have "accept_loop os fd T start f0 = Some (sk, f1)" using f1 False by (simp add: accept_timeout_def)
    from accept_loop_ledger [OF this, of fds] show ?thesis
      using assms(1) opens_cong [of fds f0 f] ledger_keeps(8) [OF assms(1) f0] by simp
  qed
  obtain ret f2 where f2: "os_setsockopt os sk ''TCP_NODELAY'' 1 f1 = (ret, f2)" by fastforce
  obtain c g where c: "close_with os sk (-1) f2 = (c, g)" by fastforce
  have "fds f2 = fds f1" by (rule ledger_keeps(1) [OF assms(1) f2])
  then show ?thesis
    using assms(2) o1 ledger_close_with [OF assms(1) c]
    by (cases "sk < 0") (auto simp: sock_accept_def f1 f2 c opens_def split: if_splits)
qed

text \<open>Descriptors are not lost, with one exception. \<open>client_init\<close> and \<open>accept\<close> that fail leave the
  set of open descriptors as it was, and when they succeed they add exactly the socket they return.
  The same holds for \<open>server_init\<close>, but when the text of its address does not convert, the socket it
  has opened stays open and nobody knows its number.\<close>

theorem sockets_not_lost:
  assumes "ledger os fds"
  shows "(client_init os addr port T is_ip f = Some (r1, f1) \<longrightarrow> opens fds f (r1, f1)) \<and>
     (sock_accept os fd T f = Some (r2, f2) \<longrightarrow> opens fds f (r2, f2)) \<and>
     (server_init os addr port f = ((r3, port'), f3) \<longrightarrow>
       (if 0 \<le> fst (sock_open os f) \<and> bind_addr os addr = None
        then r3 = -1 \<and> fst (sock_open os f) \<notin> fds f \<and> fds f3 = insert (fst (sock_open os f)) (fds f)
        else opens fds f (r3, f3)))"
  using client_by_name_ledger [OF assms, of addr port T f r1 f1] client_by_ip_ledger [OF assms, of f addr port]
    sock_accept_ledger [OF assms, of fd T f r2 f2] server_init_ledger [OF assms, of addr port f r3 port' f3]
  by (auto simp: client_init_def split: if_splits)

text \<open>Numbers that have not been given out are not in use.\<close>

definition numbered :: "sample \<Rightarrow> int set" where
  "numbered f = {fd \<in> set (sf_socks f). fd < int (sf_next f)}"

theorem sockets_not_lost_witness:
  "\<exists>f'. server_init sample_os ''node'' 80 sample0 = ((-1, 80), f') \<and> numbered sample0 = {} \<and> numbered f' = {1}"
proof -
  have "ledger sample_os numbered"
    by (auto simp: ledger_def opens_def numbered_def sample_os_def sf_socket_def)
  moreover obtain f' where f': "server_init sample_os ''node'' 80 sample0 = ((-1, 80), f')"
    by (simp add: server_init_def sock_open_def bind_addr_def sample_os_def sf_socket_def Let_def)
  ultimately have "numbered f' = insert (fst (sock_open sample_os sample0)) (numbered sample0)"
    using sockets_not_lost [of sample_os numbered "''node''" 80] by (simp add: sample_os_def sock_open_def sf_socket_def bind_addr_def)
  then show ?thesis using f' by (auto simp: sample_os_def sock_open_def sf_socket_def numbered_def sample0_def)
qed


subsection \<open>Interrupted waits\<close>

text \<open>An interrupted \<open>accept\<close> gives up too early. The time since the start of the call is taken off
  what is left at each interruption, and not off the time-out: after two signals at \<open>e1\<close> and \<open>e2\<close>
  milliseconds the call fails as soon as \<open>e1 + e2\<close> reaches the time-out, although only \<open>e2\<close> have passed.\<close>

theorem accept_interrupted:
  assumes "os_clock os f = (start, f0)" and "0 < T" and "T < 2 ^ 31"
    and "os_poll os fd T f0 = ((-1, p), f1)" and "os_errno os f1 = EINTR" and "os_clock os f1 = (now1, f2)"
    and "e1 = ms_of_ns (now1 - start)" and "0 \<le> e1" and "e1 < T"
    and "os_poll os fd (T - e1) f2 = ((-1, p'), f3)" and "os_errno os f3 = EINTR" and "os_clock os f3 = (now2, f4)"
    and "e2 = ms_of_ns (now2 - start)" and "e2 < T" and "T \<le> e1 + e2"
  shows "sock_accept os fd T f = Some (-1, f4) \<and> ms_of_ns (now2 - start) < T"
proof -
  have "i32 (T - e1) = T - e1" "i32 (T - e1 - e2) = T - e1 - e2"
    using assms(2,3,8,9,14,15) by (auto intro!: i32_small)
  moreover have "i32 (-1) = -1" by (simp add: i32_def)
  ultimately have "accept_loop os fd (T - e1) start f2 = Some (-1, f4)"
    "accept_loop os fd T start f0 = accept_loop os fd (T - e1) start f2"
    using assms accept_loop.simps [of os fd T start f0] accept_loop.simps [of os fd "T - e1" start f2] by auto
  then show ?thesis using assms by (simp add: sock_accept_def accept_timeout_def)
qed

text \<open>Signals at 400 and 800 milliseconds of a wait of one second.\<close>

theorem accept_interrupted_witness:
  "\<exists>f'. sock_accept (sample_os\<lparr>os_poll := \<lambda>_ _ f. ((-1, False), f\<lparr>sf_clock := sf_clock f + 400000000\<rparr>), os_errno := \<lambda>_. EINTR\<rparr>)
       4 1000 sample0 = Some (-1, f') \<and> sf_clock f' < 1000000000"
proof -
  let ?os = "sample_os\<lparr>os_poll := \<lambda>_ _ f. ((-1, False), f\<lparr>sf_clock := sf_clock f + 400000000\<rparr>), os_errno := \<lambda>_. EINTR\<rparr>"
  let ?f = "\<lambda>t. sample0\<lparr>sf_clock := t\<rparr>"
  have "sock_accept ?os 4 1000 sample0 = Some (-1, ?f 800000003) \<and> ms_of_ns (800000002 - 0) < 1000"
    using accept_interrupted [of ?os sample0 0 "?f 1" 1000 4 False "?f 400000001" 400000001 "?f 400000002" 400
        False "?f 800000002" 800000002 "?f 800000003" 800]
    by (simp add: sample_os_def sample0_def EINTR_def ms_of_ns_def)
  then show ?thesis by auto
qed


end
