(* ===== verification/Comm_Table.thy ===== *)
theory Comm_Table
  imports Lfi_State
begin

text \<open>
  The table of communicators, \<open>m_comms\<close> of class \<open>LFI\<close>, and its operations in
  \<open>src/impl/comm.cpp\<close>: reserving an identifier, creating the communicator, and looking one up
  while its connection may still be in progress. An entry without a communicator is an identifier
  that is reserved; \<open>l_futs\<close> holds the identifiers whose connection future nobody has taken yet.
\<close>

subsection \<open>Operations\<close>

text \<open>\<open>emplace\<close>: no effect when the key is present.\<close>

definition emplace :: "'k \<Rightarrow> 'v \<Rightarrow> ('k \<times> 'v) list \<Rightarrow> ('k \<times> 'v) list" where
  "emplace k v al = (case map_of al k of None \<Rightarrow> al @ [(k, v)] | Some _ \<Rightarrow> al)"

definition reserve_comm :: "'f lfi \<Rightarrow> cid \<times> 'f lfi" where
  "reserve_comm s =
     (let comm_id = l_rank_counter s
      in (comm_id, s\<lparr>l_rank_counter := l_rank_counter s + 1, l_comms := emplace comm_id None (l_comms s)\<rparr>))"

text \<open>\<open>init_comm\<close> on an endpoint. The two internal errors call \<open>std::terminate\<close>.\<close>

definition init_comm_ep :: "'f world \<Rightarrow> ep_id \<Rightarrow> cid \<Rightarrow> 'f lfi \<Rightarrow> (cid \<times> 'f lfi) option" where
  "init_comm_ep w e comm_id s =
     (case map_of (l_comms s) comm_id of
        None \<Rightarrow> None
      | Some (Some _) \<Rightarrow> None
      | Some None \<Rightarrow>
          (let (now, s1) = clock_now w s
           in Some (comm_id, set_comm comm_id (comm_new e comm_id now) s1)))"

definition init_comm :: "'f world \<Rightarrow> bool \<Rightarrow> cid \<Rightarrow> 'f lfi \<Rightarrow> (cid \<times> 'f lfi) option" where
  "init_comm w is_shm comm_id s =
     (if is_shm \<and> LFI_use_shm (l_env s) then init_comm_ep w Shm comm_id s
      else init_comm_ep w Peer comm_id s)"

text \<open>An entry that is already there keeps its communicator, which is then marked ready. A reserved
  entry has none, and writing to it is a null dereference.\<close>

definition create_any_comm :: "'f world \<Rightarrow> ep_id \<Rightarrow> cid \<Rightarrow> 'f lfi \<Rightarrow> (cid \<times> 'f lfi) option" where
  "create_any_comm w e comm_id s =
     (let (now, s1) = clock_now w s;
          s2 = s1\<lparr>l_comms := emplace comm_id (Some (comm_new e comm_id now)) (l_comms s1)\<rparr>
      in case the_comm comm_id s2 of
           None \<Rightarrow> None
         | Some m \<Rightarrow>
             Some (comm_id, set_comm comm_id
               (m\<lparr>cm_rank_peer := comm_id, cm_rank_self_in_peer := comm_id, cm_is_ready := READY\<rparr>) s2))"

text \<open>The pointer stored under an identifier; reading it through an iterator whose entry has been
  erased is undefined.\<close>

definition comm_it_get :: "cid \<Rightarrow> 'f lfi \<Rightarrow> (cid option \<times> 'f lfi) option" where
  "comm_it_get c s =
     (case map_of (l_comms s) c of None \<Rightarrow> None | Some e \<Rightarrow> Some (map_option (\<lambda>_. c) e, s))"

definition comm_ready :: "cid \<Rightarrow> 'f lfi \<Rightarrow> bool" where
  "comm_ready c s = (case the_comm c s of None \<Rightarrow> False | Some m \<Rightarrow> cm_is_ready m = READY)"

text \<open>
  \<open>get_comm_internal\<close>. A communicator that is being connected by its own thread (\<open>READY_INTERNAL\<close>)
  counts as ready here. Otherwise the first caller takes the future out of \<open>m_fut_comms\<close> and waits
  for the connection; a caller that finds no future waits on \<open>m_fut_wait_cv\<close>, with no limit, until
  the communicator is ready.
\<close>

definition get_comm_internal :: "'f world \<Rightarrow> cid \<Rightarrow> 'f lfi \<Rightarrow> (cid option \<times> 'f lfi) option" where
  "get_comm_internal w c s =
     (case map_of (l_comms s) c of
        None \<Rightarrow> Some (None, s)
      | Some entry \<Rightarrow>
          if (case entry of None \<Rightarrow> False | Some m \<Rightarrow> cm_is_ready m \<noteq> NOT_READY) then Some (Some c, s)
          else if c \<notin> set (l_futs s) then
            do { s1 \<leftarrow> w_others w (comm_ready c) None s; comm_it_get c s1 }
          else
            do { s1 \<leftarrow> w_future w c (s\<lparr>l_futs := removeAll c (l_futs s)\<rparr>); comm_it_get c s1 })"

definition get_comm_and_mutex :: "'f world \<Rightarrow> cid \<Rightarrow> 'f lfi \<Rightarrow> (cid option \<times> 'f lfi) option" where
  "get_comm_and_mutex w c s = get_comm_internal w c s"

definition get_comm :: "'f world \<Rightarrow> cid \<Rightarrow> 'f lfi \<Rightarrow> (cid option \<times> 'f lfi) option" where
  "get_comm w c s = get_comm_internal w c s"

subsection \<open>Lookup\<close>

lemma map_of_emplace:
  "map_of (emplace k v al) = (if map_of al k = None then (map_of al)(k \<mapsto> v) else map_of al)"
  by (auto simp: emplace_def fun_eq_iff map_add_def split: option.splits)

lemma distinct_keys_emplace: "distinct (map fst al) \<Longrightarrow> distinct (map fst (emplace k v al))"
  by (auto simp: emplace_def map_of_eq_None_iff split: option.splits)

lemma get_comm_ready:
  "the_comm c s = Some m \<Longrightarrow> cm_is_ready m \<noteq> NOT_READY \<Longrightarrow>
   get_comm_internal w c s = Some (Some c, s)"
  by (auto simp: get_comm_internal_def the_comm_def split: option.splits)

lemma get_comm_unknown: "map_of (l_comms s) c = None \<Longrightarrow> get_comm_internal w c s = Some (None, s)"
  by (simp add: get_comm_internal_def)

lemmas get_comm_simps = get_comm_and_mutex_def get_comm_def

text \<open>What a lookup that returns says about its result.\<close>

lemma get_comm_result:
  assumes "get_comm_internal w c s = Some (p, t)"
  shows "p = None \<or> (p = Some c \<and> the_comm c t \<noteq> None)"
  using assms
  by (auto simp: get_comm_internal_def comm_it_get_def the_comm_def split: option.splits if_splits bind_splits)

text \<open>The other threads, as far as a condition variable is concerned: a wait without a limit only
  ends when its predicate holds.\<close>

definition cv_sound :: "'f world \<Rightarrow> bool" where
  "cv_sound w \<longleftrightarrow> (\<forall>p s t. w_others w p None s = Some t \<longrightarrow> p t)"

end
