(* ===== verification/Request.thy ===== *)
theory Request
  imports Comm_Table Sample_World
begin

text \<open>
  Requests and their contexts: \<open>lfi_request_context_factory\<close> of
  \<open>include/impl/lfi_request_context.hpp\<close>, \<open>lfi_request\<close> of \<open>src/impl/lfi_request.cpp\<close> up to
  \<open>complete\<close>, and the two functions of \<open>src/impl/ft_manager.cpp\<close> that keep the list of monitored
  requests of a communicator, \<open>register_request\<close> and \<open>on_request_complete\<close>. The invariants are
  those the rest of the library depends on: the pool of contexts, and the agreement between the
  intrusive lists and the requests that are in flight.
\<close>

subsection \<open>Context factory\<close>

definition ctx_create :: "rid \<Rightarrow> 'f lfi \<Rightarrow> ctx \<times> 'f lfi" where
  "ctx_create r s =
     (if l_free s = []
      then (l_next_ctx s,
            s\<lparr>l_created := l_created s + 1, l_next_ctx := Suc (l_next_ctx s),
              l_ctxs := (l_ctxs s)(l_next_ctx s := Some r)\<rparr>)
      else (last (l_free s),
            s\<lparr>l_free := butlast (l_free s), l_ctxs := (l_ctxs s)(last (l_free s) := Some r)\<rparr>))"

definition ctx_unassign :: "ctx \<Rightarrow> 'f lfi \<Rightarrow> 'f lfi" where
  "ctx_unassign c s = s\<lparr>l_ctxs := (l_ctxs s)(c := None)\<rparr>"

definition ctx_destroy :: "ctx \<Rightarrow> 'f lfi \<Rightarrow> 'f lfi" where
  "ctx_destroy c s = (ctx_unassign c s)\<lparr>l_free := l_free s @ [c]\<rparr>"

definition get_request :: "ctx \<Rightarrow> 'f lfi \<Rightarrow> rid option" where
  "get_request c s = l_ctxs s c"

subsection \<open>Construction and reset\<close>

definition new_request :: "ep_id \<Rightarrow> cid \<Rightarrow> 'f lfi \<Rightarrow> (rid \<times> 'f lfi) option" where
  "new_request e c s =
     do { m \<leftarrow> the_comm c s;
          let r = l_next_rid s in
          Some (r, s\<lparr>l_next_rid := Suc r,
                     l_rlinks := (l_rlinks s)(r := dnode_fresh),
                     l_reqs := (l_reqs s)(r \<mapsto>
                       \<lparr>rq_endpoint = e, rq_comm_id = cm_rank_peer m, rq_comm = c, rq_error = 0,
                        rq_wait_context = None, rq_op_type = OpNone, rq_size = 0, rq_tag = 0,
                        rq_source = UNINITIALIZED_COMM, rq_shared_wait = None, rq_callback = None,
                        rq_callback_ctx = 0\<rparr>)\<rparr>) }"

definition is_completed :: "rid \<Rightarrow> 'f lfi \<Rightarrow> bool" where
  "is_completed r s = (case l_reqs s r of None \<Rightarrow> False | Some q \<Rightarrow> rq_wait_context q = None)"

definition unassign_of :: "request \<Rightarrow> 'f lfi \<Rightarrow> 'f lfi" where
  "unassign_of q s = (case rq_wait_context q of None \<Rightarrow> s | Some c \<Rightarrow> ctx_unassign c s)"

definition request_reset :: "rid \<Rightarrow> 'f lfi \<Rightarrow> 'f lfi option" where
  "request_reset r s =
     do { q \<leftarrow> l_reqs s r;
          Some (upd_req r (\<lambda>q. q\<lparr>rq_op_type := OpNone, rq_error := 0, rq_size := 0, rq_tag := 0,
                               rq_source := UNINITIALIZED_COMM, rq_wait_context := None\<rparr>)
                 (unassign_of q s)) }"

subsection \<open>Monitoring lists\<close>

definition ft_push_request :: "cid \<Rightarrow> rid \<Rightarrow> 'f lfi \<Rightarrow> 'f lfi option" where
  "ft_push_request c r s =
     do { m \<leftarrow> the_comm c s;
          let (l, h) = dll_push_back (Some r) (cm_requests m, l_rlinks s) in
          Some (set_comm c (m\<lparr>cm_requests := l\<rparr>) (s\<lparr>l_rlinks := h\<rparr>)) }"

definition ft_erase_request :: "cid \<Rightarrow> rid \<Rightarrow> 'f lfi \<Rightarrow> 'f lfi option" where
  "ft_erase_request c r s =
     do { m \<leftarrow> the_comm c s;
          let (_, l, h) = dll_erase (Some r) (cm_requests m, l_rlinks s) in
          Some (set_comm c (m\<lparr>cm_requests := l\<rparr>) (s\<lparr>l_rlinks := h\<rparr>)) }"

definition ft_comms_push :: "ep_id \<Rightarrow> cid \<Rightarrow> 'f lfi \<Rightarrow> 'f lfi" where
  "ft_comms_push e c s =
     (let (l, h) = dll_push_back (Some c) (ep_ft_comms (ep_of e s), l_clinks s)
      in upd_ep e (\<lambda>x. x\<lparr>ep_ft_comms := l\<rparr>) (s\<lparr>l_clinks := h\<rparr>))"

definition ft_comms_erase :: "ep_id \<Rightarrow> cid \<Rightarrow> 'f lfi \<Rightarrow> 'f lfi" where
  "ft_comms_erase e c s =
     (let (_, l, h) = dll_erase (Some c) (ep_ft_comms (ep_of e s), l_clinks s)
      in upd_ep e (\<lambda>x. x\<lparr>ep_ft_comms := l\<rparr>) (s\<lparr>l_clinks := h\<rparr>))"

definition register_request :: "rid \<Rightarrow> cid \<Rightarrow> 'f lfi \<Rightarrow> 'f lfi option" where
  "register_request r c s =
     (if \<not> LFI_fault_tolerance (l_env s) then Some s
      else do {
        m \<leftarrow> the_comm c s;
        let s1 =
          (if any_comm (cm_rank_peer m)
           then upd_ep (cm_endpoint m) (\<lambda>x. x\<lparr>ep_any_reqs := List.insert r (ep_any_reqs x)\<rparr>) s
           else if \<not> d_inserted (l_clinks s c) then ft_comms_push (cm_endpoint m) c s
           else s);
        ft_push_request c r s1 })"

definition touch_comm :: "'f world \<Rightarrow> cid option \<Rightarrow> 'f lfi \<Rightarrow> 'f lfi" where
  "touch_comm w p s =
     (case p of
        None \<Rightarrow> s
      | Some c \<Rightarrow> (let (now, s1) = clock_now w s in upd_comm c (\<lambda>m. m\<lparr>cm_last_request_time := now\<rparr>) s1))"

text \<open>The endpoint of the communicator holds the mutex, the endpoint of the request the set.\<close>

definition on_request_complete :: "'f world \<Rightarrow> rid \<Rightarrow> int \<Rightarrow> 'f lfi \<Rightarrow> 'f lfi option" where
  "on_request_complete w r err s =
     do { q \<leftarrow> l_reqs s r;
          s1 \<leftarrow> ft_erase_request (rq_comm q) r s;
          let s2 =
            (if any_comm (rq_comm_id q)
             then upd_ep (rq_endpoint q) (\<lambda>x. x\<lparr>ep_any_reqs := removeAll r (ep_any_reqs x)\<rparr>) s1
             else s1);
          if err \<noteq> LFI_SUCCESS then Some s2
          else if rq_source q \<noteq> rq_comm_id q then
            do { (target, s3) \<leftarrow> get_comm_internal w (rq_source q) s2;
                 Some (touch_comm w target s3) }
          else Some (touch_comm w (Some (rq_comm q)) s2) }"

subsection \<open>Completion\<close>

text \<open>The shared counter of \<open>wait_num\<close> goes down by one; the notification has no effect on the state.\<close>

definition shared_wait_signal :: "request \<Rightarrow> 'f lfi \<Rightarrow> 'f lfi" where
  "shared_wait_signal q s =
     (case rq_shared_wait q of
        None \<Rightarrow> s
      | Some x \<Rightarrow> s\<lparr>l_waits := (l_waits s)(x := map_option (\<lambda>n. n - 1) (l_waits s x))\<rparr>)"

definition queue_callback :: "request \<Rightarrow> int \<Rightarrow> 'f lfi \<Rightarrow> 'f lfi" where
  "queue_callback q err s =
     (case rq_callback q of
        None \<Rightarrow> s
      | Some f \<Rightarrow>
          upd_ep (rq_endpoint q) (\<lambda>x. x\<lparr>ep_callbacks := ep_callbacks x @ [(f, err, rq_callback_ctx q)]\<rparr>) s)"

definition complete :: "'f world \<Rightarrow> rid \<Rightarrow> int \<Rightarrow> 'f lfi \<Rightarrow> 'f lfi option" where
  "complete w r err s =
     do { q0 \<leftarrow> l_reqs s r;
          if rq_wait_context q0 = None then Some s
          else do {
            s1 \<leftarrow> (if LFI_fault_tolerance (l_env s) then on_request_complete w r err s else Some s);
            q \<leftarrow> l_reqs s1 r;
            let s2 = upd_req r (\<lambda>q. q\<lparr>rq_error := err, rq_wait_context := None\<rparr>) (unassign_of q s1);
            Some (queue_callback q err (shared_wait_signal q s2)) } }"


text \<open>\<open>request.wait_context.store(req_ctx_factory.create(request))\<close>\<close>

definition store_new_context :: "rid \<Rightarrow> 'f lfi \<Rightarrow> ctx \<times> 'f lfi" where
  "store_new_context r s =
     (let (c, s1) = ctx_create r s
      in (c, upd_req r (\<lambda>q. q\<lparr>rq_wait_context := Some c\<rparr>) s1))"

subsection \<open>The pool of contexts\<close>

definition holds_ctx :: "'f lfi \<Rightarrow> rid \<Rightarrow> ctx \<Rightarrow> bool" where
  "holds_ctx s r c \<longleftrightarrow> (\<exists>q. l_reqs s r = Some q \<and> rq_wait_context q = Some c)"

text \<open>
  A context in the free list is assigned to nobody and appears there once; a context is assigned to
  a request exactly when the request waits on it; the counter counts the contexts ever made.
\<close>

definition ctx_inv :: "'f lfi \<Rightarrow> bool" where
  "ctx_inv s \<longleftrightarrow>
     distinct (l_free s) \<and>
     (\<forall>c \<in> set (l_free s). l_ctxs s c = None \<and> c < l_next_ctx s) \<and>
     (\<forall>c r. l_ctxs s c = Some r \<longleftrightarrow> holds_ctx s r c) \<and>
     (\<forall>c r. holds_ctx s r c \<longrightarrow> c < l_next_ctx s) \<and>
     l_created s = int (l_next_ctx s)"

lemma ctx_create_frame [simp]:
  "l_reqs (snd (ctx_create r s)) = l_reqs s" "ep_of e (snd (ctx_create r s)) = ep_of e s"
  "the_comm c (snd (ctx_create r s)) = the_comm c s" "l_rlinks (snd (ctx_create r s)) = l_rlinks s"
  "l_clinks (snd (ctx_create r s)) = l_clinks s" "l_env (snd (ctx_create r s)) = l_env s"
  "l_comms (snd (ctx_create r s)) = l_comms s" "l_log (snd (ctx_create r s)) = l_log s"
  "l_fab (snd (ctx_create r s)) = l_fab s" "l_futs (snd (ctx_create r s)) = l_futs s"
  "l_waits (snd (ctx_create r s)) = l_waits s" "l_next_gid (snd (ctx_create r s)) = l_next_gid s"
  by (simp_all add: ctx_create_def ep_of_def the_comm_def split: ep_id.splits)

lemma ctx_unassign_frame [simp]:
  "l_reqs (ctx_unassign k s) = l_reqs s" "ep_of e (ctx_unassign k s) = ep_of e s"
  "the_comm c (ctx_unassign k s) = the_comm c s" "l_rlinks (ctx_unassign k s) = l_rlinks s"
  "l_clinks (ctx_unassign k s) = l_clinks s" "l_env (ctx_unassign k s) = l_env s"
  "l_comms (ctx_unassign k s) = l_comms s" "l_log (ctx_unassign k s) = l_log s"
  "l_fab (ctx_unassign k s) = l_fab s" "l_futs (ctx_unassign k s) = l_futs s"
  "l_waits (ctx_unassign k s) = l_waits s" "l_next_gid (ctx_unassign k s) = l_next_gid s"
  "l_free (ctx_unassign k s) = l_free s" "l_next_ctx (ctx_unassign k s) = l_next_ctx s"
  "l_created (ctx_unassign k s) = l_created s" "l_ctxs (ctx_unassign k s) = (l_ctxs s)(k := None)"
  by (simp_all add: ctx_unassign_def ep_of_def the_comm_def split: ep_id.splits)

lemma unassign_of_frame [simp]:
  "l_reqs (unassign_of q s) = l_reqs s" "ep_of e (unassign_of q s) = ep_of e s"
  "the_comm c (unassign_of q s) = the_comm c s" "l_rlinks (unassign_of q s) = l_rlinks s"
  "l_clinks (unassign_of q s) = l_clinks s" "l_env (unassign_of q s) = l_env s"
  "l_comms (unassign_of q s) = l_comms s" "l_log (unassign_of q s) = l_log s"
  "l_fab (unassign_of q s) = l_fab s" "l_futs (unassign_of q s) = l_futs s"
  "l_waits (unassign_of q s) = l_waits s" "l_next_gid (unassign_of q s) = l_next_gid s"
  "l_free (unassign_of q s) = l_free s" "l_next_ctx (unassign_of q s) = l_next_ctx s"
  "l_created (unassign_of q s) = l_created s"
  by (simp_all add: unassign_of_def split: option.splits)

lemma ctx_assigned: "ctx_inv s \<Longrightarrow> l_ctxs s c = Some r \<longleftrightarrow> holds_ctx s r c"
  by (simp add: ctx_inv_def)

lemma ctx_unheld: "ctx_inv s \<Longrightarrow> l_ctxs s c = None \<Longrightarrow> \<not> holds_ctx s r c"
  by (metis ctx_assigned option.distinct(1))

text \<open>The context handed out is in nobody's hands.\<close>

lemma ctx_create_fresh:
  assumes "ctx_inv s"
  shows "l_ctxs s (fst (ctx_create r s)) = None" "\<not> holds_ctx s r' (fst (ctx_create r s))"
    "fst (ctx_create r s) \<notin> set (l_free (snd (ctx_create r s)))"
proof -
  have "l_ctxs s (fst (ctx_create r s)) = None \<and> fst (ctx_create r s) \<notin> set (l_free (snd (ctx_create r s)))"
  proof (cases "l_free s = []")
    case True
    with assms show ?thesis
      by (cases "l_ctxs s (l_next_ctx s)") (auto simp: ctx_create_def ctx_inv_def)
  next
    case False
    then have "last (l_free s) \<in> set (l_free s)" by simp
    moreover have "last (l_free s) \<notin> set (butlast (l_free s))"
      using False assms unfolding ctx_inv_def
      by (metis append_butlast_last_id distinct_append disjoint_insert(1) list.set(2))
    ultimately show ?thesis using False assms by (simp add: ctx_create_def ctx_inv_def)
  qed
  then show "l_ctxs s (fst (ctx_create r s)) = None" "\<not> holds_ctx s r' (fst (ctx_create r s))"
    "fst (ctx_create r s) \<notin> set (l_free (snd (ctx_create r s)))"
    by (simp_all add: ctx_unheld [OF assms])
qed

lemma holds_ctx_upd:
  "holds_ctx (upd_req r g s) r' c \<longleftrightarrow>
     (if r' = r then (\<exists>q. l_reqs s r = Some q \<and> rq_wait_context (g q) = Some c) else holds_ctx s r' c)"
  by (auto simp: holds_ctx_def)

lemma store_new_context_inv:
  assumes inv: "ctx_inv s" and q: "l_reqs s r = Some q" and idle: "rq_wait_context q = None"
  shows "ctx_inv (snd (store_new_context r s))"
proof -
  let ?c = "fst (ctx_create r s)" and ?s1 = "snd (ctx_create r s)"
  let ?t = "snd (store_new_context r s)"
  have t: "?t = upd_req r (\<lambda>q. q\<lparr>rq_wait_context := Some ?c\<rparr>) ?s1"
    by (simp add: store_new_context_def case_prod_beta Let_def)
  have held: "holds_ctx ?t r' c \<longleftrightarrow> (if r' = r then c = ?c else holds_ctx s r' c)" for r' c
    using q by (auto simp: t holds_ctx_upd) (auto simp: holds_ctx_def)
  have notr: "\<not> holds_ctx s r c" for c using q idle by (simp add: holds_ctx_def)
  have ctxs: "l_ctxs ?t = (l_ctxs s)(?c := Some r)" by (simp add: t ctx_create_def)
  note fresh = ctx_create_fresh [OF inv, where r = r]
  have free: "set (l_free ?t) \<subseteq> set (l_free s)" "distinct (l_free ?t)"
    using inv by (auto simp: t ctx_create_def ctx_inv_def distinct_butlast dest: in_set_butlastD)
  have bound: "?c < l_next_ctx ?t" "l_next_ctx s \<le> l_next_ctx ?t" "l_created ?t = int (l_next_ctx ?t)"
    using inv by (auto simp: t ctx_create_def ctx_inv_def)
  have fr: "?c \<notin> set (l_free ?t)" using fresh by (simp add: t)
  have old: "l_ctxs s c = Some r' \<longleftrightarrow> holds_ctx s r' c" for c r' using inv by (simp add: ctx_inv_def)
  have assigned: "l_ctxs ?t c = Some r' \<longleftrightarrow> holds_ctx ?t r' c" for c r'
    using fresh(2) notr old unfolding held ctxs by auto
  have limit: "holds_ctx ?t r' c \<Longrightarrow> c < l_next_ctx ?t" for r' c
    using inv bound unfolding held ctx_inv_def by (auto split: if_splits intro: less_le_trans)
  have pool: "\<forall>c \<in> set (l_free ?t). l_ctxs ?t c = None \<and> c < l_next_ctx ?t"
    using inv free fr bound unfolding ctxs ctx_inv_def by (auto intro: less_le_trans)
  show ?thesis
    unfolding ctx_inv_def using free bound assigned limit pool by blast
qed

lemma ctx_destroy_inv:
  assumes "ctx_inv s" and "l_ctxs s c = None" and "c \<notin> set (l_free s)" and "c < l_next_ctx s"
  shows "ctx_inv (ctx_destroy c s)"
proof -
  have "holds_ctx (ctx_destroy c s) r k = holds_ctx s r k" for r k
    by (simp add: holds_ctx_def ctx_destroy_def)
  moreover have "(ctx_unassign c s) = s" using assms(2) by (cases s) (simp add: ctx_unassign_def fun_upd_idem)
  ultimately show ?thesis using assms unfolding ctx_inv_def by (auto simp: ctx_destroy_def)
qed

text \<open>A request that waits no more gives its context up but does not return it to the factory.\<close>

lemma ctx_drop_inv:
  assumes inv: "ctx_inv s" and q: "l_reqs s r = Some q"
    and g: "rq_wait_context (g q) = None"
  shows "ctx_inv (upd_req r g (unassign_of q s))"
proof -
  let ?t = "upd_req r g (unassign_of q s)"
  have held: "holds_ctx ?t r' c \<longleftrightarrow> r' \<noteq> r \<and> holds_ctx s r' c" for r' c
    using q g by (auto simp: holds_ctx_upd) (auto simp: holds_ctx_def)
  have ctxs: "l_ctxs ?t c = (if rq_wait_context q = Some c then None else l_ctxs s c)" for c
    by (auto simp: unassign_of_def split: option.splits)
  have old: "l_ctxs s c = Some r' \<longleftrightarrow> holds_ctx s r' c" for c r' using inv by (simp add: ctx_inv_def)
  have mine: "holds_ctx s r c \<longleftrightarrow> rq_wait_context q = Some c" for c using q by (simp add: holds_ctx_def)
  have "l_ctxs ?t c = Some r' \<longleftrightarrow> holds_ctx ?t r' c" for c r'
    using old mine unfolding held ctxs by (metis option.inject option.distinct(1))
  moreover have "\<forall>c \<in> set (l_free s). l_ctxs ?t c = None \<and> c < l_next_ctx s"
    using inv unfolding ctxs ctx_inv_def by simp
  ultimately show ?thesis using inv unfolding ctx_inv_def held by simp blast
qed

subsection \<open>Quiet steps\<close>

text \<open>
  \<open>quiet s t\<close>: between \<open>s\<close> and \<open>t\<close> only requests, the monitoring lists, the sets of requests on
  any communicator, queued callbacks, shared counters, times and assigned contexts have changed.
\<close>

definition ep_core :: "endpoint \<Rightarrow> endpoint" where
  "ep_core x = x\<lparr>ep_any_reqs := [], ep_callbacks := [], ep_ft_comms := dll_empty\<rparr>"

definition comm_core :: "comm \<Rightarrow> comm" where
  "comm_core m = m\<lparr>cm_requests := dll_empty, cm_last_request_time := 0\<rparr>"

definition quiet :: "'f lfi \<Rightarrow> 'f lfi \<Rightarrow> bool" where
  "quiet s t \<longleftrightarrow>
     (\<forall>e. ep_core (ep_of e t) = ep_core (ep_of e s)) \<and>
     (\<forall>c. map_option (map_option comm_core) (map_of (l_comms t) c) =
          map_option (map_option comm_core) (map_of (l_comms s) c)) \<and>
     l_env t = l_env s \<and> l_free t = l_free s \<and> l_next_ctx t = l_next_ctx s \<and> l_created t = l_created s \<and>
     l_futs t = l_futs s \<and> l_log t = l_log s \<and> l_next_gid t = l_next_gid s \<and> l_next_rid t = l_next_rid s"

lemma quiet_refl [simp]: "quiet s s"
  by (simp add: quiet_def)

lemma quiet_trans: "quiet s t \<Longrightarrow> quiet t u \<Longrightarrow> quiet s u"
  by (simp add: quiet_def)

lemma quiet_ep:
  assumes "quiet s t"
  shows "ep_priority (ep_of e t) = ep_priority (ep_of e s)" "ep_pending (ep_of e t) = ep_pending (ep_of e s)"
    "ep_pg (ep_of e t) = ep_pg (ep_of e s)" "ep_cq (ep_of e t) = ep_cq (ep_of e s)"
    "ep_info (ep_of e t) = ep_info (ep_of e s)" "tx_endpoint (ep_of e t) = tx_endpoint (ep_of e s)"
    "rx_endpoint (ep_of e t) = rx_endpoint (ep_of e s)" "ep_failed (ep_of e t) = ep_failed (ep_of e s)"
proof -
  have core: "ep_core (ep_of e t) = ep_core (ep_of e s)" using assms by (simp add: quiet_def)
  have get: "(\<And>x. g (ep_core x) = g x) \<Longrightarrow> g (ep_of e t) = g (ep_of e s)" for g :: "endpoint \<Rightarrow> 'b"
    using core by metis
  show "ep_priority (ep_of e t) = ep_priority (ep_of e s)" by (rule get) (simp add: ep_core_def)
  show "ep_pending (ep_of e t) = ep_pending (ep_of e s)" by (rule get) (simp add: ep_core_def)
  show "ep_pg (ep_of e t) = ep_pg (ep_of e s)" by (rule get) (simp add: ep_core_def)
  show "ep_cq (ep_of e t) = ep_cq (ep_of e s)" by (rule get) (simp add: ep_core_def)
  show "ep_info (ep_of e t) = ep_info (ep_of e s)" by (rule get) (simp add: ep_core_def)
  show "ep_failed (ep_of e t) = ep_failed (ep_of e s)" by (rule get) (simp add: ep_core_def)
  show "tx_endpoint (ep_of e t) = tx_endpoint (ep_of e s)"
    by (rule get) (simp add: ep_core_def tx_endpoint_def)
  show "rx_endpoint (ep_of e t) = rx_endpoint (ep_of e s)"
    by (rule get) (simp add: ep_core_def rx_endpoint_def)
qed

lemma map_option_entry:
  assumes "map_option (map_option f) a = map_option (map_option f) b"
  obtains "a = None" "b = None" | "a = Some None" "b = Some None"
  | x y where "a = Some (Some x)" "b = Some (Some y)" "f x = f y"
proof (cases a)
  case None
  then show ?thesis using assms that(1) by simp
next
  case (Some a')
  then obtain b' where b: "b = Some b'" and eq: "map_option f a' = map_option f b'"
    using assms by (cases b) simp_all
  show ?thesis
  proof (cases a')
    case None
    then show ?thesis using Some b eq that(2) by simp
  next
    case (Some x)
    then obtain y where "b' = Some y" "f x = f y" using eq by (cases b') simp_all
    then show ?thesis using \<open>a = Some a'\<close> Some b that(3) by simp
  qed
qed

lemma quiet_comm_entry:
  assumes "quiet s t"
  obtains "map_of (l_comms t) c = None" "map_of (l_comms s) c = None"
  | "map_of (l_comms t) c = Some None" "map_of (l_comms s) c = Some None"
  | x y where "map_of (l_comms t) c = Some (Some x)" "map_of (l_comms s) c = Some (Some y)"
      "comm_core x = comm_core y"
proof -
  have "map_option (map_option comm_core) (map_of (l_comms t) c) =
      map_option (map_option comm_core) (map_of (l_comms s) c)"
    using assms unfolding quiet_def by blast
  then show ?thesis using that by (rule map_option_entry)
qed

lemma quiet_comm:
  assumes "quiet s t"
  shows "map_option comm_core (the_comm c t) = map_option comm_core (the_comm c s)"
  by (rule quiet_comm_entry [OF assms, of c]) (simp_all add: the_comm_def)

lemma quiet_commD:
  assumes "quiet s t" and "the_comm c s = Some m"
  shows "\<exists>m'. the_comm c t = Some m' \<and> comm_core m' = comm_core m"
  using quiet_comm [OF assms(1), of c] assms(2) by (cases "the_comm c t") auto

lemma quiet_comm_none: "quiet s t \<Longrightarrow> the_comm c t = None \<longleftrightarrow> the_comm c s = None"
  using quiet_comm [of s t c] by (metis option.map_disc_iff)

lemma comm_core_eqD:
  assumes core: "comm_core m' = comm_core m"
  shows "cm_is_ready m' = cm_is_ready m" "cm_is_canceled m' = cm_is_canceled m"
    "cm_endpoint m' = cm_endpoint m" "cm_rank_peer m' = cm_rank_peer m" "cm_fi_addr m' = cm_fi_addr m"
    "cm_heartbeat_req m' = cm_heartbeat_req m" "cm_rank_self_in_peer m' = cm_rank_self_in_peer m"
    "cm_status m' = cm_status m"
proof -
  have get: "(\<And>x. g (comm_core x) = g x) \<Longrightarrow> g m' = g m" for g :: "comm \<Rightarrow> 'b"
    using core by metis
  show "cm_is_ready m' = cm_is_ready m" by (rule get) (simp add: comm_core_def)
  show "cm_is_canceled m' = cm_is_canceled m" by (rule get) (simp add: comm_core_def)
  show "cm_endpoint m' = cm_endpoint m" by (rule get) (simp add: comm_core_def)
  show "cm_rank_peer m' = cm_rank_peer m" by (rule get) (simp add: comm_core_def)
  show "cm_fi_addr m' = cm_fi_addr m" by (rule get) (simp add: comm_core_def)
  show "cm_heartbeat_req m' = cm_heartbeat_req m" by (rule get) (simp add: comm_core_def)
  show "cm_rank_self_in_peer m' = cm_rank_self_in_peer m" by (rule get) (simp add: comm_core_def)
  show "cm_status m' = cm_status m" by (rule get) (simp add: comm_core_def)
qed

lemma quiet_upd_req [simp]: "quiet s (upd_req r g s)"
  by (simp add: quiet_def upd_req_def ep_of_def split: ep_id.splits)

lemma quiet_upd_ep: "(\<And>x. ep_core (g x) = ep_core x) \<Longrightarrow> quiet s (upd_ep e g s)"
  by (simp add: quiet_def)

lemma quiet_set_comm:
  assumes "the_comm c s = Some m" and "comm_core m' = comm_core m"
  shows "quiet s (set_comm c m' (s\<lparr>l_rlinks := h\<rparr>))"
proof -
  have "map_of (l_comms s) c = Some (Some m)"
    using assms(1) by (simp add: the_comm_def split: option.splits)
  with assms(2) show ?thesis by (simp add: quiet_def set_comm_def map_of_update ep_of_def split: ep_id.splits)
qed

lemma quiet_fab [simp]: "quiet s (snd (fab call s))"
  by (simp add: quiet_def fab_def case_prod_beta Let_def)

lemma quiet_upd_comm:
  assumes "\<And>m. comm_core (g m) = comm_core m"
  shows "quiet s (upd_comm c g s)"
proof (cases "the_comm c s")
  case (Some m)
  have "quiet s (set_comm c (g m) (s\<lparr>l_rlinks := l_rlinks s\<rparr>))"
    using Some assms by (intro quiet_set_comm) simp_all
  with Some show ?thesis by (simp add: upd_comm_def)
qed (simp add: upd_comm_def)

lemma quiet_touch: "quiet s (touch_comm w p s)"
proof (cases p)
  case (Some c)
  have "quiet s (upd_comm c (\<lambda>m. m\<lparr>cm_last_request_time := t\<rparr>) (snd (clock_now w s)))" for t
    unfolding clock_now_def
    by (rule quiet_trans [OF quiet_fab quiet_upd_comm]) (simp add: comm_core_def)
  with Some show ?thesis by (simp add: touch_comm_def case_prod_beta Let_def)
qed (simp add: touch_comm_def)

subsection \<open>The monitored requests\<close>

text \<open>
  \<open>ft_rep s L\<close>: the list of communicator \<open>c\<close> holds the sequence \<open>L c\<close>, no request is in two
  lists, and a request in no list has fresh links. \<open>ft_sync s L\<close>: these are exactly the requests
  in flight. The first is a fact about pointers that every step keeps, the second holds between
  operations.
\<close>

definition in_flight :: "'f lfi \<Rightarrow> cid \<Rightarrow> rid \<Rightarrow> bool" where
  "in_flight s c r \<longleftrightarrow> (\<exists>q. l_reqs s r = Some q \<and> rq_comm q = c \<and> rq_wait_context q \<noteq> None)"

definition ft_rep :: "'f lfi \<Rightarrow> (cid \<Rightarrow> rid list) \<Rightarrow> bool" where
  "ft_rep s L \<longleftrightarrow>
     (\<forall>c m. the_comm c s = Some m \<longrightarrow> dll_rep (cm_requests m, l_rlinks s) (L c)) \<and>
     (\<forall>c c' r. r \<in> set (L c) \<longrightarrow> r \<in> set (L c') \<longrightarrow> c = c') \<and>
     (\<forall>r. (\<forall>c. r \<notin> set (L c)) \<longrightarrow> l_rlinks s r = dnode_fresh)"

definition ft_sync :: "'f lfi \<Rightarrow> (cid \<Rightarrow> rid list) \<Rightarrow> bool" where
  "ft_sync s L \<longleftrightarrow> (\<forall>c r. r \<in> set (L c) \<longleftrightarrow> in_flight s c r)"

definition ft_inv :: "'f lfi \<Rightarrow> bool" where
  "ft_inv s \<longleftrightarrow> (\<exists>L. ft_rep s L \<and> ft_sync s L)"

text \<open>Only the lists and the links matter.\<close>

lemma ft_rep_cong:
  assumes "ft_rep s L" and "l_rlinks t = l_rlinks s"
    and "\<And>c m. the_comm c t = Some m \<Longrightarrow> \<exists>m'. the_comm c s = Some m' \<and> cm_requests m = cm_requests m'"
  shows "ft_rep t L"
  unfolding ft_rep_def
proof (intro conjI)
  show "\<forall>c m. the_comm c t = Some m \<longrightarrow> dll_rep (cm_requests m, l_rlinks t) (L c)"
    using assms unfolding ft_rep_def by metis
  show "\<forall>c c' r. r \<in> set (L c) \<longrightarrow> r \<in> set (L c') \<longrightarrow> c = c'"
    using assms(1) unfolding ft_rep_def by blast
  show "\<forall>r. (\<forall>c. r \<notin> set (L c)) \<longrightarrow> l_rlinks t r = dnode_fresh"
    using assms(1,2) unfolding ft_rep_def by simp
qed

lemma ft_rep_other:
  assumes "ft_rep s L" and "the_comm k s = Some m" and "\<And>x. x \<in> set (L k) \<Longrightarrow> h x = l_rlinks s x"
  shows "dll_rep (cm_requests m, h) (L k)"
  using assms by (auto simp: ft_rep_def intro: dll_rep_frame)

lemma ft_erase_request_rep:
  assumes rep: "ft_rep s L" and m: "the_comm c s = Some m" and r: "r \<in> set (L c)"
  shows "\<exists>m' h. ft_erase_request c r s = Some (set_comm c (m\<lparr>cm_requests := m'\<rparr>) (s\<lparr>l_rlinks := h\<rparr>)) \<and>
     ft_rep (set_comm c (m\<lparr>cm_requests := m'\<rparr>) (s\<lparr>l_rlinks := h\<rparr>)) (L(c := remove1 r (L c))) \<and>
     h r = dnode_fresh"
proof -
  let ?lh = "(cm_requests m, l_rlinks s)"
  obtain it l h where del: "dll_erase (Some r) ?lh = (it, l, h)" by (metis prod.exhaust)
  let ?t = "set_comm c (m\<lparr>cm_requests := l\<rparr>) (s\<lparr>l_rlinks := h\<rparr>)"
  let ?L = "L(c := remove1 r (L c))"
  have lists: "dll_rep ?lh (L c)" using rep m by (simp add: ft_rep_def)
  have dist: "distinct (L c)" using lists by (rule dll_rep_distinct)
  have new: "dll_rep (l, h) (remove1 r (L c))" and fresh: "h r = dnode_fresh"
    and same: "\<And>n. n \<notin> set (L c) \<Longrightarrow> h n = l_rlinks s n"
    using dll_erase_ready [OF lists r] del by simp_all
  have tc: "the_comm k ?t = (if k = c then Some (m\<lparr>cm_requests := l\<rparr>) else the_comm k s)" for k
    by simp
  have other: "k \<noteq> c \<Longrightarrow> x \<in> set (L k) \<Longrightarrow> x \<notin> set (L c)" for k x
    using rep by (auto simp: ft_rep_def)
  have "ft_rep ?t ?L"
    unfolding ft_rep_def
  proof (intro conjI allI impI)
    fix k m' assume "the_comm k ?t = Some m'"
    then show "dll_rep (cm_requests m', l_rlinks ?t) (?L k)"
      using new ft_rep_other [OF rep, of k m' h] other [of k] same
      by (cases "k = c") (auto simp: tc)
  next
    fix k k' x assume "x \<in> set (?L k)" and "x \<in> set (?L k')"
    then have "x \<in> set (L k)" and "x \<in> set (L k')"
      using dist by (auto split: if_splits)
    then show "k = k'" using rep by (auto simp: ft_rep_def)
  next
    fix x assume none: "\<forall>k. x \<notin> set (?L k)"
    show "l_rlinks ?t x = dnode_fresh"
    proof (cases "x = r")
      case True
      with fresh show ?thesis by simp
    next
      case False
      with none have "\<forall>k. x \<notin> set (L k)" by (metis fun_upd_apply in_set_remove1)
      with rep same show ?thesis by (auto simp: ft_rep_def)
    qed
  qed
  moreover have "ft_erase_request c r s = Some ?t" using m del by (simp add: ft_erase_request_def)
  ultimately show ?thesis using fresh by blast
qed

lemma ft_push_request_rep:
  assumes rep: "ft_rep s L" and m: "the_comm c s = Some m" and r: "\<And>k. r \<notin> set (L k)"
  shows "\<exists>m' h. ft_push_request c r s = Some (set_comm c (m\<lparr>cm_requests := m'\<rparr>) (s\<lparr>l_rlinks := h\<rparr>)) \<and>
     ft_rep (set_comm c (m\<lparr>cm_requests := m'\<rparr>) (s\<lparr>l_rlinks := h\<rparr>)) (L(c := L c @ [r]))"
proof -
  let ?lh = "(cm_requests m, l_rlinks s)"
  obtain l h where add: "dll_push_back (Some r) ?lh = (l, h)" by (metis prod.exhaust)
  let ?t = "set_comm c (m\<lparr>cm_requests := l\<rparr>) (s\<lparr>l_rlinks := h\<rparr>)"
  let ?L = "L(c := L c @ [r])"
  have lists: "dll_rep ?lh (L c)" using rep m by (simp add: ft_rep_def)
  have fresh: "snd ?lh r = dnode_fresh" using rep r by (simp add: ft_rep_def)
  have new: "dll_rep (l, h) (L c @ [r])"
    and same: "\<And>n. n \<noteq> r \<Longrightarrow> n \<notin> set (L c) \<Longrightarrow> h n = l_rlinks s n"
    using dll_push_back_ready [OF lists fresh r] add by simp_all
  have tc: "the_comm k ?t = (if k = c then Some (m\<lparr>cm_requests := l\<rparr>) else the_comm k s)" for k
    by simp
  have other: "k \<noteq> c \<Longrightarrow> x \<in> set (L k) \<Longrightarrow> x \<noteq> r \<and> x \<notin> set (L c)" for k x
    using rep r by (auto simp: ft_rep_def)
  have "ft_rep ?t ?L"
    unfolding ft_rep_def
  proof (intro conjI allI impI)
    fix k m' assume "the_comm k ?t = Some m'"
    then show "dll_rep (cm_requests m', l_rlinks ?t) (?L k)"
      using new ft_rep_other [OF rep, of k m' h] other [of k] same
      by (cases "k = c") (auto simp: tc)
  next
    fix k k' x assume "x \<in> set (?L k)" and "x \<in> set (?L k')"
    then show "k = k'" using rep r by (auto simp: ft_rep_def split: if_splits)
  next
    fix x assume "\<forall>k. x \<notin> set (?L k)"
    then have "x \<noteq> r" and "\<forall>k. x \<notin> set (L k)" by (auto split: if_splits)
    with rep same show "l_rlinks ?t x = dnode_fresh" by (auto simp: ft_rep_def)
  qed
  moreover have "ft_push_request c r s = Some ?t" using m add by (simp add: ft_push_request_def)
  ultimately show ?thesis by blast
qed

text \<open>The lookup of the communicator that a message came from does not have to wait.\<close>

definition lookup_now :: "cid \<Rightarrow> 'f lfi \<Rightarrow> bool" where
  "lookup_now c s =
     (case map_of (l_comms s) c of
        None \<Rightarrow> True | Some None \<Rightarrow> False | Some (Some m) \<Rightarrow> cm_is_ready m \<noteq> NOT_READY)"

lemma get_comm_now:
  "lookup_now c s \<Longrightarrow> get_comm_internal w c s = Some (map_option (\<lambda>_. c) (the_comm c s), s)"
  by (auto simp: lookup_now_def get_comm_internal_def the_comm_def split: option.splits)

lemma quiet_lookup:
  assumes "quiet s t"
  shows "lookup_now c t = lookup_now c s"
  by (rule quiet_comm_entry [OF assms, of c]) (auto simp: lookup_now_def dest: comm_core_eqD(1))

lemma touch_comm_frame [simp]:
  "l_reqs (touch_comm w p s) = l_reqs s" "ep_of e (touch_comm w p s) = ep_of e s"
  "l_rlinks (touch_comm w p s) = l_rlinks s" "l_clinks (touch_comm w p s) = l_clinks s"
  "l_env (touch_comm w p s) = l_env s" "l_ctxs (touch_comm w p s) = l_ctxs s"
  "l_free (touch_comm w p s) = l_free s" "l_next_ctx (touch_comm w p s) = l_next_ctx s"
  "l_created (touch_comm w p s) = l_created s" "l_waits (touch_comm w p s) = l_waits s"
  "l_log (touch_comm w p s) = l_log s" "l_futs (touch_comm w p s) = l_futs s"
  "l_next_gid (touch_comm w p s) = l_next_gid s"
  by (simp_all add: touch_comm_def clock_now_def fab_def case_prod_beta Let_def split: option.splits)

lemma touch_comm_comms:
  "the_comm c (touch_comm w p s) = Some m \<Longrightarrow>
   \<exists>m'. the_comm c s = Some m' \<and> cm_requests m = cm_requests m' \<and> cm_is_ready m = cm_is_ready m' \<and>
     cm_is_canceled m = cm_is_canceled m' \<and> cm_endpoint m = cm_endpoint m' \<and>
     cm_heartbeat_req m = cm_heartbeat_req m' \<and> cm_rank_peer m = cm_rank_peer m'"
  by (auto simp: touch_comm_def clock_now_def fab_def case_prod_beta Let_def split: option.splits if_splits)

lemma ft_erase_request_frame:
  assumes "ft_erase_request c r s = Some t"
  shows "l_reqs t = l_reqs s" "l_env t = l_env s" "ep_of e t = ep_of e s" "l_ctxs t = l_ctxs s"
    "l_free t = l_free s" "l_next_ctx t = l_next_ctx s" "l_created t = l_created s" "l_futs t = l_futs s"
    "l_waits t = l_waits s" "l_log t = l_log s" "l_clinks t = l_clinks s" "l_next_gid t = l_next_gid s"
  using assms by (auto simp: ft_erase_request_def case_prod_beta Let_def split: bind_splits)

lemma lookup_now_set:
  "lookup_now k (set_comm c m s) = (if k = c then cm_is_ready m \<noteq> NOT_READY else lookup_now k s)"
  by (simp add: lookup_now_def set_comm_def map_of_update)

lemma lookup_now_comm: "the_comm c s = Some m \<Longrightarrow> lookup_now c s \<longleftrightarrow> cm_is_ready m \<noteq> NOT_READY"
  by (auto simp: lookup_now_def the_comm_def split: option.splits)

lemma lookup_now_links [simp]: "lookup_now c (s\<lparr>l_rlinks := h\<rparr>) = lookup_now c s"
  by (simp add: lookup_now_def)

text \<open>
  \<open>on_request_complete\<close> of a request in flight: it leaves its communicator's list, nothing else moves.
\<close>

lemma on_request_complete_rep:
  assumes rep: "ft_rep s L" and q: "l_reqs s r = Some q" and m: "the_comm (rq_comm q) s = Some m"
    and r: "r \<in> set (L (rq_comm q))"
    and now: "err = LFI_SUCCESS \<Longrightarrow> rq_source q \<noteq> rq_comm_id q \<Longrightarrow> lookup_now (rq_source q) s"
  shows "\<exists>t. on_request_complete w r err s = Some t \<and>
     ft_rep t (L(rq_comm q := remove1 r (L (rq_comm q)))) \<and>
     l_reqs t = l_reqs s \<and> l_env t = l_env s \<and> l_ctxs t = l_ctxs s \<and> l_free t = l_free s \<and>
     l_next_ctx t = l_next_ctx s \<and> l_created t = l_created s \<and> l_waits t = l_waits s \<and>
     quiet s t \<and> (err \<noteq> LFI_SUCCESS \<longrightarrow> l_fab t = l_fab s) \<and>
     (\<forall>e. ep_callbacks (ep_of e t) = ep_callbacks (ep_of e s))"
proof -
  let ?L = "L(rq_comm q := remove1 r (L (rq_comm q)))"
  obtain s1 m' h where s1: "s1 = set_comm (rq_comm q) (m\<lparr>cm_requests := m'\<rparr>) (s\<lparr>l_rlinks := h\<rparr>)"
    and del: "ft_erase_request (rq_comm q) r s = Some s1" and rep1: "ft_rep s1 ?L"
    using ft_erase_request_rep [OF rep m r] by blast
  obtain s2 where s2: "s2 = (if any_comm (rq_comm_id q)
     then upd_ep (rq_endpoint q) (\<lambda>x. x\<lparr>ep_any_reqs := removeAll r (ep_any_reqs x)\<rparr>) s1 else s1)" by simp
  have rep2: "ft_rep s2 ?L" by (rule ft_rep_cong [OF rep1]) (auto simp: s2 split: if_splits)
  have q1: "quiet s s1" unfolding s1 by (rule quiet_set_comm [OF m]) (simp add: comm_core_def)
  have "quiet s1 s2" by (auto simp: s2 ep_core_def intro: quiet_upd_ep)
  with q1 have q2: "quiet s s2" by (rule quiet_trans)
  have fab2: "l_fab s2 = l_fab s" by (simp add: s2 s1)
  have look: "lookup_now k s2 = lookup_now k s" for k
    using m by (auto simp: s1 s2 lookup_now_def [of k "upd_ep _ _ _"] lookup_now_def [of k "set_comm _ _ _", symmetric]
        lookup_now_set lookup_now_comm)
  have touched: "ft_rep (touch_comm w p s2) ?L" for p
    by (rule ft_rep_cong [OF rep2]) (auto dest: touch_comm_comms)
  have core: "on_request_complete w r err s =
      (if err \<noteq> LFI_SUCCESS then Some s2
       else if rq_source q \<noteq> rq_comm_id q
       then do { (target, s3) \<leftarrow> get_comm_internal w (rq_source q) s2; Some (touch_comm w target s3) }
       else Some (touch_comm w (Some (rq_comm q)) s2))"
    unfolding on_request_complete_def s2 using q del by simp
  have "\<exists>t. on_request_complete w r err s = Some t \<and>
      (t = s2 \<or> (err = LFI_SUCCESS \<and> (\<exists>p. t = touch_comm w p s2)))"
  proof (cases "err = LFI_SUCCESS \<and> rq_source q \<noteq> rq_comm_id q")
    case True
    with now have "lookup_now (rq_source q) s2" by (simp add: look)
    then show ?thesis using True unfolding core by (auto simp: get_comm_now)
  next
    case False
    then show ?thesis unfolding core by auto
  qed
  then obtain t where t: "on_request_complete w r err s = Some t"
    and shape: "t = s2 \<or> (err = LFI_SUCCESS \<and> (\<exists>p. t = touch_comm w p s2))" by blast
  have "ft_rep t ?L" using shape rep2 touched by blast
  moreover have "l_reqs t = l_reqs s" "l_env t = l_env s" "l_ctxs t = l_ctxs s" "l_free t = l_free s"
    "l_next_ctx t = l_next_ctx s" "l_created t = l_created s" "l_waits t = l_waits s"
    using shape by (auto simp: s1 s2)
  moreover have "quiet s t" using shape q2 by (auto intro: quiet_trans quiet_touch)
  moreover have "err \<noteq> LFI_SUCCESS \<longrightarrow> l_fab t = l_fab s" using shape fab2 by auto
  moreover have "ep_callbacks (ep_of e s2) = ep_callbacks (ep_of e s)" for e by (simp add: s2 s1)
  then have "\<forall>e. ep_callbacks (ep_of e t) = ep_callbacks (ep_of e s)" using shape by auto
  ultimately show ?thesis using t by blast
qed

subsection \<open>What completing a request does\<close>

text \<open>The step of \<open>complete\<close> after the bookkeeping of the fault tolerance.\<close>

definition complete_tail :: "rid \<Rightarrow> int \<Rightarrow> request \<Rightarrow> 'f lfi \<Rightarrow> 'f lfi" where
  "complete_tail r err q s =
     queue_callback q err (shared_wait_signal q
       (upd_req r (\<lambda>q. q\<lparr>rq_error := err, rq_wait_context := None\<rparr>) (unassign_of q s)))"

lemma queue_callback_frame [simp]:
  "l_reqs (queue_callback q err s) = l_reqs s" "the_comm c (queue_callback q err s) = the_comm c s"
  "l_rlinks (queue_callback q err s) = l_rlinks s" "l_clinks (queue_callback q err s) = l_clinks s"
  "l_env (queue_callback q err s) = l_env s" "l_ctxs (queue_callback q err s) = l_ctxs s"
  "l_free (queue_callback q err s) = l_free s" "l_next_ctx (queue_callback q err s) = l_next_ctx s"
  "l_created (queue_callback q err s) = l_created s" "l_waits (queue_callback q err s) = l_waits s"
  "l_log (queue_callback q err s) = l_log s" "l_fab (queue_callback q err s) = l_fab s" "l_comms (queue_callback q err s) = l_comms s"
  by (simp_all add: queue_callback_def split: option.splits)

lemma shared_wait_signal_frame [simp]:
  "l_reqs (shared_wait_signal q s) = l_reqs s" "the_comm c (shared_wait_signal q s) = the_comm c s"
  "l_rlinks (shared_wait_signal q s) = l_rlinks s" "l_clinks (shared_wait_signal q s) = l_clinks s"
  "l_env (shared_wait_signal q s) = l_env s" "l_ctxs (shared_wait_signal q s) = l_ctxs s"
  "l_free (shared_wait_signal q s) = l_free s" "l_next_ctx (shared_wait_signal q s) = l_next_ctx s"
  "l_created (shared_wait_signal q s) = l_created s" "l_log (shared_wait_signal q s) = l_log s"
  "ep_of e (shared_wait_signal q s) = ep_of e s" "l_fab (shared_wait_signal q s) = l_fab s" "l_comms (shared_wait_signal q s) = l_comms s"
  by (simp_all add: shared_wait_signal_def split: option.splits)

lemma complete_tail_frame [simp]:
  "l_reqs (complete_tail r err q s) =
     (l_reqs s)(r := map_option (\<lambda>q. q\<lparr>rq_error := err, rq_wait_context := None\<rparr>) (l_reqs s r))"
  "l_env (complete_tail r err q s) = l_env s" "l_fab (complete_tail r err q s) = l_fab s"
  "the_comm c (complete_tail r err q s) = the_comm c s" "l_rlinks (complete_tail r err q s) = l_rlinks s"
  by (simp_all add: complete_tail_def fun_eq_iff)

lemma ctx_inv_cong:
  "ctx_inv s \<Longrightarrow> l_reqs t = l_reqs s \<Longrightarrow> l_ctxs t = l_ctxs s \<Longrightarrow> l_free t = l_free s \<Longrightarrow>
   l_next_ctx t = l_next_ctx s \<Longrightarrow> l_created t = l_created s \<Longrightarrow> ctx_inv t"
  by (simp add: ctx_inv_def holds_ctx_def)

lemma complete_tail_ctx:
  assumes "ctx_inv s" and "l_reqs s r = Some q"
  shows "ctx_inv (complete_tail r err q s)"
proof -
  have "ctx_inv (upd_req r (\<lambda>q. q\<lparr>rq_error := err, rq_wait_context := None\<rparr>) (unassign_of q s))"
    using assms by (intro ctx_drop_inv) simp_all
  then show ?thesis by (rule ctx_inv_cong) (simp_all add: complete_tail_def)
qed

text \<open>
  A request in flight, with the lists in order and the lookup of its source immediate: \<open>complete\<close>
  returns, the request is out of flight with the given error, and both invariants are kept.
\<close>

lemma complete_in_flight:
  assumes ft: "ft_inv s" and cx: "ctx_inv s" and q: "l_reqs s r = Some q"
    and busy: "rq_wait_context q \<noteq> None" and m: "the_comm (rq_comm q) s = Some m"
    and now: "err = LFI_SUCCESS \<Longrightarrow> rq_source q \<noteq> rq_comm_id q \<Longrightarrow> lookup_now (rq_source q) s"
    and on: "LFI_fault_tolerance (l_env s)"
  shows "\<exists>t. complete w r err s = Some t \<and> ft_inv t \<and> ctx_inv t \<and>
     l_reqs t = (l_reqs s)(r \<mapsto> q\<lparr>rq_error := err, rq_wait_context := None\<rparr>) \<and> l_env t = l_env s"
proof -
  obtain L where rep: "ft_rep s L" and sync: "ft_sync s L" using ft by (auto simp: ft_inv_def)
  let ?c = "rq_comm q"
  let ?L = "L(?c := remove1 r (L ?c))"
  have r: "r \<in> set (L ?c)" using sync q busy by (auto simp: ft_sync_def in_flight_def)
  obtain s1 where s1: "on_request_complete w r err s = Some s1" and rep1: "ft_rep s1 ?L"
    and same: "l_reqs s1 = l_reqs s" "l_env s1 = l_env s" "l_ctxs s1 = l_ctxs s" "l_free s1 = l_free s"
      "l_next_ctx s1 = l_next_ctx s" "l_created s1 = l_created s"
    using on_request_complete_rep [OF rep q m r now, where w = w] by blast
  let ?t = "complete_tail r err q s1"
  have t: "complete w r err s = Some ?t"
    using q busy on s1 same by (auto simp: complete_def complete_tail_def Let_def)
  have reqs: "l_reqs ?t = (l_reqs s)(r \<mapsto> q\<lparr>rq_error := err, rq_wait_context := None\<rparr>)"
    using q same by (auto simp: complete_tail_def fun_eq_iff)
  have "ft_rep ?t ?L" by (rule ft_rep_cong [OF rep1]) (auto simp: complete_tail_def)
  moreover have "ft_sync ?t ?L"
  proof -
    have "distinct (L ?c)" using rep m by (auto simp: ft_rep_def dest: dll_rep_distinct)
    then show ?thesis
      using sync q unfolding ft_sync_def in_flight_def reqs by auto
  qed
  ultimately have "ft_inv ?t" by (auto simp: ft_inv_def)
  moreover have "ctx_inv ?t"
    using q same by (intro complete_tail_ctx ctx_inv_cong [OF cx]) simp_all
  ultimately show ?thesis using t reqs same by (auto simp: complete_tail_def)
qed

subsection \<open>The invariant of the library\<close>

text \<open>Every request in flight belongs to a communicator that still exists.\<close>

definition comms_alive :: "'f lfi \<Rightarrow> bool" where
  "comms_alive s \<longleftrightarrow> (\<forall>c r. in_flight s c r \<longrightarrow> the_comm c s \<noteq> None)"

definition rid_inv :: "'f lfi \<Rightarrow> bool" where
  "rid_inv s \<longleftrightarrow> (\<forall>r. l_next_rid s \<le> r \<longrightarrow> l_reqs s r = None)"

definition lfi_inv :: "'f lfi \<Rightarrow> bool" where
  "lfi_inv s \<longleftrightarrow> ctx_inv s \<and> rid_inv s \<and> (LFI_fault_tolerance (l_env s) \<longrightarrow> ft_inv s \<and> comms_alive s)"

lemma quiet_complete_tail: "quiet s (complete_tail r err q s)"
proof -
  have 1: "quiet s (unassign_of q s)"
    by (simp add: quiet_def unassign_of_def ctx_unassign_def split: option.splits)
  have 2: "quiet t (shared_wait_signal q t)" for t :: "'b lfi"
    by (simp add: quiet_def shared_wait_signal_def split: option.splits)
  have 3: "quiet t (queue_callback q err t)" for t :: "'b lfi"
    by (auto simp: queue_callback_def ep_core_def intro: quiet_upd_ep split: option.splits)
  show ?thesis
    unfolding complete_tail_def
    by (rule quiet_trans [OF _ 3], rule quiet_trans [OF _ 2], rule quiet_trans [OF 1]) simp
qed

text \<open>The callbacks that completing \<open>q\<close> adds to endpoint \<open>e\<close>.\<close>

definition callback_of :: "ep_id \<Rightarrow> int \<Rightarrow> request \<Rightarrow> (cb \<times> int \<times> u64) list" where
  "callback_of e err q =
     (if e \<noteq> rq_endpoint q then []
      else case rq_callback q of None \<Rightarrow> [] | Some f \<Rightarrow> [(f, err, rq_callback_ctx q)])"

lemma complete_tail_callbacks:
  "ep_callbacks (ep_of e (complete_tail r err q s)) = ep_callbacks (ep_of e s) @ callback_of e err q"
  by (simp add: complete_tail_def queue_callback_def callback_of_def split: option.splits)

text \<open>
  The whole effect of \<open>complete\<close> on a state in which the invariant holds: it returns, keeps the
  invariant, is quiet, and sets the error of the request only if the request was in flight.
\<close>

lemma complete_ok:
  assumes inv: "lfi_inv s" and q: "l_reqs s r = Some q"
    and now: "err = LFI_SUCCESS \<Longrightarrow> LFI_fault_tolerance (l_env s) \<Longrightarrow> rq_source q \<noteq> rq_comm_id q \<Longrightarrow>
      lookup_now (rq_source q) s"
  obtains t where "complete w r err s = Some t" and "lfi_inv t" and "quiet s t"
    and "l_reqs t = (if rq_wait_context q = None then l_reqs s
                     else (l_reqs s)(r \<mapsto> q\<lparr>rq_error := err, rq_wait_context := None\<rparr>))"
    and "err \<noteq> LFI_SUCCESS \<Longrightarrow> l_fab t = l_fab s"
    and "\<And>e. ep_callbacks (ep_of e t) =
          ep_callbacks (ep_of e s) @ (if rq_wait_context q = None then [] else callback_of e err q)"
proof (cases "rq_wait_context q = None")
  case True
  then have "complete w r err s = Some s" using q by (simp add: complete_def)
  then show ?thesis using that inv True by simp
next
  case busy: False
  have cx: "ctx_inv s" using inv by (simp add: lfi_inv_def)
  show ?thesis
  proof (cases "LFI_fault_tolerance (l_env s)")
    case off: False
    let ?t = "complete_tail r err q s"
    have t: "complete w r err s = Some ?t"
      using q busy off by (auto simp: complete_def complete_tail_def Let_def)
    have "rid_inv ?t"
      using inv quiet_complete_tail [of s r err q] q unfolding lfi_inv_def rid_inv_def quiet_def by auto
    then have "lfi_inv ?t"
      using off complete_tail_ctx [OF cx q] by (simp add: lfi_inv_def)
    then show ?thesis by (rule that [OF t _ quiet_complete_tail]) (use busy q complete_tail_callbacks [of _ r err q s] in auto)
  next
    case on: True
    then have ft: "ft_inv s" and alive: "comms_alive s" using inv by (simp_all add: lfi_inv_def)
    obtain m where m: "the_comm (rq_comm q) s = Some m"
      using alive q busy unfolding comms_alive_def in_flight_def by blast
    obtain L where rep: "ft_rep s L" and sync: "ft_sync s L" using ft by (auto simp: ft_inv_def)
    have r: "r \<in> set (L (rq_comm q))" using sync q busy by (auto simp: ft_sync_def in_flight_def)
    obtain s1 where s1: "on_request_complete w r err s = Some s1" and same: "l_reqs s1 = l_reqs s"
      and q1: "quiet s s1" and f1: "err \<noteq> LFI_SUCCESS \<longrightarrow> l_fab s1 = l_fab s"
      and cb1: "\<forall>e. ep_callbacks (ep_of e s1) = ep_callbacks (ep_of e s)"
      using on_request_complete_rep [OF rep q m r now, where w = w] on by blast
    obtain t where t: "complete w r err s = Some t" and inv': "ft_inv t" "ctx_inv t"
      and reqs: "l_reqs t = (l_reqs s)(r \<mapsto> q\<lparr>rq_error := err, rq_wait_context := None\<rparr>)"
      and env: "l_env t = l_env s"
      using complete_in_flight [OF ft cx q busy m now on, where w = w] on by blast
    have tt: "t = complete_tail r err q s1"
      using t q busy on s1 same by (auto simp: complete_def complete_tail_def Let_def)
    have qt: "quiet s t" unfolding tt by (rule quiet_trans [OF q1 quiet_complete_tail])
    have "in_flight t c k \<Longrightarrow> in_flight s c k" for c k
      using q by (auto simp: in_flight_def reqs split: if_splits)
    then have "comms_alive t"
      using alive quiet_comm_none [OF qt] unfolding comms_alive_def by blast
    moreover have "rid_inv t"
      using inv qt reqs q unfolding lfi_inv_def rid_inv_def quiet_def by auto
    ultimately have "lfi_inv t" using inv' by (simp add: lfi_inv_def)
    then show ?thesis by (rule that [OF t _ qt]) (use f1 reqs busy tt cb1 complete_tail_callbacks [of _ r err q s1] in auto)
  qed
qed

text \<open>What the invariant reads.\<close>

lemma lfi_inv_cong:
  assumes inv: "lfi_inv s" and reqs: "l_reqs t = l_reqs s" and env: "l_env t = l_env s"
    and cx: "l_ctxs t = l_ctxs s" "l_free t = l_free s" "l_next_ctx t = l_next_ctx s" "l_created t = l_created s"
    and rids: "l_next_rid t = l_next_rid s" and links: "l_rlinks t = l_rlinks s"
    and comms: "\<And>c. map_option cm_requests (the_comm c t) = map_option cm_requests (the_comm c s)"
  shows "lfi_inv t"
proof -
  have none: "the_comm c t = None \<longleftrightarrow> the_comm c s = None" for c
    using comms [of c] by (metis option.map_disc_iff)
  have "ft_rep t L" if "ft_rep s L" for L
  proof (rule ft_rep_cong [OF that links])
    fix c m assume "the_comm c t = Some m"
    then show "\<exists>m'. the_comm c s = Some m' \<and> cm_requests m = cm_requests m'"
      using comms [of c] by (cases "the_comm c s") auto
  qed
  moreover have "ft_sync t L = ft_sync s L" for L by (simp add: ft_sync_def in_flight_def reqs)
  ultimately have "ft_inv s \<Longrightarrow> ft_inv t" by (auto simp: ft_inv_def)
  moreover have "ctx_inv t"
    using inv cx reqs by (intro ctx_inv_cong [of s t]) (simp_all add: lfi_inv_def)
  moreover have "comms_alive t = comms_alive s" by (simp add: comms_alive_def in_flight_def reqs none)
  ultimately show ?thesis using inv env rids reqs by (simp add: lfi_inv_def rid_inv_def)
qed

lemma lfi_inv_fab [simp]: "lfi_inv s \<Longrightarrow> lfi_inv (s\<lparr>l_fab := f\<rparr>)"
  by (erule lfi_inv_cong) simp_all

lemma lfi_inv_upd_ep [simp]: "lfi_inv s \<Longrightarrow> lfi_inv (upd_ep e g s)"
  by (erule lfi_inv_cong) simp_all

lemma lfi_inv_upd_comm:
  "lfi_inv s \<Longrightarrow> (\<And>m. cm_requests (g m) = cm_requests m) \<Longrightarrow> lfi_inv (upd_comm c g s)"
  by (erule lfi_inv_cong) (auto simp: option.map_comp comp_def)

lemma lfi_inv_upd_req:
  assumes "lfi_inv s" and "\<And>q. rq_wait_context (g q) = rq_wait_context q" "\<And>q. rq_comm (g q) = rq_comm q"
  shows "lfi_inv (upd_req r g s)"
proof -
  let ?t = "upd_req r g s"
  have fl: "in_flight ?t c j = in_flight s c j" for c j using assms(2,3) by (auto simp: in_flight_def)
  have h: "holds_ctx ?t j c = holds_ctx s j c" for j c
    using assms(2) by (auto simp: holds_ctx_upd) (auto simp: holds_ctx_def)
  have "ft_rep ?t L" if "ft_rep s L" for L by (rule ft_rep_cong [OF that]) auto
  then have "ft_inv s \<Longrightarrow> ft_inv ?t" by (auto simp: ft_inv_def ft_sync_def fl)
  then show ?thesis
    using assms(1) by (auto simp: lfi_inv_def ctx_inv_def comms_alive_def rid_inv_def fl h)
qed

lemma ctx_destroy_frame [simp]:
  "l_reqs (ctx_destroy k s) = l_reqs s" "ep_of e (ctx_destroy k s) = ep_of e s"
  "the_comm c (ctx_destroy k s) = the_comm c s" "l_rlinks (ctx_destroy k s) = l_rlinks s"
  "l_env (ctx_destroy k s) = l_env s" "l_comms (ctx_destroy k s) = l_comms s"
  "l_fab (ctx_destroy k s) = l_fab s" "l_next_rid (ctx_destroy k s) = l_next_rid s"
  "l_log (ctx_destroy k s) = l_log s" "l_free (ctx_destroy k s) = l_free s @ [k]"
  "l_ctxs (ctx_destroy k s) = (l_ctxs s)(k := None)"
  by (simp_all add: ctx_destroy_def ctx_unassign_def)

lemma lfi_inv_destroy:
  assumes inv: "lfi_inv s" and c: "l_ctxs s c = None" "c \<notin> set (l_free s)" "c < l_next_ctx s"
  shows "lfi_inv (ctx_destroy c s)"
proof -
  have "ctx_inv (ctx_destroy c s)" using inv c by (intro ctx_destroy_inv) (simp_all add: lfi_inv_def)
  moreover have "ft_rep (ctx_destroy c s) L" if "ft_rep s L" for L by (rule ft_rep_cong [OF that]) auto
  then have "ft_inv s \<Longrightarrow> ft_inv (ctx_destroy c s)" by (auto simp: ft_inv_def ft_sync_def in_flight_def)
  ultimately show ?thesis using inv by (auto simp: lfi_inv_def rid_inv_def comms_alive_def in_flight_def)
qed

text \<open>A context that is assigned belongs to a request in flight and is not free.\<close>

lemma get_request_flight:
  assumes "lfi_inv s" and "get_request c s = Some r"
  obtains q where "l_reqs s r = Some q" and "rq_wait_context q = Some c" and "c \<notin> set (l_free s)"
    and "c < l_next_ctx s"
proof -
  have cx: "ctx_inv s" using assms(1) by (simp add: lfi_inv_def)
  have held: "holds_ctx s r c" using assms(2) ctx_assigned [OF cx] by (simp add: get_request_def)
  have "c \<notin> set (l_free s)" 
    using cx assms(2) unfolding ctx_inv_def get_request_def by (metis option.distinct(1))
  moreover have "c < l_next_ctx s" using cx held unfolding ctx_inv_def by blast
  ultimately show ?thesis using that held by (auto simp: holds_ctx_def)
qed

subsection \<open>Putting a request in flight\<close>

text \<open>
  A posting function gives the request a context, fills its fields, queues the operation and
  registers the request. In between the request is in flight but not yet in a list.
\<close>

definition submitting :: "rid \<Rightarrow> 'f lfi \<Rightarrow> bool" where
  "submitting r s \<longleftrightarrow> ctx_inv s \<and> rid_inv s \<and>
     (LFI_fault_tolerance (l_env s) \<longrightarrow> comms_alive s \<and>
       (\<exists>L. ft_rep s L \<and> (\<forall>c k. k \<in> set (L c) \<longleftrightarrow> in_flight s c k \<and> k \<noteq> r)))"

lemma store_new_context_frame [simp]:
  "l_rlinks (snd (store_new_context r s)) = l_rlinks s" "l_env (snd (store_new_context r s)) = l_env s"
  "the_comm c (snd (store_new_context r s)) = the_comm c s" "ep_of e (snd (store_new_context r s)) = ep_of e s"
  "l_clinks (snd (store_new_context r s)) = l_clinks s" "l_fab (snd (store_new_context r s)) = l_fab s"
  "l_log (snd (store_new_context r s)) = l_log s" "l_comms (snd (store_new_context r s)) = l_comms s"
  "l_futs (snd (store_new_context r s)) = l_futs s"
  by (simp_all add: store_new_context_def case_prod_beta Let_def)

lemma store_new_context_reqs:
  "l_reqs (snd (store_new_context r s)) =
     (l_reqs s)(r := map_option (\<lambda>q. q\<lparr>rq_wait_context := Some (fst (store_new_context r s))\<rparr>) (l_reqs s r))"
  by (simp add: store_new_context_def case_prod_beta Let_def fun_eq_iff)

lemma store_new_context_next: "l_next_rid (snd (store_new_context r s)) = l_next_rid s"
  by (simp add: store_new_context_def case_prod_beta Let_def ctx_create_def)

lemma submit_start:
  assumes inv: "lfi_inv s" and q: "l_reqs s r = Some q" and idle: "rq_wait_context q = None"
    and m: "the_comm (rq_comm q) s = Some m"
  shows "submitting r (snd (store_new_context r s))"
proof -
  let ?t = "snd (store_new_context r s)"
  have cx: "ctx_inv ?t" using inv q idle by (intro store_new_context_inv) (simp_all add: lfi_inv_def)
  have rids: "rid_inv ?t"
    using inv q unfolding lfi_inv_def rid_inv_def store_new_context_next store_new_context_reqs by auto
  have fl: "in_flight ?t c k \<longleftrightarrow> (if k = r then c = rq_comm q else in_flight s c k)" for c k
    using q by (auto simp: in_flight_def store_new_context_reqs)
  have old: "\<not> in_flight s c r" for c using q idle by (simp add: in_flight_def)
  show ?thesis
  proof (cases "LFI_fault_tolerance (l_env s)")
    case False
    with cx rids show ?thesis by (simp add: submitting_def)
  next
    case True
    then have alive: "comms_alive s" and ft: "ft_inv s" using inv by (simp_all add: lfi_inv_def)
    obtain L where rep: "ft_rep s L" and sync: "ft_sync s L" using ft by (auto simp: ft_inv_def)
    have "ft_rep ?t L" by (rule ft_rep_cong [OF rep]) auto
    moreover have "k \<in> set (L c) \<longleftrightarrow> in_flight ?t c k \<and> k \<noteq> r" for c k
      using sync old by (auto simp: ft_sync_def fl)
    moreover have "comms_alive ?t" using alive m by (auto simp: comms_alive_def fl)
    ultimately show ?thesis using cx rids by (auto simp: submitting_def)
  qed
qed

lemma submitting_upd_req:
  assumes "submitting r s" and "\<And>q. rq_wait_context (g q) = rq_wait_context q" "\<And>q. rq_comm (g q) = rq_comm q"
  shows "submitting r (upd_req k g s)"
proof -
  let ?t = "upd_req k g s"
  have fl: "in_flight ?t c j = in_flight s c j" for c j using assms(2,3) by (auto simp: in_flight_def)
  have h: "holds_ctx ?t j c = holds_ctx s j c" for j c
    using assms(2) by (auto simp: holds_ctx_upd) (auto simp: holds_ctx_def)
  have "ft_rep ?t L" if "ft_rep s L" for L by (rule ft_rep_cong [OF that]) auto
  then show ?thesis
    using assms(1) by (auto simp: submitting_def ctx_inv_def comms_alive_def rid_inv_def fl h)
qed

lemma submitting_upd_ep: "submitting r s \<Longrightarrow> submitting r (upd_ep e g s)"
proof -
  assume sub: "submitting r s"
  let ?t = "upd_ep e g s"
  have "ft_rep ?t L" if "ft_rep s L" for L by (rule ft_rep_cong [OF that]) auto
  then show ?thesis
    using sub by (auto simp: submitting_def ctx_inv_def comms_alive_def rid_inv_def in_flight_def holds_ctx_def)
qed

lemma ft_comms_push_frame [simp]:
  "l_reqs (ft_comms_push e c s) = l_reqs s" "l_env (ft_comms_push e c s) = l_env s"
  "the_comm k (ft_comms_push e c s) = the_comm k s" "l_rlinks (ft_comms_push e c s) = l_rlinks s"
  "l_ctxs (ft_comms_push e c s) = l_ctxs s" "l_free (ft_comms_push e c s) = l_free s"
  "l_next_ctx (ft_comms_push e c s) = l_next_ctx s" "l_created (ft_comms_push e c s) = l_created s"
  "l_next_rid (ft_comms_push e c s) = l_next_rid s" "l_fab (ft_comms_push e c s) = l_fab s"
  by (simp_all add: ft_comms_push_def case_prod_beta Let_def)

lemma quiet_ft_comms_push: "quiet s (ft_comms_push e c s)"
  by (simp add: quiet_def ft_comms_push_def case_prod_beta Let_def ep_core_def)

text \<open>What \<open>register_request\<close> does before it pushes the request.\<close>

definition register_comm :: "rid \<Rightarrow> cid \<Rightarrow> comm \<Rightarrow> 'f lfi \<Rightarrow> 'f lfi" where
  "register_comm r c m s =
     (if any_comm (cm_rank_peer m)
      then upd_ep (cm_endpoint m) (\<lambda>x. x\<lparr>ep_any_reqs := List.insert r (ep_any_reqs x)\<rparr>) s
      else if \<not> d_inserted (l_clinks s c) then ft_comms_push (cm_endpoint m) c s
      else s)"

lemma register_comm_frame [simp]:
  "l_reqs (register_comm r c m s) = l_reqs s" "l_env (register_comm r c m s) = l_env s"
  "the_comm k (register_comm r c m s) = the_comm k s" "l_rlinks (register_comm r c m s) = l_rlinks s"
  "l_ctxs (register_comm r c m s) = l_ctxs s" "l_free (register_comm r c m s) = l_free s"
  "l_next_ctx (register_comm r c m s) = l_next_ctx s" "l_created (register_comm r c m s) = l_created s"
  "l_next_rid (register_comm r c m s) = l_next_rid s" "l_fab (register_comm r c m s) = l_fab s"
  by (simp_all add: register_comm_def)

lemma quiet_register_comm: "quiet s (register_comm r c m s)"
  by (auto simp: register_comm_def ep_core_def intro: quiet_upd_ep quiet_ft_comms_push)

lemma submit_end:
  assumes sub: "submitting r s" and q: "l_reqs s r = Some q" and busy: "rq_wait_context q \<noteq> None"
    and m: "the_comm (rq_comm q) s = Some m"
  obtains t where "register_request r (rq_comm q) s = Some t" and "lfi_inv t" and "quiet s t"
    and "l_reqs t = l_reqs s" and "l_fab t = l_fab s"
proof (cases "LFI_fault_tolerance (l_env s)")
  case False
  then have "register_request r (rq_comm q) s = Some s" by (simp add: register_request_def)
  then show ?thesis using that sub False by (simp add: submitting_def lfi_inv_def)
next
  case True
  let ?c = "rq_comm q"
  let ?s1 = "register_comm r ?c m s"
  obtain L where rep: "ft_rep s L" and sync: "\<And>c k. k \<in> set (L c) \<longleftrightarrow> in_flight s c k \<and> k \<noteq> r"
    using sub True by (auto simp: submitting_def)
  have rep1: "ft_rep ?s1 L" by (rule ft_rep_cong [OF rep]) auto
  have "the_comm ?c ?s1 = Some m" using m by simp
  moreover have "r \<notin> set (L k)" for k using sync by simp
  ultimately obtain l h t where push: "ft_push_request ?c r ?s1 = Some t"
    and t: "t = set_comm ?c (m\<lparr>cm_requests := l\<rparr>) (?s1\<lparr>l_rlinks := h\<rparr>)"
    and rept: "ft_rep t (L(?c := L ?c @ [r]))"
    using ft_push_request_rep [OF rep1] by blast
  have reg: "register_request r ?c s = Some t"
    using True m push by (simp add: register_request_def register_comm_def)
  have same: "l_reqs t = l_reqs s" "l_ctxs t = l_ctxs s" "l_free t = l_free s" "l_next_ctx t = l_next_ctx s"
    "l_created t = l_created s" "l_next_rid t = l_next_rid s" "l_fab t = l_fab s"
    by (simp_all add: t)
  have "quiet ?s1 t" unfolding t by (rule quiet_set_comm) (use m in \<open>simp_all add: comm_core_def\<close>)
  then have qt: "quiet s t" by (rule quiet_trans [OF quiet_register_comm])
  have "ft_sync t (L(?c := L ?c @ [r]))"
    using sync q busy by (auto simp: ft_sync_def in_flight_def same)
  with rept have "ft_inv t" by (auto simp: ft_inv_def)
  moreover have "comms_alive t"
    using sub True quiet_comm_none [OF qt] by (simp add: submitting_def comms_alive_def in_flight_def same)
  moreover have "ctx_inv t" using sub by (intro ctx_inv_cong [of s t]) (simp_all add: submitting_def same)
  moreover have "rid_inv t" using sub by (simp add: submitting_def rid_inv_def same)
  ultimately show ?thesis using that reg qt same by (simp add: lfi_inv_def)
qed

lemma new_request_inv:
  assumes inv: "lfi_inv s" and m: "the_comm c s = Some m"
  obtains t q where "new_request e c s = Some (l_next_rid s, t)" and "lfi_inv t"
    and "l_reqs t = (l_reqs s)(l_next_rid s \<mapsto> q)" and "rq_wait_context q = None" and "rq_comm q = c"
    and "rq_comm_id q = cm_rank_peer m" and "rq_endpoint q = e" and "rq_callback q = None"
    and "the_comm c t = Some m"
proof -
  let ?r = "l_next_rid s"
  obtain t q where new: "new_request e c s = Some (?r, t)" and reqs: "l_reqs t = (l_reqs s)(?r \<mapsto> q)"
    and q: "rq_wait_context q = None" "rq_comm q = c" "rq_comm_id q = cm_rank_peer m" "rq_endpoint q = e"
      "rq_callback q = None"
    and same: "l_rlinks t = (l_rlinks s)(?r := dnode_fresh)" "l_env t = l_env s" "l_ctxs t = l_ctxs s"
      "l_free t = l_free s" "l_next_ctx t = l_next_ctx s" "l_created t = l_created s"
      "l_next_rid t = Suc ?r" "l_comms t = l_comms s"
    using m by (simp add: new_request_def Let_def)
  have comms: "the_comm k t = the_comm k s" for k by (simp add: the_comm_def same)
  have unborn: "l_reqs s ?r = None" using inv by (simp add: lfi_inv_def rid_inv_def)
  have fl: "in_flight t k j = in_flight s k j" for k j using q unborn by (auto simp: in_flight_def reqs)
  have h: "holds_ctx t j k = holds_ctx s j k" for j k using q unborn by (auto simp: holds_ctx_def reqs)
  have "lfi_inv t"
    unfolding lfi_inv_def
  proof (intro conjI impI)
    show "ctx_inv t" using inv by (simp add: lfi_inv_def ctx_inv_def h same)
    show "rid_inv t" using inv by (simp add: lfi_inv_def rid_inv_def reqs same)
    assume "LFI_fault_tolerance (l_env t)"
    then have on: "LFI_fault_tolerance (l_env s)" by (simp add: same)
    then show "comms_alive t" using inv by (simp add: lfi_inv_def comms_alive_def fl comms)
    obtain L where rep: "ft_rep s L" and sync: "ft_sync s L" using on inv by (auto simp: lfi_inv_def ft_inv_def)
    have "l_rlinks s ?r = dnode_fresh"
      using rep sync unborn by (simp add: ft_rep_def ft_sync_def in_flight_def)
    then have "l_rlinks t = l_rlinks s" by (simp add: same fun_upd_idem)
    then have "ft_rep t L" by (intro ft_rep_cong [OF rep]) (simp_all add: comms)
    moreover have "ft_sync t L" using sync by (simp add: ft_sync_def fl)
    ultimately show "ft_inv t" by (auto simp: ft_inv_def)
  qed
  then show ?thesis using that new reqs q comms m by auto
qed

subsection \<open>Properties\<close>


text \<open>The concrete world: a request of communicator 7, registered and in flight.\<close>

lemma lfi_inv_new: "lfi_inv (lfi_new cfg f)"
proof -
  have "ft_rep (lfi_new cfg f) (\<lambda>_. [])"
    by (simp add: ft_rep_def the_comm_def lfi_new_def)
  moreover have "ft_sync (lfi_new cfg f) (\<lambda>_. [])" by (simp add: ft_sync_def in_flight_def lfi_new_def)
  ultimately have "ft_inv (lfi_new cfg f)" by (auto simp: ft_inv_def)
  then show ?thesis
    by (simp add: lfi_inv_def ctx_inv_def rid_inv_def comms_alive_def in_flight_def holds_ctx_def lfi_new_def)
qed

lemma sample_comm_7: "the_comm 7 sample_lfi = Some sample_comm"
  by (simp add: sample_lfi_def)

lemma sample_inv: "lfi_inv sample_lfi"
proof -
  have "ft_rep sample_lfi (\<lambda>_. [])"
    by (auto simp: ft_rep_def sample_simps map_of_update split: if_splits)
  moreover have "ft_sync sample_lfi (\<lambda>_. [])" by (simp add: ft_sync_def in_flight_def sample_simps)
  ultimately have "ft_inv sample_lfi" by (auto simp: ft_inv_def)
  then show ?thesis
    by (simp add: lfi_inv_def ctx_inv_def rid_inv_def comms_alive_def in_flight_def holds_ctx_def sample_simps)
qed

text \<open>A request created and put in flight on it, the only one there is.\<close>

definition sample_flying :: "sample lfi \<Rightarrow> rid \<Rightarrow> request \<Rightarrow> bool" where
  "sample_flying s r q \<longleftrightarrow>
     lfi_inv s \<and> l_reqs s = [r \<mapsto> q] \<and> rq_wait_context q \<noteq> None \<and> rq_comm q = 7 \<and> rq_comm_id q = 7 \<and>
     rq_callback q = Some 5 \<and> rq_source q = 7 \<and> rq_endpoint q = Peer \<and> rq_op_type q = OpRecv \<and>
     lookup_now 7 s \<and> l_env s = env_default \<and> tx_endpoint (ep_of Peer s) = 12 \<and> rx_endpoint (ep_of Peer s) = 11 \<and>
     map_option comm_core (the_comm 7 s) = Some (comm_core sample_comm)"

lemma sample_flight: obtains s r q where "sample_flying s r q"
proof -
  have "cm_rank_peer sample_comm = 7" by (simp add: sample_comm_def comm_new_def)
  moreover obtain t :: "sample lfi" and q where new: "new_request Peer 7 sample_lfi = Some (l_next_rid sample_lfi, t)"
    and "lfi_inv t" "l_reqs t = (l_reqs sample_lfi)(l_next_rid sample_lfi \<mapsto> q)"
      "rq_wait_context q = None" "rq_comm q = 7" "rq_comm_id q = cm_rank_peer sample_comm"
      "rq_endpoint q = Peer" "the_comm 7 t = Some sample_comm"
    by (rule new_request_inv [OF sample_inv sample_comm_7, of Peer]) blast
  moreover obtain r where "r = l_next_rid sample_lfi" by simp
  moreover have "l_reqs sample_lfi = (\<lambda>_. None)" by (simp add: sample_simps)
  ultimately have t: "lfi_inv t" "l_reqs t = [r \<mapsto> q]" "rq_wait_context q = None" "rq_comm q = 7"
      "rq_comm_id q = 7" "rq_endpoint q = Peer" "the_comm 7 t = Some sample_comm" by simp_all
  have ep: "l_env t = env_default" "tx_endpoint (ep_of Peer t) = 12" "rx_endpoint (ep_of Peer t) = 11"
    using new by (simp_all add: new_request_def sample_comm_7 Let_def, auto)
      (simp_all add: sample_lfi_def lfi_new_def set_comm_def upd_ep_def ep_of_def tx_endpoint_def
        rx_endpoint_def endpoint_new_def)
  let ?g = "\<lambda>q. q\<lparr>rq_callback := Some 5, rq_source := 7, rq_op_type := OpRecv\<rparr>"
  let ?u = "upd_req r ?g (snd (store_new_context r t))"
  have "submitting r ?u"
    using t submit_start [of t r q sample_comm] by (intro submitting_upd_req) simp_all
  moreover obtain q' where q': "l_reqs ?u = [r \<mapsto> q']" "rq_wait_context q' \<noteq> None" "rq_comm q' = 7"
      "rq_comm_id q' = 7" "rq_endpoint q' = Peer" "rq_source q' = 7" "rq_callback q' = Some 5"
      "rq_op_type q' = OpRecv"
  proof -
    let ?q = "?g (q\<lparr>rq_wait_context := Some (fst (store_new_context r t))\<rparr>)"
    have "l_reqs ?u = [r \<mapsto> ?q]" using t by (auto simp: store_new_context_reqs fun_eq_iff)
    then show ?thesis by (rule that) (use t in simp_all)
  qed
  moreover have "the_comm (rq_comm q') ?u = Some sample_comm" using t q' by simp
  ultimately obtain s where s: "lfi_inv s" "quiet ?u s" "l_reqs s = l_reqs ?u"
    using submit_end [of r ?u q' sample_comm] by (metis fun_upd_same)
  have "lookup_now 7 s"
    using quiet_lookup [OF s(2), of 7] t by (simp add: lookup_now_comm [where m = sample_comm] sample_comm_def)
  moreover have "l_env s = env_default" using s(2) ep by (simp add: quiet_def)
  moreover have "tx_endpoint (ep_of Peer s) = 12" "rx_endpoint (ep_of Peer s) = 11"
    using quiet_ep(6,7) [OF s(2), of Peer] ep by simp_all
  moreover have "map_option comm_core (the_comm 7 s) = Some (comm_core sample_comm)"
    using quiet_comm [OF s(2), of 7] t by simp
  ultimately show ?thesis using that [of s r q'] s q' by (simp add: sample_flying_def)
qed


end
