(* ===== verification/Endpoint.thy ===== *)
theory Endpoint
  imports Request
begin

text \<open>
  \<open>src/impl/lfi_endpoint.cpp\<close>: posting the queued operations, reading the completion queue and
  calling the callbacks of an endpoint, and the use of the progress guard by a thread. The
  fault-tolerance loop that \<open>progress\<close> calls is a parameter here; theory \<open>Ft_Manager\<close> closes the
  recursion.
\<close>

subsection \<open>Guards\<close>

text \<open>
  A guard opened and closed by one thread, with no other thread inside the protocol at that moment.
  The steps are those of theory \<open>Progress_Guard\<close>. Without \<open>LFI_efficient_progress\<close> every guard that
  asks is a leader and nothing is shared.
\<close>

definition guard_open :: "ep_id \<Rightarrow> bool \<Rightarrow> 'f lfi \<Rightarrow> gid \<times> 'f lfi" where
  "guard_open e requested s =
     (let g = l_next_gid s;
          born = pg_set g \<lparr>g_requested = requested, g_leader = False, g_pc = Constructing\<rparr>;
          plain = pg_set g \<lparr>g_requested = requested, g_leader = requested, g_pc = Live\<rparr>
      in (g, upd_ep e (\<lambda>x. x\<lparr>ep_pg :=
                if LFI_efficient_progress (l_env s)
                then pg_register_waiter g (pg_try_acquire g (born (ep_pg x)))
                else plain (ep_pg x)\<rparr>)
              (s\<lparr>l_next_gid := Suc g\<rparr>)))"

definition guard_leader :: "ep_id \<Rightarrow> gid \<Rightarrow> 'f lfi \<Rightarrow> bool" where
  "guard_leader e g s = g_leader (pg_guards (ep_pg (ep_of e s)) g)"

definition pg_close :: "gid \<Rightarrow> pg_state \<Rightarrow> pg_state" where
  "pg_close g p =
     (let p1 = pg_unregister_waiter g p;
          p2 = pg_transfer_begin g p1
      in if g_leader (pg_guards p1 g) then pg_transfer_end g p2 else p2)"

definition guard_close :: "ep_id \<Rightarrow> gid \<Rightarrow> 'f lfi \<Rightarrow> 'f lfi" where
  "guard_close e g s =
     (if LFI_efficient_progress (l_env s) then upd_ep e (\<lambda>x. x\<lparr>ep_pg := pg_close g (ep_pg x)\<rparr>) s else s)"

subsection \<open>Posting\<close>

text \<open>The switch of \<open>post_pending_ops\<close>. An operation of type \<open>NONE\<close> is dropped as if it had been posted.\<close>

definition post_op :: "'f world \<Rightarrow> pending_op \<Rightarrow> 'f \<Rightarrow> int \<times> 'f" where
  "post_op w op =
     (case po_type op of
        PNone \<Rightarrow> Pair 0
      | PSend \<Rightarrow> w_tsend w (po_ep op) (po_buf op) (po_len op) (po_addr op) (po_tag_remote_addr op) (po_context op)
      | PSendv \<Rightarrow> w_tsendv w (po_ep op) (po_buf op) (po_len op) (po_addr op) (po_tag_remote_addr op) (po_context op)
      | PRecv \<Rightarrow> w_trecv w (po_ep op) (po_buf op) (po_len op) (po_addr op) (po_tag_remote_addr op)
                   (po_ignore_remote_key op) (po_context op)
      | PRecvv \<Rightarrow> w_trecvv w (po_ep op) (po_buf op) (po_len op) (po_addr op) (po_tag_remote_addr op)
                   (po_ignore_remote_key op) (po_context op)
      | PInject \<Rightarrow> w_tinject w (po_ep op) (po_buf op) (po_len op) (po_addr op) (po_tag_remote_addr op)
      | PPut \<Rightarrow> w_write w (po_ep op) (po_buf op) (po_len op) (po_addr op) (po_tag_remote_addr op)
                   (po_ignore_remote_key op) (po_context op)
      | PGet \<Rightarrow> w_read w (po_ep op) (po_buf op) (po_len op) (po_addr op) (po_tag_remote_addr op)
                   (po_ignore_remote_key op) (po_context op))"

text \<open>What happens to the request of an operation that was posted or refused for good.\<close>

definition complete_ctx :: "'f world \<Rightarrow> ctx \<Rightarrow> int \<Rightarrow> 'f lfi \<Rightarrow> 'f lfi option" where
  "complete_ctx w c err s =
     (case get_request c s of None \<Rightarrow> Some s | Some r \<Rightarrow> complete w r err s)"

definition post_result :: "'f world \<Rightarrow> pending_op \<Rightarrow> int \<Rightarrow> 'f lfi \<Rightarrow> 'f lfi option" where
  "post_result w op op_ret s =
     (case po_context op of
        None \<Rightarrow> Some s
      | Some c \<Rightarrow>
          if op_ret \<noteq> 0 then complete_ctx w c (- LFI_LIBFABRIC_ERROR) s
          else if po_type op = PInject
          then do { s1 \<leftarrow> complete_ctx w c LFI_SUCCESS s; Some (ctx_destroy c s1) }
          else Some s)"

definition queue_of :: "bool \<Rightarrow> endpoint \<Rightarrow> pending_op vqueue" where
  "queue_of priority x = (if priority then ep_priority x else ep_pending x)"

definition upd_queue :: "bool \<Rightarrow> (pending_op vqueue \<Rightarrow> pending_op vqueue) \<Rightarrow> endpoint \<Rightarrow> endpoint" where
  "upd_queue priority g x =
     (if priority then x\<lparr>ep_priority := g (ep_priority x)\<rparr> else x\<lparr>ep_pending := g (ep_pending x)\<rparr>)"

partial_function (option) process_queue ::
    "'f world \<Rightarrow> ep_id \<Rightarrow> bool \<Rightarrow> 'f lfi \<Rightarrow> (bool \<times> 'f lfi) option" where
  "process_queue w e priority s =
     (let q = queue_of priority (ep_of e s)
      in if vq_empty q then Some (True, s)
         else (let op = vq_front q;
                   (op_ret, s1) = fab (post_op w op) s
               in if op_ret = - FI_EAGAIN then Some (False, s1)
                  else do {
                    s2 \<leftarrow> post_result w op op_ret s1;
                    process_queue w e priority (upd_ep e (upd_queue priority vq_pop) s2) }))"

declare process_queue.simps [code]

definition post_pending_ops :: "'f world \<Rightarrow> ep_id \<Rightarrow> 'f lfi \<Rightarrow> 'f lfi option" where
  "post_pending_ops w e s =
     do { (finished, s1) \<leftarrow> process_queue w e True s;
          if finished then do { (_, s2) \<leftarrow> process_queue w e False s1; Some s2 } else Some s1 }"

subsection \<open>Completion queue\<close>

text \<open>The error code that a libfabric error becomes.\<close>

definition cq_error_code :: "int \<Rightarrow> int" where
  "cq_error_code err =
     (if \<bar>err\<bar> = FI_ECANCELED then - LFI_CANCELED
      else if \<bar>err\<bar> = FI_ENOMSG then - LFI_PEEK_NO_MSG
      else if \<bar>err\<bar> = FI_ETRUNC then - LFI_ETRUN_RECV
      else - LFI_LIBFABRIC_ERROR)"

definition cq_error :: "'f world \<Rightarrow> ep_id \<Rightarrow> 'f lfi \<Rightarrow> 'f lfi option" where
  "cq_error w e s =
     (let (err, s1) = fab (w_cq_readerr w (ep_cq (ep_of e s))) s
      in do { s2 \<leftarrow> complete_ctx w (cqr_context err) (cq_error_code (cqr_err err)) s1;
              Some (ctx_destroy (cqr_context err) s2) })"

text \<open>A receive takes its size, tag and source from the completion.\<close>

definition fill_recv :: "cq_entry \<Rightarrow> request \<Rightarrow> request" where
  "fill_recv ent q =
     (if rq_op_type q = OpRecv
      then q\<lparr>rq_size := cqe_len ent, rq_tag := tag_of (cqe_tag ent), rq_source := source_of (cqe_tag ent)\<rparr>
      else q)"

definition cq_entry_step :: "'f world \<Rightarrow> cq_entry \<Rightarrow> 'f lfi \<Rightarrow> 'f lfi option" where
  "cq_entry_step w ent s =
     (case get_request (cqe_context ent) s of
        None \<Rightarrow> Some (ctx_destroy (cqe_context ent) s)
      | Some r \<Rightarrow>
          do { s1 \<leftarrow> complete w r LFI_SUCCESS (upd_req r (fill_recv ent) s);
               Some (ctx_destroy (cqe_context ent) s1) })"

fun cq_entries :: "'f world \<Rightarrow> cq_entry list \<Rightarrow> 'f lfi \<Rightarrow> 'f lfi option" where
  "cq_entries w [] s = Some s"
| "cq_entries w (ent # ents) s = do { s1 \<leftarrow> cq_entry_step w ent s; cq_entries w ents s1 }"

definition MAX_COMP_COUNT :: nat where "MAX_COMP_COUNT = 8"

text \<open>The \<open>do ... while\<close> loop: read again after a full batch or an error entry.\<close>

partial_function (option) cq_loop :: "'f world \<Rightarrow> ep_id \<Rightarrow> 'f lfi \<Rightarrow> (int \<times> 'f lfi) option" where
  "cq_loop w e s =
     (let ((ret, ents), s1) = fab (w_cq_read w (ep_cq (ep_of e s)) MAX_COMP_COUNT) s
      in if ret = - FI_EAGAIN then Some (LFI_SUCCESS, s1)
         else if ret = - FI_EAVAIL then do { s2 \<leftarrow> cq_error w e s1; cq_loop w e s2 }
         else do {
           s2 \<leftarrow> cq_entries w (take (nat ret) ents) s1;
           if ret = int MAX_COMP_COUNT then cq_loop w e s2 else Some (ret, s2) })"

declare cq_loop.simps [code]

subsection \<open>Callbacks\<close>

fun call_callbacks :: "'f world \<Rightarrow> (cb \<times> int \<times> u64) list \<Rightarrow> 'f lfi \<Rightarrow> 'f lfi option" where
  "call_callbacks w [] s = Some s"
| "call_callbacks w ((f, err, arg) # cbs) s =
     do { s1 \<leftarrow> w_callback w f err arg (s\<lparr>l_log := l_log s @ [(f, err, arg)]\<rparr>); call_callbacks w cbs s1 }"

definition run_callbacks :: "'f world \<Rightarrow> ep_id \<Rightarrow> 'f lfi \<Rightarrow> 'f lfi option" where
  "run_callbacks w e s =
     call_callbacks w (ep_callbacks (ep_of e s)) (upd_ep e (\<lambda>x. x\<lparr>ep_callbacks := []\<rparr>) s)"

subsection \<open>Progress\<close>

definition progress_with ::
    "('f lfi \<Rightarrow> 'f lfi option) \<Rightarrow> 'f world \<Rightarrow> ep_id \<Rightarrow> bool \<Rightarrow> 'f lfi \<Rightarrow> (int \<times> 'f lfi) option" where
  "progress_with one_loop w e callbacks s =
     do { (ret, s1) \<leftarrow> cq_loop w e s;
          s2 \<leftarrow> post_pending_ops w e s1;
          s3 \<leftarrow> (if LFI_fault_tolerance (l_env s2) then one_loop s2 else Some s2);
          s4 \<leftarrow> (if callbacks then run_callbacks w e s3 else Some s3);
          Some (ret, s4) }"

definition protected_progress_with ::
    "(bool \<Rightarrow> 'f lfi \<Rightarrow> (int \<times> 'f lfi) option) \<Rightarrow> ep_id \<Rightarrow> bool \<Rightarrow> 'f lfi \<Rightarrow> (int \<times> 'f lfi) option" where
  "protected_progress_with progress e callbacks s =
     (let (g, s1) = guard_open e True s
      in if guard_leader e g s1
         then do { (ret, s2) \<leftarrow> progress callbacks s1; Some (ret, guard_close e g s2) }
         else Some (-1, guard_close e g s1))"

subsection \<open>Completing through a context\<close>

lemma complete_ctx_error:
  assumes inv: "lfi_inv s" and err: "err \<noteq> LFI_SUCCESS"
  obtains t where "complete_ctx w c err s = Some t" and "lfi_inv t" and "quiet s t" and "l_fab t = l_fab s"
proof (cases "get_request c s")
  case None
  then show ?thesis using that inv by (simp add: complete_ctx_def)
next
  case (Some r)
  then obtain q where q: "l_reqs s r = Some q" by (rule get_request_flight [OF inv])
  obtain t where "complete w r err s = Some t" "lfi_inv t" "quiet s t" "l_fab t = l_fab s"
    by (rule complete_ok [OF inv q, of err w]) (use err in auto)
  then show ?thesis using that Some by (simp add: complete_ctx_def)
qed

lemma LIBFABRIC_not_SUCCESS: "- LFI_LIBFABRIC_ERROR \<noteq> LFI_SUCCESS"
  by (simp add: lfi_errors)

subsection \<open>Order of posting\<close>

text \<open>The reference: hand the operations over one by one until the provider has no resources.\<close>

fun post_run :: "'f world \<Rightarrow> pending_op list \<Rightarrow> 'f \<Rightarrow> nat \<times> bool \<times> 'f" where
  "post_run w [] f = (0, True, f)"
| "post_run w (op # ops) f =
     (let (ret, f1) = post_op w op f
      in if ret = - FI_EAGAIN then (0, False, f1)
         else (let (n, finished, f2) = post_run w ops f1 in (Suc n, finished, f2)))"

lemma post_result_ok:
  assumes "lfi_inv s" and "po_type op \<noteq> PInject"
  obtains t where "post_result w op ret s = Some t" and "lfi_inv t" and "quiet s t" and "l_fab t = l_fab s"
proof (cases "po_context op")
  case None
  then show ?thesis using that assms by (simp add: post_result_def)
next
  case (Some c)
  show ?thesis
  proof (cases "ret = 0")
    case True
    then show ?thesis using that assms Some by (simp add: post_result_def)
  next
    case False
    then have "post_result w op ret s = complete_ctx w c (- LFI_LIBFABRIC_ERROR) s"
      using Some by (simp add: post_result_def)
    then show ?thesis
      using complete_ctx_error [OF assms(1) LIBFABRIC_not_SUCCESS, of w c] that by metis
  qed
qed

lemma queue_of_upd [simp]: "queue_of b (upd_queue b g x) = g (queue_of b x)"
  "queue_of b (upd_queue (\<not> b) g x) = queue_of b x" "queue_of (\<not> b) (upd_queue b g x) = queue_of (\<not> b) x"
  by (simp_all add: queue_of_def upd_queue_def)

lemma quiet_queue: "quiet s t \<Longrightarrow> queue_of b (ep_of e t) = queue_of b (ep_of e s)"
  by (simp add: queue_of_def quiet_ep)

lemma process_queue_order:
  assumes "lfi_inv s" and "vq_inv (queue_of b (ep_of e s))" and "vq_list (queue_of b (ep_of e s)) = ops"
    and "\<forall>op \<in> set ops. po_type op \<noteq> PInject" and "post_run w ops (l_fab s) = (n, finished, f)"
  shows "\<exists>t. process_queue w e b s = Some (finished, t) \<and> lfi_inv t \<and> l_fab t = f \<and>
     vq_inv (queue_of b (ep_of e t)) \<and> vq_list (queue_of b (ep_of e t)) = drop n ops \<and>
     queue_of (\<not> b) (ep_of e t) = queue_of (\<not> b) (ep_of e s) \<and> (finished \<longrightarrow> n = length ops)"
  using assms
proof (induction ops arbitrary: s n finished f)
  case Nil
  then show ?case by (subst process_queue.simps) (simp add: vq_empty_correct)
next
  case (Cons op ops)
  let ?q = "queue_of b (ep_of e s)"
  have front: "vq_front ?q = op" "\<not> vq_empty ?q"
    using Cons.prems by (simp_all add: vq_front_correct vq_empty_correct)
  obtain ret f1 where post: "post_op w op (l_fab s) = (ret, f1)" by (metis prod.exhaust)
  let ?s1 = "s\<lparr>l_fab := f1\<rparr>"
  have fab: "fab (post_op w op) s = (ret, ?s1)" using post by (simp add: fab_def)
  show ?case
  proof (cases "ret = - FI_EAGAIN")
    case True
    then have "process_queue w e b s = Some (False, ?s1)"
      using front fab by (subst process_queue.simps) (simp add: Let_def)
    then show ?thesis using Cons.prems True post by auto
  next
    case False
    obtain k where run: "post_run w ops f1 = (k, finished, f)" and n: "n = Suc k"
      using Cons.prems(5) post False by (auto simp: Let_def split: prod.splits)
    have "lfi_inv ?s1" using Cons.prems(1) by simp
    then obtain s2 where s2: "post_result w op ret ?s1 = Some s2" "lfi_inv s2" "quiet ?s1 s2" "l_fab s2 = f1"
      using post_result_ok [of ?s1 op w ret] Cons.prems(4) by (metis lfi.select_convs(23) lfi.update_convs(23) list.set_intros(1) lfi.surjective)
    let ?s3 = "upd_ep e (upd_queue b vq_pop) s2"
    have q2: "queue_of b' (ep_of e s2) = queue_of b' (ep_of e s)" for b'
      using quiet_queue [OF s2(3), of b' e] by simp
    have "vq_inv (queue_of b (ep_of e ?s3))" "vq_list (queue_of b (ep_of e ?s3)) = ops"
      using Cons.prems(2,3) vq_pop_correct [of ?q] by (simp_all add: q2)
    then obtain t where t: "process_queue w e b ?s3 = Some (finished, t)" "lfi_inv t" "l_fab t = f"
        "vq_inv (queue_of b (ep_of e t))" "vq_list (queue_of b (ep_of e t)) = drop k ops"
        "queue_of (\<not> b) (ep_of e t) = queue_of (\<not> b) (ep_of e ?s3)" "finished \<longrightarrow> k = length ops"
      using Cons.IH [of ?s3 k finished f] s2 run Cons.prems(4) by auto
    have "process_queue w e b s = process_queue w e b ?s3"
      using front fab False s2 by (subst process_queue.simps) (simp add: Let_def)
    with t n q2 show ?thesis by simp
  qed
qed

subsection \<open>Properties\<close>


definition sample_op :: "pend_type \<Rightarrow> u64 \<Rightarrow> pending_op" where
  "sample_op t tag = po_null\<lparr>po_type := t, po_tag_remote_addr := tag\<rparr>"

definition sample_queued :: "sample lfi" where
  "sample_queued =
     upd_ep Peer (\<lambda>x. x\<lparr>ep_priority := vq_push po_null (sample_op PGet 3) (vq_new po_null 2),
       ep_pending := vq_push po_null (sample_op PRecv 2) (vq_push po_null (sample_op PSend 1) (vq_new po_null 1))\<rparr>)
       sample_lfi"

lemma sample_queued_facts:
  "lfi_inv sample_queued"
  "vq_inv (ep_priority (ep_of Peer sample_queued))"
  "vq_list (ep_priority (ep_of Peer sample_queued)) = [sample_op PGet 3]"
  "vq_inv (ep_pending (ep_of Peer sample_queued))"
  "vq_list (ep_pending (ep_of Peer sample_queued)) = [sample_op PSend 1, sample_op PRecv 2]"
  by (simp_all add: sample_queued_def sample_inv vq_push_correct vq_new_inv vq_new_list)

lemma sample_lfi_fab: "l_fab sample_queued = sample0"
  by (simp add: sample_queued_def sample_lfi_def lfi_new_def)


text \<open>C3. Delivery of a completion. For a completion queue entry whose context is assigned to a
  receive (with the lookup of the sender immediate), the request completes with success, takes its
  size from the entry and its tag and source from the two halves of the 64-bit tag, its callback is
  queued, the context goes back to the factory, and the invariant is kept.\<close>

theorem cq_recv_delivers:
  assumes "lfi_inv s" and "get_request (cqe_context ent) s = Some r" and "l_reqs s r = Some q"
    and "rq_op_type q = OpRecv" and "cqe_tag ent = pack_tag src tag"
    and "src = rq_comm_id q \<or> lookup_now src s"
  shows "\<exists>t q'. cq_entry_step w ent s = Some t \<and> lfi_inv t \<and> l_reqs t r = Some q' \<and>
     rq_wait_context q' = None \<and> rq_error q' = LFI_SUCCESS \<and> rq_size q' = cqe_len ent \<and>
     rq_tag q' = tag \<and> rq_source q' = src \<and> cqe_context ent \<in> set (l_free t) \<and>
     ep_callbacks (ep_of (rq_endpoint q) t) =
       ep_callbacks (ep_of (rq_endpoint q) s) @ callback_of (rq_endpoint q) LFI_SUCCESS q"
proof -
  let ?c = "cqe_context ent"
  let ?s1 = "upd_req r (fill_recv ent) s"
  let ?q1 = "fill_recv ent q"
  have busy: "rq_wait_context q = Some ?c" and c: "?c \<notin> set (l_free s)" "?c < l_next_ctx s"
    using get_request_flight [OF assms(1,2)] assms(3) by auto
  have q1: "rq_size ?q1 = cqe_len ent" "rq_tag ?q1 = tag" "rq_source ?q1 = src" "rq_wait_context ?q1 = Some ?c"
    "rq_comm_id ?q1 = rq_comm_id q" "rq_endpoint ?q1 = rq_endpoint q"
    "callback_of (rq_endpoint q) LFI_SUCCESS ?q1 = callback_of (rq_endpoint q) LFI_SUCCESS q"
    using assms(4,5) busy by (simp_all add: fill_recv_def tag_of_pack source_of_pack callback_of_def split: option.splits)
  have inv1: "lfi_inv ?s1" using assms(1) by (rule lfi_inv_upd_req) (simp_all add: fill_recv_def)
  have req1: "l_reqs ?s1 r = Some ?q1" using assms(3) by simp
  have look: "rq_source ?q1 \<noteq> rq_comm_id ?q1 \<Longrightarrow> lookup_now (rq_source ?q1) ?s1"
    using assms(6) q1 quiet_lookup [OF quiet_upd_req, of src r "fill_recv ent" s] by auto
  obtain t where t: "complete w r LFI_SUCCESS ?s1 = Some t" "lfi_inv t" "quiet ?s1 t"
    "l_reqs t = (l_reqs ?s1)(r \<mapsto> ?q1\<lparr>rq_error := LFI_SUCCESS, rq_wait_context := None\<rparr>)"
    "\<And>e. ep_callbacks (ep_of e t) = ep_callbacks (ep_of e ?s1) @ callback_of e LFI_SUCCESS ?q1"
    using complete_ok [OF inv1 req1 look, of LFI_SUCCESS w] q1 by auto
  have "\<not> holds_ctx t r' ?c" for r'
  proof
    assume held: "holds_ctx t r' ?c"
    then have "r' \<noteq> r" using t(4) by (auto simp: holds_ctx_def)
    with held have "holds_ctx s r' ?c" using t(4) by (simp add: holds_ctx_def)
    then have "l_ctxs s ?c = Some r'" using assms(1) ctx_assigned [of s] by (simp add: lfi_inv_def)
    with assms(2) \<open>r' \<noteq> r\<close> show False by (simp add: get_request_def)
  qed
  then have "l_ctxs t ?c = None" using t(2) ctx_assigned [of t] by (cases "l_ctxs t ?c") (auto simp: lfi_inv_def)
  moreover have "l_free t = l_free s" "l_next_ctx t = l_next_ctx s" using t(3) by (simp_all add: quiet_def)
  ultimately have "lfi_inv (ctx_destroy ?c t)" using t(2) c by (intro lfi_inv_destroy) simp_all
  moreover have "cq_entry_step w ent s = Some (ctx_destroy ?c t)"
    using assms(2) t(1) by (simp add: cq_entry_step_def)
  ultimately show ?thesis using t(4,5) q1 by (simp)
qed

theorem cq_recv_delivers_witness:
  "\<exists>(s :: sample lfi) ent r t q'. lfi_inv s \<and> get_request (cqe_context ent) s = Some r \<and>
     cq_entry_step sample_world ent s = Some t \<and> l_reqs t r = Some q' \<and> rq_size q' = 100 \<and>
     rq_tag q' = 9 \<and> rq_source q' = 7"
proof -
  obtain s r q where "sample_flying s r q" by (rule sample_flight)
  then have s: "lfi_inv s" "l_reqs s r = Some q" "rq_wait_context q \<noteq> None" "rq_comm_id q = 7" "rq_op_type q = OpRecv"
    by (simp_all add: sample_flying_def)
  then obtain c where c: "rq_wait_context q = Some c" by blast
  let ?ent = "\<lparr>cqe_context = c, cqe_len = 100, cqe_tag = pack_tag 7 9\<rparr>"
  have held: "get_request c s = Some r"
    using s c ctx_assigned [of s c r] by (simp add: lfi_inv_def get_request_def holds_ctx_def)
  have "\<exists>t q'. cq_entry_step sample_world ?ent s = Some t \<and> lfi_inv t \<and> l_reqs t r = Some q' \<and>
     rq_wait_context q' = None \<and> rq_error q' = LFI_SUCCESS \<and> rq_size q' = cqe_len ?ent \<and>
     rq_tag q' = 9 \<and> rq_source q' = 7 \<and> cqe_context ?ent \<in> set (l_free t) \<and>
     ep_callbacks (ep_of (rq_endpoint q) t) =
       ep_callbacks (ep_of (rq_endpoint q) s) @ callback_of (rq_endpoint q) LFI_SUCCESS q"
    using s c held by (intro cq_recv_delivers) simp_all
  then obtain t q' where "cq_entry_step sample_world ?ent s = Some t" "l_reqs t r = Some q'"
    "rq_size q' = 100" "rq_tag q' = 9" "rq_source q' = 7" by auto
  moreover have "get_request (cqe_context ?ent) s = Some r" using held by simp
  ultimately show ?thesis using s(1) by blast
qed

end
