(* ===== verification/Posting.thy ===== *)
theory Posting
  imports Endpoint
begin

text \<open>
  The posting functions of \<open>src/impl/send.cpp\<close>, \<open>src/impl/recv.cpp\<close> and \<open>src/impl/rma.cpp\<close>:
  \<open>async_send_internal\<close>, \<open>async_recv_internal\<close>, \<open>async_put\<close> and \<open>async_get\<close>. Each looks its
  communicator up, refuses what it must, and otherwise gives the request a context, queues one
  operation on the endpoint and registers the request for monitoring. Nothing is handed to
  libfabric here: that is the work of \<open>post_pending_ops\<close>.
\<close>

datatype send_type = SEND | SENDV
datatype recv_type = RECV | RECVV

subsection \<open>Operations\<close>

definition queue_op :: "ep_id \<Rightarrow> bool \<Rightarrow> pending_op \<Rightarrow> 'f lfi \<Rightarrow> 'f lfi" where
  "queue_op e priority op s = upd_ep e (upd_queue priority (vq_push po_null op)) s"

text \<open>\<open>get_iov_limit() < size\<close> for the vectored forms; \<open>info\<close> is dereferenced only then.\<close>

definition iov_over :: "bool \<Rightarrow> endpoint \<Rightarrow> u64 \<Rightarrow> bool option" where
  "iov_over vectored x count =
     (if vectored then do { info \<leftarrow> ep_info x; Some (fi_iov_limit info < count) } else Some False)"

definition fits_inject :: "bool \<Rightarrow> endpoint \<Rightarrow> u64 \<Rightarrow> bool option" where
  "fits_inject tried x len =
     (if tried then do { info \<leftarrow> ep_info x; Some (len \<le> fi_inject_size info) } else Some False)"

text \<open>The common end of the four functions: a context, the operation, the monitoring.\<close>

definition submit :: "rid \<Rightarrow> cid \<Rightarrow> ep_id \<Rightarrow> bool \<Rightarrow> (ctx \<Rightarrow> pending_op) \<Rightarrow> 'f lfi \<Rightarrow> (int \<times> 'f lfi) option" where
  "submit r c e priority op s =
     (let (ctx, s1) = store_new_context r s
      in do { s2 \<leftarrow> register_request r c (queue_op e priority (op ctx) s1); Some (LFI_SUCCESS, s2) })"

definition async_send_internal ::
    "'f world \<Rightarrow> ptr \<Rightarrow> u64 \<Rightarrow> send_type \<Rightarrow> u32 \<Rightarrow> rid \<Rightarrow> bool \<Rightarrow> 'f lfi \<Rightarrow> (int \<times> 'f lfi) option" where
  "async_send_internal w buffer size' type' tag r priority s =
     do { q \<leftarrow> l_reqs s r;
          (comm, s1) \<leftarrow> get_comm_and_mutex w (rq_comm_id q) s;
          case comm of
            None \<Rightarrow> Some (- LFI_COMM_NOT_FOUND, s1)
          | Some c \<Rightarrow> do {
              m \<leftarrow> the_comm c s1;
              if cm_is_canceled m then Some (- LFI_BROKEN_COMM, s1)
              else if any_comm (rq_comm_id q) then Some (- LFI_SEND_ANY_COMM, s1)
              else do {
                let x = ep_of (cm_endpoint m) s1;
                over \<leftarrow> iov_over (type' = SENDV) x size';
                if over then Some (- LFI_IOV_LIMIT, s1)
                else do {
                  s2 \<leftarrow> request_reset r s1;
                  inject \<leftarrow> fits_inject (LFI_use_inject (l_env s1) \<and> type' = SEND) x size';
                  let op_type = (if inject then PInject else if type' = SEND then PSend else PSendv);
                  let s3 = upd_req r (\<lambda>q. q\<lparr>rq_size := size', rq_tag := tag, rq_source := rq_comm_id q,
                             rq_op_type := (if inject then OpInject else OpSend)\<rparr>) s2;
                  submit r c (cm_endpoint m) priority
                    (\<lambda>ctx. \<lparr>po_type = op_type, po_ep = tx_endpoint x, po_buf = buffer, po_len = size',
                            po_addr = cm_fi_addr m, po_tag_remote_addr = pack_tag (cm_rank_self_in_peer m) tag,
                            po_ignore_remote_key = 0, po_context = Some ctx\<rparr>) s3 } } } }"

definition async_recv_internal ::
    "'f world \<Rightarrow> ptr \<Rightarrow> u64 \<Rightarrow> recv_type \<Rightarrow> u32 \<Rightarrow> rid \<Rightarrow> bool \<Rightarrow> 'f lfi \<Rightarrow> (int \<times> 'f lfi) option" where
  "async_recv_internal w buffer size' type' tag r priority s =
     do { q \<leftarrow> l_reqs s r;
          (comm, s1) \<leftarrow> get_comm_and_mutex w (rq_comm_id q) s;
          case comm of
            None \<Rightarrow> Some (- LFI_COMM_NOT_FOUND, s1)
          | Some c \<Rightarrow> do {
              m \<leftarrow> the_comm c s1;
              if cm_is_canceled m then Some (- LFI_BROKEN_COMM, s1)
              else do {
                let x = ep_of (cm_endpoint m) s1;
                over \<leftarrow> iov_over (type' = RECVV) x size';
                if over then Some (- LFI_IOV_LIMIT, s1)
                else do {
                  s2 \<leftarrow> request_reset r s1;
                  let s3 = upd_req r (\<lambda>q. q\<lparr>rq_op_type := OpRecv, rq_size := size', rq_tag := tag,
                                            rq_source := rq_comm_id q\<rparr>) s2;
                  submit r c (cm_endpoint m) priority
                    (\<lambda>ctx. \<lparr>po_type = (if type' = RECV then PRecv else PRecvv), po_ep = rx_endpoint x,
                            po_buf = buffer, po_len = size', po_addr = cm_fi_addr m,
                            po_tag_remote_addr = pack_tag (rq_comm_id q) tag,
                            po_ignore_remote_key = recv_ignore (rq_comm_id q), po_context = Some ctx\<rparr>) s3 } } } }"

definition rma_key :: "endpoint \<Rightarrow> mr_key \<Rightarrow> u64" where
  "rma_key x key = word_of_int (if ep_is_shm x then shm_key key else peer_key key)"

text \<open>\<open>async_put\<close> and \<open>async_get\<close> are the same text with another operation.\<close>

definition async_rma ::
    "op_type \<Rightarrow> pend_type \<Rightarrow> 'f world \<Rightarrow> ptr \<Rightarrow> u64 \<Rightarrow> u64 \<Rightarrow> mr_key \<Rightarrow> rid \<Rightarrow> bool \<Rightarrow> 'f lfi \<Rightarrow>
     (int \<times> 'f lfi) option" where
  "async_rma ot pt w buffer size' remote_addr remote_key r priority s =
     do { q \<leftarrow> l_reqs s r;
          (comm, s1) \<leftarrow> get_comm_and_mutex w (rq_comm_id q) s;
          case comm of
            None \<Rightarrow> Some (- LFI_COMM_NOT_FOUND, s1)
          | Some c \<Rightarrow> do {
              m \<leftarrow> the_comm c s1;
              if cm_is_canceled m then Some (- LFI_BROKEN_COMM, s1)
              else do {
                let x = ep_of (cm_endpoint m) s1;
                s2 \<leftarrow> request_reset r s1;
                let s3 = upd_req r (\<lambda>q. q\<lparr>rq_op_type := ot, rq_size := size', rq_source := rq_comm_id q\<rparr>) s2;
                submit r c (cm_endpoint m) priority
                  (\<lambda>ctx. \<lparr>po_type = pt, po_ep = tx_endpoint x, po_buf = buffer, po_len = size',
                          po_addr = cm_fi_addr m, po_tag_remote_addr = remote_addr,
                          po_ignore_remote_key = rma_key x remote_key, po_context = Some ctx\<rparr>) s3 } } }"

definition async_put ::
    "'f world \<Rightarrow> ptr \<Rightarrow> u64 \<Rightarrow> u64 \<Rightarrow> mr_key \<Rightarrow> rid \<Rightarrow> bool \<Rightarrow> 'f lfi \<Rightarrow> (int \<times> 'f lfi) option" where
  "async_put = async_rma OpPut PPut"

definition async_get ::
    "'f world \<Rightarrow> ptr \<Rightarrow> u64 \<Rightarrow> u64 \<Rightarrow> mr_key \<Rightarrow> rid \<Rightarrow> bool \<Rightarrow> 'f lfi \<Rightarrow> (int \<times> 'f lfi) option" where
  "async_get = async_rma OpGet PGet"

subsection \<open>Submission\<close>

lemma request_reset_idle:
  "l_reqs s r = Some q \<Longrightarrow> rq_wait_context q = None \<Longrightarrow>
   request_reset r s = Some (upd_req r (\<lambda>q. q\<lparr>rq_op_type := OpNone, rq_error := 0, rq_size := 0, rq_tag := 0,
     rq_source := UNINITIALIZED_COMM, rq_wait_context := None\<rparr>) s)"
  by (simp add: request_reset_def unassign_of_def)

text \<open>Resetting an idle request keeps the invariant.\<close>

lemma request_reset_inv:
  assumes inv: "lfi_inv s" and q: "l_reqs s r = Some q" and idle: "rq_wait_context q = None"
  obtains t q' where "request_reset r s = Some t" and "lfi_inv t" and "l_reqs t = (l_reqs s)(r \<mapsto> q')"
    and "rq_wait_context q' = None" and "rq_comm q' = rq_comm q" and "rq_comm_id q' = rq_comm_id q"
    and "rq_callback q' = rq_callback q" and "rq_endpoint q' = rq_endpoint q" and "rq_error q' = 0"
    and "\<And>e. ep_of e t = ep_of e s" and "\<And>c. the_comm c t = the_comm c s" and "l_fab t = l_fab s"
    and "l_env t = l_env s"
proof -
  let ?g = "\<lambda>q. q\<lparr>rq_op_type := OpNone, rq_error := 0, rq_size := 0, rq_tag := 0,
     rq_source := UNINITIALIZED_COMM, rq_wait_context := None\<rparr>"
  let ?g' = "\<lambda>q. q\<lparr>rq_op_type := OpNone, rq_error := 0, rq_size := 0, rq_tag := 0,
     rq_source := UNINITIALIZED_COMM\<rparr>"
  have eq: "upd_req r ?g s = upd_req r ?g' s" using q idle by (cases q) (simp add: upd_req_def)
  have "lfi_inv (upd_req r ?g s)" unfolding eq by (rule lfi_inv_upd_req [OF inv]) simp_all
  then show ?thesis
    using that [of "upd_req r ?g s" "?g q"] request_reset_idle [OF q idle] q
    by (auto simp: fun_eq_iff)
qed

text \<open>
  A submission of an idle request: it succeeds, the request is in flight with its fields untouched,
  exactly one operation is at the end of the chosen queue with the request's context, and nothing
  was handed to the fabric.
\<close>

lemma submit_ok:
  assumes inv: "lfi_inv s" and q: "l_reqs s r = Some q" and idle: "rq_wait_context q = None"
    and c: "rq_comm q = c" and m: "the_comm c s = Some m" and vq: "vq_inv (queue_of b (ep_of e s))"
  obtains t k where "submit r c e b op s = Some (LFI_SUCCESS, t)" and "lfi_inv t"
    and "l_reqs t = (l_reqs s)(r \<mapsto> q\<lparr>rq_wait_context := Some k\<rparr>)"
    and "get_request k t = Some r"
    and "vq_inv (queue_of b (ep_of e t))"
    and "vq_list (queue_of b (ep_of e t)) = vq_list (queue_of b (ep_of e s)) @ [op k]"
    and "queue_of (\<not> b) (ep_of e t) = queue_of (\<not> b) (ep_of e s)"
    and "\<And>e'. e' \<noteq> e \<Longrightarrow> queue_of b' (ep_of e' t) = queue_of b' (ep_of e' s)"
    and "l_fab t = l_fab s"
proof -
  obtain k s1 where new: "store_new_context r s = (k, s1)" by (metis prod.exhaust)
  let ?s2 = "queue_op e b (op k) s1"
  let ?q = "q\<lparr>rq_wait_context := Some k\<rparr>"
  have s1: "l_reqs s1 = (l_reqs s)(r \<mapsto> ?q)" "\<And>e. ep_of e s1 = ep_of e s" "\<And>c. the_comm c s1 = the_comm c s"
    "l_fab s1 = l_fab s"
    using store_new_context_reqs [of r s] store_new_context_frame [where r = r and s = s] q new by simp_all
  have "submitting r s1" using submit_start [OF inv q idle] m c new by simp
  then have sub: "submitting r ?s2" unfolding queue_op_def by (rule submitting_upd_ep)
  have "l_reqs ?s2 r = Some ?q" "rq_wait_context ?q \<noteq> None" "the_comm (rq_comm ?q) ?s2 = Some m"
    using m c by (simp_all add: queue_op_def s1)
  from submit_end [OF sub this]
  obtain t where t: "register_request r c ?s2 = Some t" "lfi_inv t" "quiet ?s2 t" "l_reqs t = l_reqs ?s2"
    "l_fab t = l_fab ?s2" using c by auto
  have held: "get_request k t = Some r"
    using t(2,4) ctx_assigned [of t k r] by (simp add: lfi_inv_def get_request_def holds_ctx_def queue_op_def s1)
  have qs: "queue_of b' (ep_of e' t) = queue_of b' (ep_of e' ?s2)" for b' e' using t(3) by (rule quiet_queue)
  have "submit r c e b op s = Some (LFI_SUCCESS, t)" using new t(1) by (simp add: submit_def)
  then show ?thesis
    using that [of t k] t held vq vq_push_correct [of "queue_of b (ep_of e s)" po_null "op k"]
    by (simp add: qs queue_op_def s1)
qed

subsection \<open>Properties\<close>

lemma async_found:
  assumes "l_reqs s r = Some q" and "the_comm (rq_comm_id q) s = Some m" and "cm_is_ready m \<noteq> NOT_READY"
  shows "get_comm_and_mutex w (rq_comm_id q) s = Some (Some (rq_comm_id q), s)"
  using assms by (simp add: get_comm_and_mutex_def get_comm_ready)


lemmas async_defs =
  async_send_internal_def async_recv_internal_def async_put_def async_get_def async_rma_def
  iov_over_def get_comm_and_mutex_def Let_def

text \<open>C6. Refusals. A posting function on a request whose communicator is not in the table
  returns \<open>-LFI_COMM_NOT_FOUND\<close>; on a cancelled communicator all four return
  \<open>-LFI_BROKEN_COMM\<close>; a send on an "any" communicator returns \<open>-LFI_SEND_ANY_COMM\<close>; a vectored
  send or receive of more parts than the provider takes returns \<open>-LFI_IOV_LIMIT\<close>. In every one of
  these cases the state is exactly what it was: no context is taken, nothing is queued or monitored.\<close>

theorem async_refusals:
  assumes req: "l_reqs s r = Some q"
    and entry: "map_of (l_comms s) (rq_comm_id q) = None \<and> code = - LFI_COMM_NOT_FOUND \<or>
      map_of (l_comms s) (rq_comm_id q) = Some (Some m) \<and> cm_is_ready m \<noteq> NOT_READY \<and>
        (cm_is_canceled m \<and> code = - LFI_BROKEN_COMM \<or>
         \<not> cm_is_canceled m \<and> any_comm (rq_comm_id q) \<and> code = - LFI_SEND_ANY_COMM \<or>
         \<not> cm_is_canceled m \<and> \<not> any_comm (rq_comm_id q) \<and> code = - LFI_IOV_LIMIT \<and>
           ep_info (ep_of (cm_endpoint m) s) = Some info \<and> fi_iov_limit info < n)"
  shows "async_send_internal w b n SENDV tag r p s = Some (code, s) \<and>
    (code \<noteq> - LFI_SEND_ANY_COMM \<longrightarrow> async_recv_internal w b n RECVV tag r p s = Some (code, s)) \<and>
    (code \<noteq> - LFI_IOV_LIMIT \<longrightarrow> async_send_internal w b n SEND tag r p s = Some (code, s)) \<and>
    (code = - LFI_COMM_NOT_FOUND \<or> code = - LFI_BROKEN_COMM \<longrightarrow>
      async_recv_internal w b n RECV tag r p s = Some (code, s) \<and>
      async_put w b n a key r p s = Some (code, s) \<and> async_get w b n a key r p s = Some (code, s))"
  using entry
proof (elim disjE conjE)
  assume "map_of (l_comms s) (rq_comm_id q) = None" "code = - LFI_COMM_NOT_FOUND"
  then show ?thesis using req by (simp add: async_defs get_comm_unknown)
next
  assume m: "map_of (l_comms s) (rq_comm_id q) = Some (Some m)" "cm_is_ready m \<noteq> NOT_READY"
    and "cm_is_canceled m" "code = - LFI_BROKEN_COMM"
  then show ?thesis using req by (simp add: async_defs get_comm_ready the_comm_def)
next
  assume m: "map_of (l_comms s) (rq_comm_id q) = Some (Some m)" "cm_is_ready m \<noteq> NOT_READY"
    and "\<not> cm_is_canceled m" "any_comm (rq_comm_id q)" "code = - LFI_SEND_ANY_COMM"
  then show ?thesis using req by (simp add: async_defs get_comm_ready the_comm_def lfi_errors)
next
  assume m: "map_of (l_comms s) (rq_comm_id q) = Some (Some m)" "cm_is_ready m \<noteq> NOT_READY"
    and "\<not> cm_is_canceled m" "\<not> any_comm (rq_comm_id q)" "code = - LFI_IOV_LIMIT"
      "ep_info (ep_of (cm_endpoint m) s) = Some info" "fi_iov_limit info < n"
  then show ?thesis using req by (simp add: async_defs get_comm_ready the_comm_def lfi_errors)
qed

text \<open>A request of communicator 7 of the concrete world, idle.\<close>

definition sample_idle :: "sample lfi" where
  "sample_idle = snd (the (new_request Peer 7 sample_lfi))"

lemma sample_idle_facts:
  "lfi_inv sample_idle" "the_comm 7 sample_idle = Some sample_comm" "l_env sample_idle = env_default"
  "\<exists>q. l_reqs sample_idle 0 = Some q \<and> rq_wait_context q = None \<and> rq_comm q = 7 \<and> rq_comm_id q = 7"
  "\<And>e. ep_of e sample_idle = ep_of e sample_lfi"
  "l_comms sample_idle = [(7, Some sample_comm)]"
proof -
  obtain t where "new_request Peer 7 sample_lfi = Some (l_next_rid sample_lfi, t)" and inv: "lfi_inv t"
    by (rule new_request_inv [OF sample_inv sample_comm_7, of Peer]) blast
  then have "sample_idle = t" by (simp add: sample_idle_def)
  with inv show "lfi_inv sample_idle" by simp
  show "the_comm 7 sample_idle = Some sample_comm" "l_env sample_idle = env_default"
    "\<exists>q. l_reqs sample_idle 0 = Some q \<and> rq_wait_context q = None \<and> rq_comm q = 7 \<and> rq_comm_id q = 7"
    "\<And>e. ep_of e sample_idle = ep_of e sample_lfi"  "l_comms sample_idle = [(7, Some sample_comm)]"
    by (simp_all add: sample_idle_def new_request_def sample_comm_7 Let_def)
      (simp_all add: sample_lfi_def lfi_new_def set_comm_def upd_ep_def sample_comm_def comm_new_def)
qed


theorem async_refusals_witness:
  "async_send_internal sample_world (Mem 0) 9 SENDV 5 0 False
     (set_comm 7 (sample_comm\<lparr>cm_is_canceled := True\<rparr>) sample_idle) =
   Some (- LFI_BROKEN_COMM, set_comm 7 (sample_comm\<lparr>cm_is_canceled := True\<rparr>) sample_idle)"
proof -
  obtain q where q: "l_reqs sample_idle 0 = Some q" "rq_comm_id q = 7" using sample_idle_facts(4) by blast
  then show ?thesis
    using async_refusals [of "set_comm 7 (sample_comm\<lparr>cm_is_canceled := True\<rparr>) sample_idle" 0 q
      "- LFI_BROKEN_COMM" "sample_comm\<lparr>cm_is_canceled := True\<rparr>"]
    by (simp add: set_comm_def sample_idle_facts(6) sample_comm_def comm_new_def)
qed

end
