(* ===== verification/Memory_Region.thy ===== *)
theory Memory_Region
  imports Comm_Table Sample_World
begin

text \<open>
  \<open>src/impl/mr.cpp\<close>: registering memory with both domains and undoing it. A region is known by the
  pair of keys that the two domains gave it; \<open>m_mrs\<close> maps the pair to the two registrations.
\<close>

definition mr_error :: mr_key where
  "mr_error = \<lparr>shm_key = - LFI_LIBFABRIC_ERROR, peer_key = - LFI_LIBFABRIC_ERROR\<rparr>"

subsection \<open>Operations\<close>

definition close_mr :: "'f world \<Rightarrow> fid \<Rightarrow> 'f lfi \<Rightarrow> 'f lfi" where
  "close_mr w x s = (if x \<noteq> 0 then snd (fab (w_close w x) s) else s)"

text \<open>One domain: \<open>fi_mr_reg\<close>, then \<open>fi_mr_key\<close>. \<open>Inl\<close> is the early return with the handle made so
  far, \<open>Inr\<close> the handle and its key.\<close>

definition reg_domain :: "'f world \<Rightarrow> fid \<Rightarrow> ptr \<Rightarrow> u64 \<Rightarrow> 'f lfi \<Rightarrow> ((fid + fid \<times> int) \<times> 'f lfi)" where
  "reg_domain w d a n s =
     (let ((ret, x), s1) = fab (w_mr_reg w d a n) s
      in if ret < 0 then (Inl 0, s1)
         else (let key = w_mr_key w x (l_fab s1)
               in if key < 0 then (Inl x, s1) else (Inr (x, key), s1)))"

text \<open>\<open>mr_reg\<close>. An early return after the peer registration closes it in the shared-memory branch
  only; a registration whose key cannot be read is not closed at all.\<close>

definition mr_reg :: "'f world \<Rightarrow> ptr \<Rightarrow> u64 \<Rightarrow> 'f lfi \<Rightarrow> mr_key \<times> 'f lfi" where
  "mr_reg w a n s =
     (let (peer, s1) =
        (if ep_enable (l_peer s) then reg_domain w (ep_domain (l_peer s)) a n s else (Inr (0, -1), s))
      in case peer of
           Inl _ \<Rightarrow> (mr_error, s1)
         | Inr (peer_mr, peer_k) \<Rightarrow>
             (if ep_enable (l_shm s1) \<and> ep_domain (l_shm s1) \<noteq> ep_domain (l_peer s1)
              then (case reg_domain w (ep_domain (l_shm s1)) a n s1 of
                      (Inl _, s2) \<Rightarrow> (mr_error, close_mr w peer_mr s2)
                    | (Inr (shm_mr, shm_k), s2) \<Rightarrow>
                        (let key = \<lparr>shm_key = shm_k, peer_key = peer_k\<rparr>
                         in (key, s2\<lparr>l_mrs := emplace key
                              \<lparr>mr_addr = a, mr_size = n, mr_shm = shm_mr, mr_peer = peer_mr\<rparr> (l_mrs s2)\<rparr>)))
              else (let key = \<lparr>shm_key = peer_k, peer_key = peer_k\<rparr>
                    in (key, s1\<lparr>l_mrs := emplace key
                         \<lparr>mr_addr = a, mr_size = n, mr_shm = 0, mr_peer = peer_mr\<rparr> (l_mrs s1)\<rparr>))))"

definition mr_unreg :: "'f world \<Rightarrow> mr_key \<Rightarrow> 'f lfi \<Rightarrow> int \<times> 'f lfi" where
  "mr_unreg w key s =
     (case map_of (l_mrs s) key of
        None \<Rightarrow> (- LFI_MR_NOT_FOUND, s)
      | Some mr \<Rightarrow>
          (let s1 = close_mr w (mr_shm mr) (close_mr w (mr_peer mr) s)
           in (LFI_SUCCESS, s1\<lparr>l_mrs := AList.delete key (l_mrs s1)\<rparr>)))"

subsection \<open>Round trip\<close>

lemma close_mr_mrs [simp]: "l_mrs (close_mr w x s) = l_mrs s"
  by (simp add: close_mr_def fab_def case_prod_beta Let_def)

lemma reg_domain_frame:
  "l_mrs (snd (reg_domain w d a n s)) = l_mrs s" "l_shm (snd (reg_domain w d a n s)) = l_shm s"
  "l_peer (snd (reg_domain w d a n s)) = l_peer s"
  by (simp_all add: reg_domain_def fab_def case_prod_beta Let_def)

text \<open>A registration that is not refused is in the table, with whatever it replaced untouched.\<close>

lemma mr_reg_table:
  assumes "mr_reg w a n s = (key, t)" and "key \<noteq> mr_error" and "map_of (l_mrs s) key = None"
  obtains mr where "map_of (l_mrs t) = (map_of (l_mrs s))(key \<mapsto> mr)" and "mr_addr mr = a" and "mr_size mr = n"
proof -
  obtain peer s1 where 1: "(if ep_enable (l_peer s) then reg_domain w (ep_domain (l_peer s)) a n s
      else (Inr (0, -1), s)) = (peer, s1)" by (metis prod.exhaust)
  have mrs1: "l_mrs s1 = l_mrs s"
    using 1 reg_domain_frame(1) [of w "ep_domain (l_peer s)" a n s] by (auto split: if_splits)
  show ?thesis
  proof (cases peer)
    case (Inl x)
    then show ?thesis using assms 1 by (simp add: mr_reg_def)
  next
    case (Inr p)
    obtain pm pk where p: "p = (pm, pk)" by (metis prod.exhaust)
    obtain shm s2 where 2: "reg_domain w (ep_domain (l_shm s1)) a n s1 = (shm, s2)" by (metis prod.exhaust)
    have mrs2: "l_mrs s2 = l_mrs s" using 2 mrs1 reg_domain_frame(1) [of w "ep_domain (l_shm s1)" a n s1] by simp
    show ?thesis
    proof (cases "ep_enable (l_shm s1) \<and> ep_domain (l_shm s1) \<noteq> ep_domain (l_peer s1)")
      case True
      then show ?thesis
      proof (cases shm)
        case (Inl x)
        then show ?thesis using assms 1 2 Inr p True by (simp add: mr_reg_def)
      next
        case (Inr sp)
        then obtain sm sk where "shm = Inr (sm, sk)" by (cases sp) simp
        then have key: "key = \<lparr>shm_key = sk, peer_key = pk\<rparr>"
          and t: "t = s2\<lparr>l_mrs := emplace key \<lparr>mr_addr = a, mr_size = n, mr_shm = sm, mr_peer = pm\<rparr> (l_mrs s2)\<rparr>"
          using assms(1) 1 2 \<open>peer = Inr p\<close> p True by (auto simp: mr_reg_def Let_def)
        have "map_of (l_mrs t) = (map_of (l_mrs s))(key \<mapsto> \<lparr>mr_addr = a, mr_size = n, mr_shm = sm, mr_peer = pm\<rparr>)"
          using assms(3) by (simp add: t mrs2 map_of_emplace)
        then show ?thesis by (rule that) simp_all
      qed
    next
      case False
      then have key: "key = \<lparr>shm_key = pk, peer_key = pk\<rparr>"
        and t: "t = s1\<lparr>l_mrs := emplace key \<lparr>mr_addr = a, mr_size = n, mr_shm = 0, mr_peer = pm\<rparr> (l_mrs s1)\<rparr>"
        using assms(1) 1 Inr p by (auto simp: mr_reg_def Let_def)
      have "map_of (l_mrs t) = (map_of (l_mrs s))(key \<mapsto> \<lparr>mr_addr = a, mr_size = n, mr_shm = 0, mr_peer = pm\<rparr>)"
        using assms(3) by (simp add: t mrs1 map_of_emplace)
      then show ?thesis by (rule that) simp_all
    qed
  qed
qed

subsection \<open>Properties\<close>

text \<open>Registration round trip. A region that was registered under a key not in use is found
  under that key with its address and length; unregistering it succeeds, leaves the table as it was
  before the registration, and unregistering it a second time is refused without any effect.\<close>

theorem mr_round_trip:
  assumes "mr_reg w a n s = (key, t)" and "key \<noteq> mr_error" and "map_of (l_mrs s) key = None"
  shows "\<exists>u mr. map_of (l_mrs t) key = Some mr \<and> mr_addr mr = a \<and> mr_size mr = n \<and>
     mr_unreg w key t = (LFI_SUCCESS, u) \<and> map_of (l_mrs u) = map_of (l_mrs s) \<and>
     mr_unreg w key u = (- LFI_MR_NOT_FOUND, u)"
proof -
  obtain mr where tab: "map_of (l_mrs t) = (map_of (l_mrs s))(key \<mapsto> mr)" and mr: "mr_addr mr = a" "mr_size mr = n"
    by (rule mr_reg_table [OF assms])
  let ?u = "snd (mr_unreg w key t)"
  have un: "mr_unreg w key t = (LFI_SUCCESS, ?u)" using tab by (simp add: mr_unreg_def Let_def)
  have "map_of (l_mrs ?u) = map_of (l_mrs s)"
    using tab assms(3) by (simp add: mr_unreg_def Let_def map_of_delete fun_upd_idem)
  moreover from this have "mr_unreg w key ?u = (- LFI_MR_NOT_FOUND, ?u)"
    using assms(3) by (simp add: mr_unreg_def)
  ultimately show ?thesis using tab mr un by auto
qed

lemma sample_mr_reg:
  "mr_reg sample_world (Mem 64) 100 sample_lfi =
     (\<lparr>shm_key = 1, peer_key = 1\<rparr>,
      sample_lfi\<lparr>l_mrs := [(\<lparr>shm_key = 1, peer_key = 1\<rparr>,
          \<lparr>mr_addr = Mem 64, mr_size = 100, mr_shm = 0, mr_peer = 1\<rparr>)],
        l_fab := sample0\<lparr>sf_next := 2, sf_open := [1]\<rparr>\<rparr>)"
  by (simp add: mr_reg_def reg_domain_def sample_simps fab_def sf_new_def emplace_def Let_def)

theorem mr_round_trip_witness:
  "\<exists>u. mr_unreg sample_world \<lparr>shm_key = 1, peer_key = 1\<rparr>
     (snd (mr_reg sample_world (Mem 64) 100 sample_lfi)) = (LFI_SUCCESS, u) \<and> map_of (l_mrs u) = map_of []"
proof -
  have "map_of (l_mrs sample_lfi) = map_of []"
    by (simp add: sample_lfi_def lfi_new_def set_comm_def upd_ep_def)
  then show ?thesis
    using mr_round_trip [OF sample_mr_reg] by (auto simp: sample_mr_reg mr_error_def lfi_errors)
qed

text \<open>A leaked registration. When \<open>fi_mr_reg\<close> succeeds on the inter-node domain but its key
  cannot be read, \<open>mr_reg\<close> reports the error, and the registration is neither closed nor recorded:
  the fabric still has it open and no later \<open>mr_unreg\<close> can reach it.\<close>

theorem mr_reg_leak:
  "\<exists>t. mr_reg (sample_world\<lparr>w_mr_key := \<lambda>_ _. - FI_ENOSYS\<rparr>) (Mem 64) 100 sample_lfi = (mr_error, t) \<and>
     sf_open (l_fab sample_lfi) = [] \<and> sf_open (l_fab t) = [1] \<and> l_mrs t = [] \<and>
     (\<forall>key. mr_unreg sample_world key t = (- LFI_MR_NOT_FOUND, t))"
  by (simp add: mr_reg_def reg_domain_def sample_simps fab_def sf_new_def Let_def fi_consts mr_unreg_def)

end
