(* ===== verification/Ft_Manager.thy ===== *)
theory Ft_Manager
  imports Posting Memory_Region
begin

text \<open>
  Cancellation and fault tolerance: \<open>lfi_request::cancel\<close> and the destructor of
  \<open>src/impl/lfi_request.cpp\<close>, and the manager of \<open>src/impl/ft_manager.cpp\<close>: the heartbeat of a
  communicator, the reports to requests on an "any" communicator, the periodic loop, and the
  cancellation of a communicator.

  Cancelling a request makes progress on its endpoint, and progress runs the periodic loop, which
  cancels. The functions take the nested \<open>protected_progress\<close> as a parameter; the recursion is
  closed at the end with a bound on its depth.
\<close>

type_synonym 'f prog = "ep_id \<Rightarrow> bool \<Rightarrow> 'f lfi \<Rightarrow> (int \<times> 'f lfi) option"

definition HEARBEAT_CODE :: u64 where "HEARBEAT_CODE = 0xBAADC0DEDEAD11FE"

subsection \<open>Cancelling a request\<close>

definition has_context :: "ctx \<Rightarrow> pending_op \<Rightarrow> bool" where
  "has_context k op \<longleftrightarrow> po_context op = Some k"

definition drop_pending :: "ctx \<Rightarrow> endpoint \<Rightarrow> endpoint" where
  "drop_pending k x =
     x\<lparr>ep_priority := vq_erase_if (has_context k) (ep_priority x),
       ep_pending := vq_erase_if (has_context k) (ep_pending x)\<rparr>"

text \<open>The part of \<open>cancel\<close> under the request's mutex, for an operation that libfabric can cancel: which
  error the request will get. \<open>&p_ep->fid\<close> of a null endpoint is undefined.\<close>

definition cancel_posted :: "'f world \<Rightarrow> rid \<Rightarrow> request \<Rightarrow> ctx \<Rightarrow> 'f lfi \<Rightarrow> (int \<times> 'f lfi) option" where
  "cancel_posted w r q k s =
     (let x = ep_of (rq_endpoint q) s;
          p_ep = (if rq_op_type q = OpRecv then rx_endpoint x else tx_endpoint x)
      in if p_ep = 0 then None
         else do {
           (comm, s1) \<leftarrow> get_comm_and_mutex w (rq_comm_id q) (s\<lparr>l_fab := w_cancel w p_ep k (l_fab s)\<rparr>);
           q1 \<leftarrow> l_reqs s1 r;
           let canceled = (case comm of None \<Rightarrow> False
                           | Some c \<Rightarrow> (case the_comm c s1 of None \<Rightarrow> False | Some m \<Rightarrow> cm_is_canceled m));
           Some (if canceled \<or> rq_error q1 = - LFI_BROKEN_COMM then - LFI_BROKEN_COMM else - LFI_CANCELED, s1) })"

definition cancel_with :: "'f prog \<Rightarrow> 'f world \<Rightarrow> rid \<Rightarrow> 'f lfi \<Rightarrow> 'f lfi option" where
  "cancel_with pp w r s =
     do { q \<leftarrow> l_reqs s r;
          case rq_wait_context q of
            None \<Rightarrow> Some s
          | Some k \<Rightarrow> do {
              let s1 = upd_ep (rq_endpoint q) (drop_pending k) s;
              (err, s2) \<leftarrow> (if rq_op_type q \<noteq> OpInject then cancel_posted w r q k s1
                            else Some (- LFI_CANCELED, s1));
              (_, s3) \<leftarrow> pp (rq_endpoint q) False s2;
              complete w r err s3 } }"

text \<open>\<open>~lfi_request\<close>: cancel it if it is in flight, then the object is gone.\<close>

definition destroy_request :: "'f prog \<Rightarrow> 'f world \<Rightarrow> rid \<Rightarrow> 'f lfi \<Rightarrow> 'f lfi option" where
  "destroy_request pp w r s =
     do { s1 \<leftarrow> (if is_completed r s then Some s else cancel_with pp w r s);
          Some (s1\<lparr>l_reqs := (l_reqs s1)(r := None)\<rparr>) }"

subsection \<open>Cancelling a communicator\<close>

text \<open>\<open>while (request)\<close>: always the head, until the list is empty.\<close>

partial_function (option) drain_requests :: "'f prog \<Rightarrow> 'f world \<Rightarrow> cid \<Rightarrow> 'f lfi \<Rightarrow> 'f lfi option" where
  "drain_requests pp w c s =
     do { m \<leftarrow> the_comm c s;
          case dl_head (cm_requests m) of
            None \<Rightarrow> Some s
          | Some r \<Rightarrow> do { s1 \<leftarrow> cancel_with pp w r s; drain_requests pp w c s1 } }"

declare drain_requests.simps [code]

definition cancel_comm :: "'f prog \<Rightarrow> 'f world \<Rightarrow> cid \<Rightarrow> 'f lfi \<Rightarrow> (int \<times> 'f lfi) option" where
  "cancel_comm pp w c s =
     do { m \<leftarrow> the_comm c s;
          s1 \<leftarrow> drain_requests pp w c (upd_comm c (\<lambda>m. m\<lparr>cm_is_canceled := True\<rparr>) s);
          m1 \<leftarrow> the_comm c s1;
          s2 \<leftarrow> (case cm_heartbeat_req m1 of
                   None \<Rightarrow> Some s1
                 | Some hb \<Rightarrow> destroy_request pp w hb (upd_comm c (\<lambda>m. m\<lparr>cm_heartbeat_req := None\<rparr>) s1));
          Some (0, ft_comms_erase (cm_endpoint m1) c s2) }"

subsection \<open>Heartbeat\<close>

text \<open>\<open>std::make_unique<lfi_request>\<close> on the first use.\<close>

definition heartbeat_request :: "cid \<Rightarrow> comm \<Rightarrow> 'f lfi \<Rightarrow> (rid \<times> 'f lfi) option" where
  "heartbeat_request c m s =
     (case cm_heartbeat_req m of
        Some hb \<Rightarrow> Some (hb, s)
      | None \<Rightarrow> do { (hb, s1) \<leftarrow> new_request (cm_endpoint m) c s;
                      Some (hb, upd_comm c (\<lambda>m. m\<lparr>cm_heartbeat_req := Some hb\<rparr>) s1) })"

definition start_heartbeat :: "'f world \<Rightarrow> cid \<Rightarrow> comm \<Rightarrow> cid list \<Rightarrow> 'f lfi \<Rightarrow> (cid list \<times> 'f lfi) option" where
  "start_heartbeat w c m canceled s =
     do { (hb, s1) \<leftarrow> heartbeat_request c m s;
          if \<not> is_completed hb s1 then Some (canceled, s1)
          else do {
            s2 \<leftarrow> request_reset hb s1;
            (ret, s3) \<leftarrow> async_get w (HeartbeatOf c) 8 (cm_remote_heartbeat_addr m) (cm_remote_heartbeat_key m)
                            hb True (s2\<lparr>l_fab := w_set_heartbeat w c 0 (l_fab s2)\<rparr>);
            if ret < 0
            then Some (canceled @ [cm_rank_peer m], upd_comm c (\<lambda>m. m\<lparr>cm_status := FT_ERROR\<rparr>) s3)
            else (let (t, s4) = clock_now w s3
                  in Some (canceled, upd_comm c (\<lambda>m. m\<lparr>cm_status := HEARTBEAT, cm_heartbeat_time := t\<rparr>) s4)) } }"

text \<open>The elapsed times are narrowed to \<open>int32_t\<close>.\<close>

definition process_comm ::
    "'f world \<Rightarrow> cid \<Rightarrow> int \<Rightarrow> int \<Rightarrow> cid list \<Rightarrow> 'f lfi \<Rightarrow> (cid list \<times> 'f lfi) option" where
  "process_comm w c ft_ms now canceled s =
     do { m \<leftarrow> the_comm c s;
          if dl_size (cm_requests m) = 0 then Some (canceled, ft_comms_erase (cm_endpoint m) c s)
          else case cm_status m of
            IDLE \<Rightarrow>
              if i32 (ms_of_ns (now - cm_last_request_time m)) \<ge> ft_ms
              then start_heartbeat w c m canceled s else Some (canceled, s)
          | HEARTBEAT \<Rightarrow> do {
              hb \<leftarrow> cm_heartbeat_req m;
              if is_completed hb s \<and> w_heartbeat w c (l_fab s) = HEARBEAT_CODE
              then Some (canceled, upd_comm c (\<lambda>m. m\<lparr>cm_status := IDLE\<rparr>) s)
              else if i32 (ms_of_ns (now - cm_heartbeat_time m)) > max ft_ms 1000
              then Some (canceled @ [cm_rank_peer m], upd_comm c (\<lambda>m. m\<lparr>cm_status := FT_ERROR\<rparr>) s)
              else Some (canceled, s) }
          | FT_ERROR \<Rightarrow> Some (canceled, s) }"

subsection \<open>Reports to "any" requests\<close>

text \<open>
  The lambda \<open>report_to_any\<close>: pair the waiting requests with the failures; the reported requests are
  collected, what is left of either side is returned.
\<close>

fun report_to_any :: "ep_id \<Rightarrow> rid list \<Rightarrow> cid list \<Rightarrow> 'f lfi \<Rightarrow> rid list \<times> cid list \<times> 'f lfi" where
  "report_to_any e (r # reqs) (c # errs) s =
     report_to_any e reqs errs
       (upd_ep e (\<lambda>x. x\<lparr>ep_to_cancel := ep_to_cancel x @ [r]\<rparr>)
         (upd_req r (\<lambda>q. q\<lparr>rq_source := c, rq_error := - LFI_BROKEN_COMM\<rparr>) s))"
| "report_to_any e reqs errs s = (reqs, errs, s)"

fun cancel_all :: "'f prog \<Rightarrow> 'f world \<Rightarrow> rid list \<Rightarrow> 'f lfi \<Rightarrow> 'f lfi option" where
  "cancel_all pp w [] s = Some s"
| "cancel_all pp w (r # rs) s = do { s1 \<leftarrow> cancel_with pp w r s; cancel_all pp w rs s1 }"

definition handle_any_comm_reports :: "'f prog \<Rightarrow> 'f world \<Rightarrow> ep_id \<Rightarrow> cid list \<Rightarrow> 'f lfi \<Rightarrow> 'f lfi option" where
  "handle_any_comm_reports pp w e canceled s =
     (let x = ep_of e s
      in if ep_any_reqs x = [] \<and> ep_failed x = [] \<and> canceled = []
         then Some s
         else (let (reqs1, failed1, s1) = report_to_any e (ep_any_reqs x) (ep_failed x) s;
                   (reqs2, rest, s2) = report_to_any e reqs1 canceled s1;
                   s3 = upd_ep e (\<lambda>x. x\<lparr>ep_any_reqs := reqs2, ep_failed := fold List.insert rest failed1\<rparr>) s2
               in do { s4 \<leftarrow> cancel_all pp w (ep_to_cancel (ep_of e s3)) s3;
                       Some (upd_ep e (\<lambda>x. x\<lparr>ep_to_cancel := []\<rparr>) s4) }))"

subsection \<open>The periodic loop\<close>

fun process_all :: "'f world \<Rightarrow> cid list \<Rightarrow> int \<Rightarrow> int \<Rightarrow> cid list \<Rightarrow> 'f lfi \<Rightarrow> (cid list \<times> 'f lfi) option" where
  "process_all w [] ft_ms now canceled s = Some (canceled, s)"
| "process_all w (c # cs) ft_ms now canceled s =
     do { (canceled1, s1) \<leftarrow> process_comm w c ft_ms now canceled s; process_all w cs ft_ms now canceled1 s1 }"

text \<open>The list is followed through \<open>next\<close>, which is read after the node has been processed.\<close>

partial_function (option) process_list ::
    "'f world \<Rightarrow> cid option \<Rightarrow> int \<Rightarrow> int \<Rightarrow> cid list \<Rightarrow> 'f lfi \<Rightarrow> (cid list \<times> 'f lfi) option" where
  "process_list w p ft_ms now canceled s =
     (case p of
        None \<Rightarrow> Some (canceled, s)
      | Some c \<Rightarrow> do { (canceled1, s1) \<leftarrow> process_comm w c ft_ms now canceled s;
                       process_list w (d_next (l_clinks s1 c)) ft_ms now canceled1 s1 })"

declare process_list.simps [code]

definition comms_of_ep :: "ep_id \<Rightarrow> 'f lfi \<Rightarrow> cid list" where
  "comms_of_ep e s =
     map fst (filter (\<lambda>(c, m). case m of None \<Rightarrow> False
       | Some m \<Rightarrow> ep_eq (ep_of (cm_endpoint m) s) (ep_of e s) \<and> \<not> any_comm (cm_rank_peer m)) (l_comms s))"

fun cancel_comms :: "'f prog \<Rightarrow> 'f world \<Rightarrow> cid list \<Rightarrow> 'f lfi \<Rightarrow> 'f lfi option" where
  "cancel_comms pp w [] s = Some s"
| "cancel_comms pp w (c # cs) s =
     do { (p, s1) \<leftarrow> get_comm_internal w c s;
          s2 \<leftarrow> (case p of None \<Rightarrow> Some s1 | Some k \<Rightarrow> map_option snd (cancel_comm pp w k s1));
          cancel_comms pp w cs s2 }"

definition one_loop :: "'f prog \<Rightarrow> 'f world \<Rightarrow> ep_id \<Rightarrow> 'f lfi \<Rightarrow> 'f lfi option" where
  "one_loop pp w e s =
     (if ep_progress_count (ep_of e s) + 1 < 100
      then Some (upd_ep e (\<lambda>x. x\<lparr>ep_progress_count := ep_progress_count x + 1\<rparr>) s)
      else (let (now, s1) = clock_now w (upd_ep e (\<lambda>x. x\<lparr>ep_progress_count := 0\<rparr>) s)
            in if ms_of_ns (now - ep_last_progress (ep_of e s1)) < 10 then Some s1
               else (let s2 = upd_ep e (\<lambda>x. x\<lparr>ep_last_progress := now\<rparr>) s1;
                         ft_ms = max 0 (i32 (LFI_fault_tolerance_time (l_env s2) * 1000));
                         is_any = (ep_any_reqs (ep_of e s2) \<noteq> [])
                     in do {
                       (canceled, s3) \<leftarrow>
                         (if is_any
                          then process_all w (comms_of_ep e s2) ft_ms now (ep_canceled_coms (ep_of e s2)) s2
                          else process_list w (dl_head (ep_ft_comms (ep_of e s2))) ft_ms now
                                 (ep_canceled_coms (ep_of e s2)) s2);
                       let s3' = upd_ep e (\<lambda>x. x\<lparr>ep_canceled_coms := canceled\<rparr>) s3;
                       s4 \<leftarrow> cancel_comms pp w canceled s3';
                       s5 \<leftarrow> (if is_any then handle_any_comm_reports pp w e canceled s4 else Some s4);
                       Some (upd_ep e (\<lambda>x. x\<lparr>ep_canceled_coms := []\<rparr>) s5) })))"

subsection \<open>Closing the recursion\<close>

text \<open>
  \<open>protected_progress d\<close> allows \<open>d\<close> nested calls. With \<open>LFI_efficient_progress\<close> a nested call is never
  the leader and depth 1 is enough below a running \<open>progress\<close>; without it the periodic loop lets a
  nested call through only every hundredth time and ten milliseconds.
\<close>

fun protected_progress :: "nat \<Rightarrow> 'f world \<Rightarrow> 'f prog" where
  "protected_progress 0 w e callbacks s = None"
| "protected_progress (Suc d) w e callbacks s =
     protected_progress_with (progress_with (one_loop (protected_progress d w) w e) w e) e callbacks s"

definition progress :: "nat \<Rightarrow> 'f world \<Rightarrow> 'f prog" where
  "progress d w e = progress_with (one_loop (protected_progress d w) w e) w e"

definition cancel :: "nat \<Rightarrow> 'f world \<Rightarrow> rid \<Rightarrow> 'f lfi \<Rightarrow> 'f lfi option" where
  "cancel d w = cancel_with (protected_progress d w) w"

subsection \<open>Start and stop\<close>

definition setup_heartbeat :: "'f world \<Rightarrow> 'f lfi \<Rightarrow> 'f lfi" where
  "setup_heartbeat w s =
     (if shm_key (l_hb_key s) \<ge> 0 then s
      else (let (key, s1) = mr_reg w LocalHeartbeat 8 s in s1\<lparr>l_hb_key := key\<rparr>))"

definition ft_start :: "'f world \<Rightarrow> 'f lfi \<Rightarrow> 'f lfi" where
  "ft_start w s =
     (if \<not> LFI_fault_tolerance (l_env s) \<or> l_ft_init s then s
      else setup_heartbeat w (s\<lparr>l_ft_init := True\<rparr>))"

definition ft_stop :: "'f world \<Rightarrow> 'f lfi \<Rightarrow> 'f lfi" where
  "ft_stop w s =
     (if \<not> LFI_fault_tolerance (l_env s) \<or> \<not> l_ft_init s then s
      else (let s1 = s\<lparr>l_ft_init := False\<rparr>
            in if shm_key (l_hb_key s1) \<ge> 0
               then (snd (mr_unreg w (l_hb_key s1) s1))\<lparr>l_hb_key := \<lparr>shm_key = -1, peer_key = -1\<rparr>\<rparr>
               else s1))"

subsection \<open>A nested call never leads\<close>

declare protected_progress.simps [simp del]

text \<open>\<open>tame s t\<close>: the endpoints keep their handles and their leadership, the communicators all but
  their list and time, and the settings are the same.\<close>

definition tame :: "'f lfi \<Rightarrow> 'f lfi \<Rightarrow> bool" where
  "tame s t \<longleftrightarrow> l_env t = l_env s \<and>
     (\<forall>e. tx_endpoint (ep_of e t) = tx_endpoint (ep_of e s) \<and> rx_endpoint (ep_of e t) = rx_endpoint (ep_of e s) \<and>
          pg_in_progress (ep_pg (ep_of e t)) = pg_in_progress (ep_pg (ep_of e s))) \<and>
     (\<forall>c. map_option (map_option comm_core) (map_of (l_comms t) c) =
          map_option (map_option comm_core) (map_of (l_comms s) c))"

lemma tame_refl [simp]: "tame s s" by (simp add: tame_def)

lemma tame_trans: "tame s t \<Longrightarrow> tame t u \<Longrightarrow> tame s u" by (simp add: tame_def)

lemma quiet_tame: "quiet s t \<Longrightarrow> tame s t"
  using quiet_ep [of s t] by (simp add: quiet_def tame_def)

lemma tame_entry:
  assumes "tame s t"
  obtains "map_of (l_comms t) c = None" "map_of (l_comms s) c = None"
  | "map_of (l_comms t) c = Some None" "map_of (l_comms s) c = Some None"
  | x y where "map_of (l_comms t) c = Some (Some x)" "map_of (l_comms s) c = Some (Some y)"
      "comm_core x = comm_core y"
proof -
  have "map_option (map_option comm_core) (map_of (l_comms t) c) =
      map_option (map_option comm_core) (map_of (l_comms s) c)"
    using assms unfolding tame_def by blast
  then show ?thesis using that by (rule map_option_entry)
qed

lemma tame_lookup: "tame s t \<Longrightarrow> lookup_now c t = lookup_now c s"
  by (erule tame_entry [where c = c]) (auto simp: lookup_now_def dest: comm_core_eqD(1))

lemma tame_commD:
  "tame s t \<Longrightarrow> the_comm c s = Some m \<Longrightarrow> \<exists>m'. the_comm c t = Some m' \<and> comm_core m' = comm_core m"
  by (erule tame_entry [where c = c]) (auto simp: the_comm_def)

lemma tame_upd_ep:
  "(\<And>x. tx_endpoint (g x) = tx_endpoint x) \<Longrightarrow> (\<And>x. rx_endpoint (g x) = rx_endpoint x) \<Longrightarrow>
   (\<And>x. ep_pg (g x) = ep_pg x) \<Longrightarrow> tame s (upd_ep e g s)"
  by (simp add: tame_def)

lemma tame_fab [simp]: "tame s (s\<lparr>l_fab := f\<rparr>)"
  by (simp add: tame_def)

lemma lookup_now_fab [simp]: "lookup_now c (s\<lparr>l_fab := f\<rparr>) = lookup_now c s"
  by (simp add: lookup_now_def)

lemma protected_busy:
  assumes "LFI_efficient_progress (l_env s)" and "pg_in_progress (ep_pg (ep_of e s))" and "lfi_inv s"
  obtains t where "protected_progress (Suc d) w e callbacks s = Some (-1, t)" and "lfi_inv t" and "tame s t"
    and "l_reqs t = l_reqs s" and "l_fab t = l_fab s" and "l_free t = l_free s"
    and "\<And>e' b. queue_of b (ep_of e' t) = queue_of b (ep_of e' s)"
proof -
  let ?g = "l_next_gid s"
  let ?p = "ep_pg (ep_of e s)"
  let ?p1 = "pg_register_waiter ?g (pg_try_acquire ?g
      (pg_set ?g \<lparr>g_requested = True, g_leader = False, g_pc = Constructing\<rparr> ?p))"
  let ?s1 = "upd_ep e (\<lambda>x. x\<lparr>ep_pg := pg_register_waiter ?g (pg_try_acquire ?g
      (pg_set ?g \<lparr>g_requested = True, g_leader = False, g_pc = Constructing\<rparr> (ep_pg x)))\<rparr>) (s\<lparr>l_next_gid := Suc ?g\<rparr>)"
  have opened: "guard_open e True s = (?g, ?s1)" using assms(1) by (simp add: guard_open_def Let_def)
  have p1: "\<not> g_leader (pg_guards ?p1 ?g)" "pg_in_progress ?p1"
    using assms(2) by (simp_all add: pg_register_waiter_def pg_try_acquire_def Let_def pg_set_def)
  then have follower: "\<not> guard_leader e ?g ?s1" by (simp add: guard_leader_def)
  have p2: "pg_in_progress (pg_close ?g ?p1)"
    using p1 by (simp add: pg_close_def pg_unregister_waiter_def pg_transfer_begin_def Let_def pg_set_def)
  let ?t = "guard_close e ?g ?s1"
  have t: "?t = upd_ep e (\<lambda>x. x\<lparr>ep_pg := pg_close ?g (ep_pg x)\<rparr>) ?s1" using assms(1) by (simp add: guard_close_def)
  have run: "protected_progress (Suc d) w e callbacks s = Some (-1, ?t)"
    using opened follower by (simp add: protected_progress.simps protected_progress_with_def)
  have "lfi_inv (s\<lparr>l_next_gid := Suc ?g\<rparr>)" using assms(3) by (rule lfi_inv_cong) simp_all
  then have inv: "lfi_inv ?t" by (simp add: t)
  have "tame s ?t"
    using assms(2) p2 by (simp add: t tame_def tx_endpoint_def rx_endpoint_def)
  then show ?thesis using that [OF run inv] by (simp add: t queue_of_def)
qed

subsection \<open>Cancelling one request\<close>

text \<open>The error a cancelled request ends with.\<close>

definition cancel_code :: "'f lfi \<Rightarrow> request \<Rightarrow> int" where
  "cancel_code s q =
     (if rq_op_type q = OpInject then - LFI_CANCELED
      else if (case the_comm (rq_comm_id q) s of None \<Rightarrow> False | Some m \<Rightarrow> cm_is_canceled m) \<or>
              rq_error q = - LFI_BROKEN_COMM
      then - LFI_BROKEN_COMM else - LFI_CANCELED)"

lemma cancel_code_not_success: "cancel_code s q \<noteq> LFI_SUCCESS"
  by (simp add: cancel_code_def lfi_errors)

text \<open>What cancelling needs: the thread is inside \<open>progress\<close> on that endpoint, which has its handles, and
  the communicator is not in the middle of a connection.\<close>

definition cancel_ready :: "'f lfi \<Rightarrow> request \<Rightarrow> bool" where
  "cancel_ready s q \<longleftrightarrow> LFI_efficient_progress (l_env s) \<and> lookup_now (rq_comm_id q) s \<and>
     tx_endpoint (ep_of (rq_endpoint q) s) \<noteq> 0 \<and> rx_endpoint (ep_of (rq_endpoint q) s) \<noteq> 0 \<and>
     pg_in_progress (ep_pg (ep_of (rq_endpoint q) s))"

lemma cancel_ready_tame: "tame s t \<Longrightarrow> cancel_ready s q \<Longrightarrow> cancel_ready t q"
  using tame_lookup [of s t "rq_comm_id q"] by (simp add: cancel_ready_def tame_def)

lemma cancel_posted_ok:
  assumes ready: "cancel_ready s q" and q: "l_reqs s r = Some q" and op: "rq_op_type q \<noteq> OpInject"
  obtains f where "cancel_posted w r q k s = Some (cancel_code s q, s\<lparr>l_fab := f\<rparr>)"
proof -
  let ?x = "ep_of (rq_endpoint q) s"
  let ?p = "if rq_op_type q = OpRecv then rx_endpoint ?x else tx_endpoint ?x"
  let ?s1 = "s\<lparr>l_fab := w_cancel w ?p k (l_fab s)\<rparr>"
  have look: "lookup_now (rq_comm_id q) ?s1"
    using ready by (simp add: cancel_ready_def)
  have "?p \<noteq> 0" using ready by (simp add: cancel_ready_def)
  moreover have "get_comm_and_mutex w (rq_comm_id q) ?s1 =
      Some (map_option (\<lambda>_. rq_comm_id q) (the_comm (rq_comm_id q) s), ?s1)"
    unfolding get_comm_and_mutex_def using get_comm_now [OF look, of w] by simp
  ultimately have "cancel_posted w r q k s = Some (cancel_code s q, ?s1)"
    using q op by (simp add: cancel_posted_def Let_def cancel_code_def split: option.splits)
  then show ?thesis by (rule that)
qed

lemma tame_drop_pending: "tame s (upd_ep e (drop_pending k) s)"
  by (rule tame_upd_ep) (simp_all add: drop_pending_def tx_endpoint_def rx_endpoint_def)

text \<open>The result of a cancellation: the request alone changes, and its operation is no longer queued.\<close>

lemma cancel_ok:
  assumes inv: "lfi_inv s" and q: "l_reqs s r = Some q" and k: "rq_wait_context q = Some k"
    and ready: "cancel_ready s q"
  obtains t where "cancel (Suc d) w r s = Some t" and "lfi_inv t" and "tame s t"
    and "l_reqs t = (l_reqs s)(r \<mapsto> q\<lparr>rq_error := cancel_code s q, rq_wait_context := None\<rparr>)"
    and "\<And>b. queue_of b (ep_of (rq_endpoint q) t) = queue_of b (drop_pending k (ep_of (rq_endpoint q) s))"
    and "l_free t = l_free s"
    and "\<And>b e'. e' \<noteq> rq_endpoint q \<Longrightarrow> queue_of b (ep_of e' t) = queue_of b (ep_of e' s)"
proof -
  let ?e = "rq_endpoint q"
  let ?s1 = "upd_ep ?e (drop_pending k) s"
  have t1: "tame s ?s1" by (rule tame_drop_pending)
  have code: "cancel_code ?s1 q = cancel_code s q" by (simp add: cancel_code_def)
  obtain f where s2: "(if rq_op_type q \<noteq> OpInject then cancel_posted w r q k ?s1 else Some (- LFI_CANCELED, ?s1)) =
      Some (cancel_code s q, ?s1\<lparr>l_fab := f\<rparr>)"
  proof (cases "rq_op_type q = OpInject")
    case True
    have "?s1\<lparr>l_fab := l_fab ?s1\<rparr> = ?s1" by simp
    with True that [of "l_fab ?s1"] show ?thesis by (simp add: cancel_code_def)
  next
    case False
    have "l_reqs ?s1 r = Some q" using q by simp
    from cancel_posted_ok [OF cancel_ready_tame [OF t1 ready] this False, of w k] that False show ?thesis
      by (metis code)
  qed
  let ?s2 = "?s1\<lparr>l_fab := f\<rparr>"
  have t2: "tame s ?s2" by (rule tame_trans [OF t1 tame_fab])
  have eff: "LFI_efficient_progress (l_env ?s2)" and busy: "pg_in_progress (ep_pg (ep_of ?e ?s2))"
    using cancel_ready_tame [OF t2 ready] by (simp_all only: cancel_ready_def)
  have inv2: "lfi_inv ?s2" using inv by simp
  obtain s3 where s3: "protected_progress (Suc d) w ?e False ?s2 = Some (-1, s3)" "lfi_inv s3" "tame ?s2 s3"
    "l_reqs s3 = l_reqs ?s2" "l_free s3 = l_free ?s2" and qs3: "\<And>e' b. queue_of b (ep_of e' s3) = queue_of b (ep_of e' ?s2)"
    by (rule protected_busy [OF eff busy inv2, of d w False]) blast
  have q3: "l_reqs s3 r = Some q" using s3 q by simp
  have no: "cancel_code s q = LFI_SUCCESS \<Longrightarrow> lookup_now (rq_source q) s3" using cancel_code_not_success by blast
  obtain t where t: "complete w r (cancel_code s q) s3 = Some t" "lfi_inv t" "quiet s3 t"
    "l_reqs t = (l_reqs s3)(r \<mapsto> q\<lparr>rq_error := cancel_code s q, rq_wait_context := None\<rparr>)"
    by (rule complete_ok [OF s3(2) q3 no, where w = w]) (use k in auto)
  have run: "cancel (Suc d) w r s = Some t"
    using q k s2 s3(1) t(1) by (simp add: cancel_def cancel_with_def Let_def)
  have tt: "tame s t" by (rule tame_trans [OF tame_trans [OF t2 s3(3)] quiet_tame [OF t(3)]])
  show ?thesis
  proof (rule that [OF run t(2) tt])
    show "l_reqs t = (l_reqs s)(r \<mapsto> q\<lparr>rq_error := cancel_code s q, rq_wait_context := None\<rparr>)"
      using t(4) s3(4) by simp
    show "queue_of b (ep_of ?e t) = queue_of b (drop_pending k (ep_of ?e s))" for b
      using quiet_queue [OF t(3), of b ?e] qs3 [of b ?e] by simp
    show "l_free t = l_free s" using t(3) s3(5) by (simp add: quiet_def)
    show "queue_of b (ep_of e' t) = queue_of b (ep_of e' s)" if "e' \<noteq> ?e" for b e'
      using quiet_queue [OF t(3), of b e'] qs3 [of b e'] that by simp
  qed
qed

subsection \<open>Draining a communicator\<close>

lemma head_in_flight:
  assumes "lfi_inv s" and "LFI_fault_tolerance (l_env s)" and "the_comm c s = Some m"
  shows "finite {r. in_flight s c r}"
    and "dl_head (cm_requests m) = None \<Longrightarrow> \<not> in_flight s c r"
    and "dl_head (cm_requests m) = Some r \<Longrightarrow> in_flight s c r"
    and "{r. in_flight s c r} = {} \<Longrightarrow> dl_head (cm_requests m) = None"
proof -
  obtain L where rep: "ft_rep s L" and sync: "ft_sync s L" using assms by (auto simp: lfi_inv_def ft_inv_def)
  have set_L: "{r. in_flight s c r} = set (L c)" using sync by (auto simp: ft_sync_def)
  have head: "dl_head (cm_requests m) = first_or (L c) None"
    using rep assms(3) by (auto simp: ft_rep_def dll_rep_def)
  show "finite {r. in_flight s c r}" by (simp add: set_L)
  show "dl_head (cm_requests m) = None \<Longrightarrow> \<not> in_flight s c r"
    using head set_L by (cases "L c") auto
  show "dl_head (cm_requests m) = Some r \<Longrightarrow> in_flight s c r"
    using head set_L by (cases "L c") auto
  show "{r. in_flight s c r} = {} \<Longrightarrow> dl_head (cm_requests m) = None"
    using head set_L by (cases "L c") auto
qed

text \<open>The error of a request of a cancelled communicator: an injected send is not cancelled.\<close>

definition broken_code :: "request \<Rightarrow> int" where
  "broken_code q = (if rq_op_type q = OpInject then - LFI_CANCELED else - LFI_BROKEN_COMM)"

definition broken :: "request \<Rightarrow> request" where
  "broken q = q\<lparr>rq_error := broken_code q, rq_wait_context := None\<rparr>"

text \<open>Every request of \<open>c\<close> in flight can be cancelled from here.\<close>

definition drain_ready :: "cid \<Rightarrow> 'f lfi \<Rightarrow> bool" where
  "drain_ready c s \<longleftrightarrow> (\<forall>r q. l_reqs s r = Some q \<and> rq_comm q = c \<and> rq_wait_context q \<noteq> None \<longrightarrow>
     rq_comm_id q = c \<and> cancel_ready s q)"

lemma drain_ok:
  assumes "lfi_inv s" and "LFI_fault_tolerance (l_env s)" and "the_comm c s = Some m" and "cm_is_canceled m"
    and "drain_ready c s" and "n = card {r. in_flight s c r}"
  shows "\<exists>t. drain_requests (protected_progress (Suc d) w) w c s = Some t \<and> lfi_inv t \<and> tame s t \<and>
     (\<forall>r. l_reqs t r = (if in_flight s c r then map_option broken (l_reqs s r) else l_reqs s r))"
  using assms
proof (induction n arbitrary: s m)
  case 0
  then have "{r. in_flight s c r} = {}" using head_in_flight(1) [OF 0(1-3)] by simp
  moreover from this have "dl_head (cm_requests m) = None" by (rule head_in_flight(4) [OF 0(1-3)])
  ultimately have "drain_requests (protected_progress (Suc d) w) w c s = Some s"
    using 0(3) by (subst drain_requests.simps) simp
  with 0(1) \<open>{r. in_flight s c r} = {}\<close> show ?case by auto
next
  case (Suc n)
  let ?pp = "protected_progress (Suc d) w"
  have "{r. in_flight s c r} \<noteq> {}" using Suc.prems(6) by (metis card.empty nat.distinct(1))
  then obtain r where head: "dl_head (cm_requests m) = Some r"
    using head_in_flight(2) [OF Suc.prems(1-3)] by blast
  then have fl: "in_flight s c r" by (rule head_in_flight(3) [OF Suc.prems(1-3)])
  then obtain q k where q: "l_reqs s r = Some q" "rq_comm q = c" and k: "rq_wait_context q = Some k"
    by (auto simp: in_flight_def)
  have ready: "rq_comm_id q = c" "cancel_ready s q" using Suc.prems(5) q k by (auto simp: drain_ready_def)
  have code: "cancel_code s q = broken_code q"
    using Suc.prems(3,4) ready by (simp add: cancel_code_def broken_code_def)
  obtain s1 where s1: "cancel (Suc d) w r s = Some s1" "lfi_inv s1" "tame s s1"
    "l_reqs s1 = (l_reqs s)(r \<mapsto> broken q)"
    by (rule cancel_ok [OF Suc.prems(1) q(1) k ready(2), of d w]) (auto simp: code broken_def)
  have fl1: "in_flight s1 c' r' \<longleftrightarrow> in_flight s c' r' \<and> r' \<noteq> r" for c' r'
    by (auto simp: in_flight_def s1(4) broken_def)
  obtain m1 where m1: "the_comm c s1 = Some m1" "comm_core m1 = comm_core m"
    using tame_commD [OF s1(3) Suc.prems(3)] by blast
  have env1: "LFI_fault_tolerance (l_env s1)" using s1(3) Suc.prems(2) by (simp add: tame_def)
  have can1: "cm_is_canceled m1" using comm_core_eqD(2) [OF m1(2)] Suc.prems(4) by simp
  have rd1: "drain_ready c s1"
    using Suc.prems(5) cancel_ready_tame [OF s1(3)] unfolding drain_ready_def s1(4)
    by (auto simp: broken_def)
  have "{r'. in_flight s1 c r'} = {r'. in_flight s c r'} - {r}" by (auto simp: fl1)
  then have n1: "n = card {r'. in_flight s1 c r'}" using Suc.prems(6) fl by simp
  obtain t where t: "drain_requests ?pp w c s1 = Some t" "lfi_inv t" "tame s1 t"
    "\<forall>r'. l_reqs t r' = (if in_flight s1 c r' then map_option broken (l_reqs s1 r') else l_reqs s1 r')"
    using Suc.IH [OF s1(2) env1 m1(1) can1 rd1 n1] by blast
  have "drain_requests ?pp w c s = drain_requests ?pp w c s1"
    using Suc.prems(3) head s1(1) by (subst drain_requests.simps) (simp add: cancel_def)
  moreover have "l_reqs t r' = (if in_flight s c r' then map_option broken (l_reqs s r') else l_reqs s r')" for r'
    using t(4) s1(4) q fl by (auto simp: fl1)
  ultimately show ?case using t tame_trans [OF s1(3) t(3)] by auto
qed

lemma lfi_inv_delete:
  assumes inv: "lfi_inv s" and idle: "\<And>c. \<not> in_flight s c r"
  shows "lfi_inv (s\<lparr>l_reqs := (l_reqs s)(r := None)\<rparr>)"
proof -
  let ?t = "s\<lparr>l_reqs := (l_reqs s)(r := None)\<rparr>"
  have fl: "in_flight ?t c k = in_flight s c k" for c k using idle by (auto simp: in_flight_def)
  have h: "holds_ctx ?t k c = holds_ctx s k c" for k c
    using idle by (auto simp: holds_ctx_def in_flight_def)
  have "ft_rep ?t L" if "ft_rep s L" for L by (rule ft_rep_cong [OF that]) auto
  then have "ft_inv s \<Longrightarrow> ft_inv ?t" by (auto simp: ft_inv_def ft_sync_def fl)
  then show ?thesis
    using inv by (auto simp: lfi_inv_def ctx_inv_def comms_alive_def rid_inv_def fl h)
qed

lemma ft_comms_erase_frame [simp]:
  "l_reqs (ft_comms_erase e c s) = l_reqs s" "the_comm k (ft_comms_erase e c s) = the_comm k s"
  "l_env (ft_comms_erase e c s) = l_env s" "l_rlinks (ft_comms_erase e c s) = l_rlinks s"
  "l_ctxs (ft_comms_erase e c s) = l_ctxs s" "l_free (ft_comms_erase e c s) = l_free s"
  "l_next_ctx (ft_comms_erase e c s) = l_next_ctx s" "l_created (ft_comms_erase e c s) = l_created s"
  "l_next_rid (ft_comms_erase e c s) = l_next_rid s" "l_fab (ft_comms_erase e c s) = l_fab s"
  by (simp_all add: ft_comms_erase_def case_prod_beta Let_def)

lemma lfi_inv_ft_comms_erase: "lfi_inv s \<Longrightarrow> lfi_inv (ft_comms_erase e c s)"
  by (erule lfi_inv_cong) simp_all

lemma lookup_now_upd_comm [simp]:
  "(\<And>m. cm_is_ready (g m) = cm_is_ready m) \<Longrightarrow> lookup_now k (upd_comm c g s) = lookup_now k s"
  by (auto simp: upd_comm_def lookup_now_set lookup_now_comm split: option.splits)

lemma cancel_comm_ok:
  assumes inv: "lfi_inv s" and on: "LFI_fault_tolerance (l_env s)" and m: "the_comm c s = Some m"
    and ready: "drain_ready c s"
    and hb: "case cm_heartbeat_req m of None \<Rightarrow> True
             | Some h \<Rightarrow> (case l_reqs s h of None \<Rightarrow> False | Some q \<Rightarrow> rq_comm q = c)"
  shows "\<exists>t m'. cancel_comm (protected_progress (Suc d) w) w c s = Some (0, t) \<and> lfi_inv t \<and>
     the_comm c t = Some m' \<and> cm_is_canceled m' \<and> dl_head (cm_requests m') = None \<and> cm_heartbeat_req m' = None \<and>
     (\<forall>r q. l_reqs s r = Some q \<and> cm_heartbeat_req m \<noteq> Some r \<longrightarrow>
        l_reqs t r = Some (if rq_comm q = c \<and> rq_wait_context q \<noteq> None then broken q else q))"
proof -
  let ?s0 = "upd_comm c (\<lambda>m. m\<lparr>cm_is_canceled := True\<rparr>) s"
  let ?pp = "protected_progress (Suc d) w"
  have inv0: "lfi_inv ?s0" using inv by (rule lfi_inv_upd_comm) simp
  have m0: "the_comm c ?s0 = Some (m\<lparr>cm_is_canceled := True\<rparr>)" using m by simp
  have ready0: "drain_ready c ?s0" using ready unfolding drain_ready_def cancel_ready_def by auto
  have on0: "LFI_fault_tolerance (l_env ?s0)" using on by simp
  have same0: "l_reqs ?s0 = l_reqs s" "in_flight ?s0 = in_flight s" by (simp_all add: in_flight_def fun_eq_iff)
  have can0: "cm_is_canceled (m\<lparr>cm_is_canceled := True\<rparr>)" by simp
  obtain s1 where s1: "drain_requests ?pp w c ?s0 = Some s1" "lfi_inv s1" "tame ?s0 s1"
    and reqs: "\<forall>r. l_reqs s1 r = (if in_flight s c r then map_option broken (l_reqs s r) else l_reqs s r)"
    using drain_ok [OF inv0 on0 m0 can0 ready0 refl, of d w] unfolding same0 by blast
  obtain m1 where m1: "the_comm c s1 = Some m1" and core: "comm_core m1 = comm_core (m\<lparr>cm_is_canceled := True\<rparr>)"
    using tame_commD [OF s1(3) m0] by blast
  have m1': "cm_is_canceled m1" "cm_heartbeat_req m1 = cm_heartbeat_req m"
    using comm_core_eqD(2,6) [OF core] by simp_all
  have none: "\<not> in_flight s1 c r" for r
    using reqs by (auto simp: in_flight_def broken_def split: if_splits)
  have on1: "LFI_fault_tolerance (l_env s1)" using s1(3) on by (simp add: tame_def)
  have head: "dl_head (cm_requests m1) = None"
    using none by (intro head_in_flight(4) [OF s1(2) on1 m1]) simp
  have done_: "l_reqs s1 r = Some (if rq_comm q = c \<and> rq_wait_context q \<noteq> None then broken q else q)"
    if "l_reqs s r = Some q" for r q
    using reqs that by (auto simp: in_flight_def)
  let ?e = "cm_endpoint m1"
  show ?thesis
  proof (cases "cm_heartbeat_req m")
    case None
    then have "cancel_comm ?pp w c s = Some (0, ft_comms_erase ?e c s1)"
      using m s1(1) m1 m1' by (simp add: cancel_comm_def)
    then show ?thesis
      using s1(2) m1 m1' head done_ None by (auto simp: lfi_inv_ft_comms_erase)
  next
    case (Some h)
    let ?s2 = "upd_comm c (\<lambda>m. m\<lparr>cm_heartbeat_req := None\<rparr>) s1"
    let ?s3 = "?s2\<lparr>l_reqs := (l_reqs ?s2)(h := None)\<rparr>"
    obtain q where q: "l_reqs s h = Some q" "rq_comm q = c" using hb Some by (auto split: option.splits)
    have idle: "\<not> in_flight ?s2 k h" for k
      using done_ [OF q(1)] q(2) by (auto simp: in_flight_def broken_def)
    have "is_completed h ?s2" using done_ [OF q(1)] q(2) by (auto simp: is_completed_def broken_def)
    then have "destroy_request ?pp w h ?s2 = Some ?s3" by (simp add: destroy_request_def)
    then have run: "cancel_comm ?pp w c s = Some (0, ft_comms_erase ?e c ?s3)"
      using m s1(1) m1 m1' Some by (simp add: cancel_comm_def)
    have "lfi_inv ?s2" using s1(2) by (rule lfi_inv_upd_comm) simp
    then have "lfi_inv ?s3" using idle by (rule lfi_inv_delete)
    then show ?thesis
      using run m1 m1' head done_ Some by (auto simp: lfi_inv_ft_comms_erase)
  qed
qed

subsection \<open>Properties\<close>


text \<open>The concrete world inside \<open>progress\<close>.\<close>

definition leading :: "ep_id \<Rightarrow> 'f lfi \<Rightarrow> 'f lfi" where
  "leading e s = upd_ep e (\<lambda>x. x\<lparr>ep_pg := (ep_pg x)\<lparr>pg_in_progress := True\<rparr>\<rparr>) s"

lemma leading_ready:
  assumes "sample_flying s r q"
  shows "drain_ready 7 (leading Peer s)" "lfi_inv (leading Peer s)" "l_reqs (leading Peer s) = [r \<mapsto> q]"
    "LFI_fault_tolerance (l_env (leading Peer s))"
    "\<exists>m. the_comm 7 (leading Peer s) = Some m \<and> cm_heartbeat_req m = None \<and> \<not> cm_is_canceled m"
proof -
  have look: "lookup_now 7 (leading Peer s)" using assms by (simp add: sample_flying_def leading_def lookup_now_def)
  show "drain_ready 7 (leading Peer s)"
    using assms look
    by (auto simp: sample_flying_def drain_ready_def cancel_ready_def leading_def env_default_def
        tx_endpoint_def rx_endpoint_def)
  show "lfi_inv (leading Peer s)" "l_reqs (leading Peer s) = [r \<mapsto> q]"
    "LFI_fault_tolerance (l_env (leading Peer s))"
    using assms by (simp_all add: sample_flying_def leading_def env_default_def)
  obtain m where m: "the_comm 7 s = Some m" "comm_core m = comm_core sample_comm"
    using assms by (auto simp: sample_flying_def)
  then have "cm_heartbeat_req m = None" "\<not> cm_is_canceled m"
    using comm_core_eqD(2,6) [OF m(2)] by (simp_all add: sample_comm_def comm_new_def)
  with m show "\<exists>m. the_comm 7 (leading Peer s) = Some m \<and> cm_heartbeat_req m = None \<and> \<not> cm_is_canceled m"
    by (simp add: leading_def)
qed


text \<open>A cancelled operation that was never posted loses its context. Cancelling a request whose
  operation is still queued removes the operation and completes the request, but its context is
  neither assigned nor returned to the factory: no queue, no request and no free list refers to it,
  while it still counts as created. It is never used again.\<close>

theorem cancel_loses_context:
  assumes "lfi_inv s" and "l_reqs s r = Some q" and "rq_wait_context q = Some k" and "cancel_ready s q"
    and "vq_inv (ep_priority (ep_of (rq_endpoint q) s))" and "vq_inv (ep_pending (ep_of (rq_endpoint q) s))"
  shows "\<exists>t. cancel (Suc d) w r s = Some t \<and> is_completed r t \<and> k \<notin> set (l_free t) \<and>
     (\<forall>r'. get_request k t \<noteq> Some r') \<and>
     (\<forall>op b. op \<in> set (vq_list (queue_of b (ep_of (rq_endpoint q) t))) \<longrightarrow> po_context op \<noteq> Some k)"
proof -
  let ?e = "rq_endpoint q"
  have held: "get_request k s = Some r"
    using assms(1-3) ctx_assigned [of s k r] by (simp add: lfi_inv_def get_request_def holds_ctx_def)
  have notfree: "k \<notin> set (l_free s)" using get_request_flight [OF assms(1) held] by blast
  obtain t where t: "cancel (Suc d) w r s = Some t" "lfi_inv t"
    "l_reqs t = (l_reqs s)(r \<mapsto> q\<lparr>rq_error := cancel_code s q, rq_wait_context := None\<rparr>)"
    and qs: "\<And>b. queue_of b (ep_of ?e t) = queue_of b (drop_pending k (ep_of ?e s))" and free: "l_free t = l_free s"
    by (rule cancel_ok [OF assms(1-4), of d w]) blast
  have "get_request k t \<noteq> Some r'" for r'
  proof
    assume "get_request k t = Some r'"
    then have "holds_ctx t r' k" using t(2) ctx_assigned [of t k r'] by (simp add: lfi_inv_def get_request_def)
    then have "r' \<noteq> r" and "holds_ctx s r' k" using t(3) by (auto simp: holds_ctx_def split: if_splits)
    then show False
      using held assms(1) ctx_assigned [of s k r'] by (simp add: lfi_inv_def get_request_def)
  qed
  moreover have "op \<notin> set (vq_list (queue_of b (ep_of ?e t)))" if "po_context op = Some k" for op b
    unfolding qs using that assms(5,6) vq.erase_absent [of _ "has_context k" op]
    by (simp add: queue_of_def drop_pending_def has_context_def)
  ultimately show ?thesis using t free notfree by (auto simp: is_completed_def)
qed

text \<open>Cancelling an idle communicator forgets the others. \<open>cancel_comm\<close> erases the communicator
  from its endpoint's list without testing whether it is there. For a communicator with no monitored
  request and no heartbeat, which is in no list, the list of the endpoint is empty afterwards whatever
  it held, while the other communicators still count as inserted; registering further requests on
  them does not put them back, so the periodic loop never looks at them again.\<close>

theorem cancel_comm_forgets:
  assumes m: "the_comm c s = Some m" and idle: "dl_head (cm_requests m) = None" "cm_heartbeat_req m = None"
    and out: "l_clinks s c = dnode_fresh"
    and other: "the_comm k s = Some mk" "k \<noteq> c" "d_inserted (l_clinks s k)" "\<not> any_comm (cm_rank_peer mk)"
  shows "\<exists>t. cancel_comm pp w c s = Some (0, t) \<and> d_inserted (l_clinks t k) \<and>
     dl_head (ep_ft_comms (ep_of (cm_endpoint m) t)) = None \<and>
     (\<forall>r u. register_request r k t = Some u \<longrightarrow>
        dl_head (ep_ft_comms (ep_of (cm_endpoint m) u)) = None \<and>
        process_list w (dl_head (ep_ft_comms (ep_of (cm_endpoint m) u))) ft_ms now [] u = Some ([], u))"
proof -
  let ?s0 = "upd_comm c (\<lambda>m. m\<lparr>cm_is_canceled := True\<rparr>) s"
  let ?e = "cm_endpoint m"
  let ?t = "ft_comms_erase ?e c ?s0"
  have "drain_requests pp w c ?s0 = Some ?s0"
    using m idle by (subst drain_requests.simps) simp
  then have run: "cancel_comm pp w c s = Some (0, ?t)" using m idle by (simp add: cancel_comm_def)
  have wiped: "dl_head (ep_ft_comms (ep_of ?e ?t)) = None" and links: "l_clinks ?t = l_clinks s"
    using dll_erase_foreign [of "l_clinks s" c, OF out] by (simp_all add: ft_comms_erase_def)
  have "dl_head (ep_ft_comms (ep_of ?e u)) = None" if reg: "register_request r k ?t = Some u" for r u
  proof -
    have "the_comm k ?t = Some mk" using other by simp
    then have "u = ?t \<or> ft_push_request k r ?t = Some u"
      using reg other links by (auto simp: register_request_def split: if_splits)
    then have "ep_of e u = ep_of e ?t" for e
      by (auto simp: ft_push_request_def case_prod_beta Let_def split: bind_splits)
    with wiped show ?thesis by simp
  qed
  moreover have "process_list w None ft_ms now [] u = Some ([], u)" for u
    by (subst process_list.simps) simp
  ultimately show ?thesis using run wiped links other by auto
qed

text \<open>The concrete world with a second communicator, 8, and 7 in the endpoint's list.\<close>

definition sample_two :: "sample lfi" where
  "sample_two = ft_comms_push Peer 7 (set_comm 8 (comm_new Peer 8 0) sample_lfi)"

theorem cancel_comm_forgets_witness:
  "\<exists>t. cancel_comm (protected_progress 1 sample_world) sample_world 8 sample_two = Some (0, t) \<and>
     dl_head (ep_ft_comms (ep_of Peer sample_two)) = Some 7 \<and> d_inserted (l_clinks t 7) \<and>
     dl_head (ep_ft_comms (ep_of Peer t)) = None"
proof -
  have ep: "ep_ft_comms (ep_of Peer sample_lfi) = dll_empty"
    by (simp add: sample_lfi_def) (simp add: lfi_new_def ep_of_def endpoint_new_def)
  have links: "l_clinks sample_lfi = (\<lambda>_. dnode_fresh)"
    by (simp add: sample_lfi_def lfi_new_def)
  note push = dll_push_back_def dll_empty_def set_inserted_def dnode_fresh_def
  have head: "dl_head (ep_ft_comms (ep_of Peer sample_two)) = Some 7"
    by (simp add: sample_two_def ft_comms_push_def ep links push)
  have nodes: "l_clinks sample_two 8 = dnode_fresh" "d_inserted (l_clinks sample_two 7)"
    by (simp_all add: sample_two_def ft_comms_push_def ep links push)
  have comms: "the_comm 8 sample_two = Some (comm_new Peer 8 0)" "the_comm 7 sample_two = Some sample_comm"
    by (simp_all add: sample_two_def sample_comm_7)
  have m: "dl_head (cm_requests (comm_new Peer 8 0)) = None" "cm_heartbeat_req (comm_new Peer 8 0) = None"
    "cm_endpoint (comm_new Peer 8 0) = Peer" "\<not> any_comm (cm_rank_peer sample_comm)"
    by (simp_all add: comm_new_def dll_empty_def sample_comm_def any_comm_def lfi_comm_ids)
  show ?thesis
    using cancel_comm_forgets [OF comms(1) m(1,2) nodes(1) comms(2) _ nodes(2) m(4),
        of "protected_progress 1 sample_world" sample_world 0 0] m(3) head
    by auto
qed

theorem cancel_loses_context_witness:
  "\<exists>s r q k t. sample_flying s r q \<and> cancel 1 sample_world r (leading Peer s) = Some t \<and> k \<notin> set (l_free t) \<and>
     rq_wait_context q = Some k"
proof -
  obtain s r q where fly: "sample_flying s r q" by (rule sample_flight)
  note ready = leading_ready [OF fly]
  obtain k where k: "rq_wait_context q = Some k" using fly by (auto simp: sample_flying_def)
  let ?s = "upd_ep Peer (\<lambda>x. x\<lparr>ep_priority := vq_new po_null 1, ep_pending := vq_new po_null 1\<rparr>) (leading Peer s)"
  have e: "rq_endpoint q = Peer" "rq_comm q = 7" using fly by (simp_all add: sample_flying_def)
  have "cancel_ready (leading Peer s) q" using ready(1,3) k e by (simp add: drain_ready_def)
  then have rd: "cancel_ready ?s q"
    by (rule cancel_ready_tame [rotated]) (rule tame_upd_ep, simp_all add: tx_endpoint_def rx_endpoint_def)
  have "lfi_inv ?s" "l_reqs ?s r = Some q" using ready(2,3) by simp_all
  from cancel_loses_context [OF this k rd, of 0 sample_world] e
  have "\<exists>t. cancel 1 sample_world r ?s = Some t \<and> k \<notin> set (l_free t)" by (auto simp: vq_new_inv)
  moreover have "sample_flying (upd_ep Peer (\<lambda>x. x\<lparr>ep_priority := vq_new po_null 1, ep_pending := vq_new po_null 1\<rparr>) s) r q"
    using fly by (auto simp: sample_flying_def lookup_now_def tx_endpoint_def rx_endpoint_def split: if_splits)
  moreover have "?s = leading Peer (upd_ep Peer (\<lambda>x. x\<lparr>ep_priority := vq_new po_null 1, ep_pending := vq_new po_null 1\<rparr>) s)"
    by (simp add: leading_def upd_ep_def)
  ultimately show ?thesis using k by metis
qed

lemma report_to_any_frame:
  "report_to_any e reqs errs s = (reqs', errs', t) \<Longrightarrow>
   (\<forall>k. k \<notin> set reqs \<longrightarrow> l_reqs t k = l_reqs s k) \<and>
   ep_to_cancel (ep_of e t) = ep_to_cancel (ep_of e s) @ take (min (length reqs) (length errs)) reqs \<and>
   reqs' = drop (min (length reqs) (length errs)) reqs \<and> errs' = drop (min (length reqs) (length errs)) errs"
proof (induction e reqs errs s arbitrary: reqs' errs' t rule: report_to_any.induct)
  case (1 e r reqs c errs s)
  have "report_to_any e reqs errs
       (upd_ep e (\<lambda>x. x\<lparr>ep_to_cancel := ep_to_cancel x @ [r]\<rparr>)
         (upd_req r (\<lambda>q. q\<lparr>rq_source := c, rq_error := - LFI_BROKEN_COMM\<rparr>) s)) = (reqs', errs', t)"
    using "1.prems" by simp
  from "1.IH" [OF this] show ?case by auto
qed auto

text \<open>Reporting failures to "any" requests. \<open>report_to_any\<close> pairs the waiting requests with the
  failed communicators one to one: the \<open>i\<close>-th request gets the \<open>i\<close>-th failure as its source with
  \<open>-LFI_BROKEN_COMM\<close> and is collected for cancellation exactly once, and whatever is left over on
  either side, requests or failures, is returned in order: no failure is lost and none is reported
  twice.\<close>

theorem report_to_any_pairs:
  assumes "report_to_any e reqs errs s = (reqs', errs', t)" and "distinct reqs"
    and "n = min (length reqs) (length errs)" and "i < n" and "l_reqs s (reqs ! i) = Some q"
  shows "l_reqs t (reqs ! i) = Some (q\<lparr>rq_source := errs ! i, rq_error := - LFI_BROKEN_COMM\<rparr>) \<and>
     reqs' = drop n reqs \<and> errs' = drop n errs \<and>
     ep_to_cancel (ep_of e t) = ep_to_cancel (ep_of e s) @ take n reqs"
  using assms
proof (induction e reqs errs s arbitrary: reqs' errs' t n i q rule: report_to_any.induct)
  case (1 e r reqs c errs s)
  let ?g = "\<lambda>q. q\<lparr>rq_source := c, rq_error := - LFI_BROKEN_COMM\<rparr>"
  let ?s = "upd_ep e (\<lambda>x. x\<lparr>ep_to_cancel := ep_to_cancel x @ [r]\<rparr>) (upd_req r ?g s)"
  have run: "report_to_any e reqs errs ?s = (reqs', errs', t)" using "1.prems"(1) by simp
  note frame = report_to_any_frame [OF run]
  show ?case
  proof (cases i)
    case 0
    then have "l_reqs t r = Some (?g q)" using frame "1.prems"(2,5) by simp
    then show ?thesis using frame 0 "1.prems"(3) by simp
  next
    case (Suc j)
    have "l_reqs t (reqs ! j) = Some (q\<lparr>rq_source := errs ! j, rq_error := - LFI_BROKEN_COMM\<rparr>)"
    proof -
      have "j < length reqs" using "1.prems"(3,4) Suc by simp
      then have "reqs ! j \<noteq> r" using "1.prems"(2) by (metis distinct.simps(2) nth_mem)
      then show ?thesis using "1.IH" [OF run _ refl, of j q] "1.prems" Suc by simp
    qed
    then show ?thesis using frame Suc "1.prems"(3) by simp
  qed
qed auto

theorem report_to_any_pairs_witness:
  "\<exists>(t :: sample lfi) q'. report_to_any Peer [0] [9, 8] sample_idle = ([], [8], t) \<and> l_reqs t 0 = Some q' \<and>
     rq_source q' = 9"
proof -
  obtain q where q: "l_reqs sample_idle 0 = Some q" using sample_idle_facts(4) by blast
  obtain reqs' errs' t where run: "report_to_any Peer [0] [9, 8] sample_idle = (reqs', errs', t)"
    by (metis prod.exhaust)
  from report_to_any_pairs [OF run _ refl, of 0 q] q show ?thesis using run by simp
qed

text \<open>The scan of the monitored communicators stops at an idle one. When the first
  communicator of the endpoint's list has no request left, \<open>process_comm\<close> takes it out of the list
  and thereby clears the link that the loop reads next: the scan ends there, and none of the
  communicators behind it is looked at in that round.\<close>

theorem process_list_stops:
  assumes "the_comm c s = Some m" and "dl_size (cm_requests m) = 0"
  shows "process_list w (Some c) ft_ms now canceled s = Some (canceled, ft_comms_erase (cm_endpoint m) c s)"
proof -
  let ?t = "ft_comms_erase (cm_endpoint m) c s"
  have "d_next (snd (snd (dll_erase (Some c) (l, h))) c) = None" for l and h :: "cid dheap"
    by (simp add: dll_erase_def Let_def case_prod_beta set_next_def set_prev_def)
  then have "d_next (l_clinks ?t c) = None"
    by (simp add: ft_comms_erase_def Let_def case_prod_beta)
  moreover have "process_comm w c ft_ms now canceled s = Some (canceled, ?t)"
    using assms by (simp add: process_comm_def)
  moreover have "process_list w None ft_ms now canceled ?t = Some (canceled, ?t)"
    by (subst process_list.simps) simp
  ultimately show ?thesis by (subst process_list.simps) simp
qed

theorem process_list_stops_witness:
  "process_list sample_world (Some 7) 5000 0 [] sample_two = Some ([], ft_comms_erase Peer 7 sample_two)"
proof -
  have "the_comm 7 sample_two = Some sample_comm" by (simp add: sample_two_def sample_comm_7)
  moreover have "dl_size (cm_requests sample_comm) = 0" "cm_endpoint sample_comm = Peer"
    by (simp_all add: sample_comm_def comm_new_def dll_empty_def)
  ultimately show ?thesis using process_list_stops [of 7 sample_two sample_comm sample_world 5000 0 "[]"] by simp
qed

text \<open>The heartbeat deadline. For a communicator with requests in flight that waits for a
  heartbeat, and a time since the heartbeat was sent below the range of \<open>int32_t\<close> in milliseconds:
  an answered heartbeat makes it idle again and reports nothing; an unanswered one is reported as a
  failure, once, exactly when more than the larger of the configured time and one second has passed;
  before that nothing changes. When the elapsed time reaches \<open>2^31\<close> milliseconds the narrowing makes it
  negative and the failure is not reported.\<close>

theorem heartbeat_deadline:
  assumes "the_comm c s = Some m" and "dl_size (cm_requests m) \<noteq> 0" and "cm_status m = HEARTBEAT"
    and "cm_heartbeat_req m = Some hb" and "0 \<le> ft_ms"
    and "elapsed = (now - cm_heartbeat_time m) div 1000000" and "0 \<le> now - cm_heartbeat_time m"
    and "elapsed < 2 ^ 32"
  shows "process_comm w c ft_ms now canceled s =
     (if is_completed hb s \<and> w_heartbeat w c (l_fab s) = HEARBEAT_CODE
      then Some (canceled, upd_comm c (\<lambda>m. m\<lparr>cm_status := IDLE\<rparr>) s)
      else if max ft_ms 1000 < elapsed \<and> elapsed < 2 ^ 31
      then Some (canceled @ [cm_rank_peer m], upd_comm c (\<lambda>m. m\<lparr>cm_status := FT_ERROR\<rparr>) s)
      else Some (canceled, s))"
proof -
  have ms: "ms_of_ns (now - cm_heartbeat_time m) = elapsed" using assms by (simp add: ms_of_ns_def)
  have pos: "0 \<le> elapsed" using assms by (simp add: pos_imp_zdiv_nonneg_iff)
  have wrap: "i32 elapsed < 0" if "2 ^ 31 \<le> elapsed" using i32_wrap [OF that assms(8)] assms(8) by simp
  show ?thesis
  proof (cases "elapsed < 2 ^ 31")
    case True
    then have "i32 elapsed = elapsed" using pos by (intro i32_small) simp_all
    with True show ?thesis using assms ms by (simp add: process_comm_def)
  next
    case False
    then show ?thesis
      using assms(1-5,8) ms wrap by (auto simp: process_comm_def not_less)
  qed
qed

theorem heartbeat_deadline_witness:
  "\<exists>(s :: sample lfi) t. process_comm sample_world 7 5000 (6000 * 1000000) [] s = Some ([7], t)"
proof -
  let ?m = "sample_comm\<lparr>cm_status := HEARTBEAT, cm_heartbeat_req := Some 0,
     cm_requests := \<lparr>dl_head = Some 0, dl_tail = Some 0, dl_size = 1\<rparr>\<rparr>"
  let ?s = "set_comm 7 ?m sample_lfi"
  have m: "cm_heartbeat_time ?m = 0" "cm_rank_peer ?m = 7" by (simp_all add: sample_comm_def comm_new_def)
  have idle: "\<not> is_completed 0 ?s" by (simp add: is_completed_def sample_simps)
  have "process_comm sample_world 7 5000 (6000 * 1000000) [] ?s =
     Some ([7], upd_comm 7 (\<lambda>m. m\<lparr>cm_status := FT_ERROR\<rparr>) ?s)"
    using heartbeat_deadline [of 7 ?s ?m 0 5000 6000 "6000 * 1000000" sample_world "[]"] m idle by simp
  then show ?thesis by blast
qed

end
