(* ===== verification/Waiting.thy ===== *)
theory Waiting
  imports Ft_Manager
begin

text \<open>
  \<open>src/impl/wait.cpp\<close>: testing and waiting for one request or for some of many. A waiting thread
  either leads the endpoint and drives it, or sleeps on a condition variable until its request
  completes or the leadership is handed to it; \<open>w_others\<close> stands for the other threads then. The
  argument \<open>d\<close> is the nesting depth of theory \<open>Ft_Manager\<close>.
\<close>

subsection \<open>One request\<close>

definition wait_check_timeout :: "'f world \<Rightarrow> int \<Rightarrow> int \<Rightarrow> 'f lfi \<Rightarrow> bool \<times> 'f lfi" where
  "wait_check_timeout w timeout_ms start s =
     (if timeout_ms < 0 then (False, s)
      else (let (now, s1) = clock_now w s in (i32 (ms_of_ns (now - start)) \<ge> timeout_ms, s1)))"

definition test :: "nat \<Rightarrow> 'f world \<Rightarrow> rid \<Rightarrow> 'f lfi \<Rightarrow> (int \<times> 'f lfi) option" where
  "test d w r s =
     do { q \<leftarrow> l_reqs s r;
          let e = rq_endpoint q;
          let (g, s1) = guard_open e True s;
          s2 \<leftarrow> (if guard_leader e g s1 then map_option snd (progress d w e True s1) else Some s1);
          q2 \<leftarrow> l_reqs s2 r;
          Some (if rq_wait_context q2 = None then LFI_SUCCESS else - LFI_TIMEOUT, guard_close e g s2) }"

text \<open>The inner loop of the leader.\<close>

partial_function (option) lead_loop ::
    "nat \<Rightarrow> 'f world \<Rightarrow> rid \<Rightarrow> ep_id \<Rightarrow> int \<Rightarrow> int \<Rightarrow> bool \<Rightarrow> 'f lfi \<Rightarrow> (bool \<times> 'f lfi) option" where
  "lead_loop d w r e timeout_ms start is_timeout s =
     (if is_completed r s \<or> is_timeout then Some (is_timeout, s)
      else do { (_, s1) \<leftarrow> progress d w e True s;
                let (late, s2) = wait_check_timeout w timeout_ms start s1;
                lead_loop d w r e timeout_ms start late s2 })"

declare lead_loop.simps [code]

text \<open>The follower's sleep. The remaining time is computed without narrowing.\<close>

definition follow :: "'f world \<Rightarrow> ('f lfi \<Rightarrow> bool) \<Rightarrow> int \<Rightarrow> int \<Rightarrow> 'f lfi \<Rightarrow> (bool \<times> 'f lfi) option" where
  "follow w wakes timeout_ms start s =
     (if timeout_ms < 0 then do { s1 \<leftarrow> w_others w wakes None s; Some (False, s1) }
      else (let (now, s1) = clock_now w s;
                elapsed_ms = ms_of_ns (now - start)
            in if elapsed_ms \<ge> timeout_ms then Some (True, s1)
               else do { s2 \<leftarrow> w_others w wakes (Some (timeout_ms - elapsed_ms)) s1; Some (False, s2) }))"

partial_function (option) wait_loop ::
    "nat \<Rightarrow> 'f world \<Rightarrow> rid \<Rightarrow> ep_id \<Rightarrow> gid \<Rightarrow> int \<Rightarrow> int \<Rightarrow> bool \<Rightarrow> 'f lfi \<Rightarrow> (bool \<times> 'f lfi) option" where
  "wait_loop d w r e g timeout_ms start is_timeout s =
     (if is_completed r s \<or> is_timeout then Some (is_timeout, s)
      else do {
        (late, s1) \<leftarrow> (if guard_leader e g s then lead_loop d w r e timeout_ms start False s
                       else follow w (\<lambda>s. is_completed r s \<or> guard_leader e g s) timeout_ms start s);
        let (late', s2) = (if late then (True, s1) else wait_check_timeout w timeout_ms start s1);
        wait_loop d w r e g timeout_ms start late' s2 })"

declare wait_loop.simps [code]

definition wait :: "nat \<Rightarrow> 'f world \<Rightarrow> rid \<Rightarrow> int \<Rightarrow> 'f lfi \<Rightarrow> (int \<times> 'f lfi) option" where
  "wait d w r timeout_ms s =
     do { q \<leftarrow> l_reqs s r;
          let e = rq_endpoint q;
          let (start, s1) = (if timeout_ms \<ge> 0 then clock_now w s else (0, s));
          let (g, s2) = guard_open e True s1;
          (is_timeout, s3) \<leftarrow> wait_loop d w r e g timeout_ms start False s2;
          let s4 = guard_close e g s3;
          q4 \<leftarrow> l_reqs s4 r;
          if is_timeout \<and> rq_wait_context q4 \<noteq> None
          then Some (- LFI_TIMEOUT, upd_req r (\<lambda>q. q\<lparr>rq_error := - LFI_TIMEOUT\<rparr>) s4)
          else Some (LFI_SUCCESS, s4) }"

subsection \<open>Many requests\<close>

text \<open>\<open>request.m_endpoint == shm_ep\<close>, else \<open>== peer_ep\<close>: which endpoints need progress.\<close>

definition need_progress :: "rid \<Rightarrow> bool \<times> bool \<Rightarrow> 'f lfi \<Rightarrow> bool \<times> bool" where
  "need_progress r need s =
     (case l_reqs s r of
        None \<Rightarrow> need
      | Some q \<Rightarrow>
          (if ep_eq (ep_of (rq_endpoint q) s) (l_shm s) then (True, snd need)
           else if ep_eq (ep_of (rq_endpoint q) s) (l_peer s) then (fst need, True)
           else need))"

text \<open>The lambda \<open>loop_requests\<close> of \<open>test_num\<close>: the counter and the two flags are captured by reference.\<close>

fun loop_requests :: "rid list \<Rightarrow> int \<times> bool \<times> bool \<Rightarrow> 'f lfi \<Rightarrow> int \<times> bool \<times> bool" where
  "loop_requests [] (n, need) s = (n, need)"
| "loop_requests (r # rs) (n, need) s =
     (let remaining = int (length (r # rs))
      in if n > remaining \<and> fst need \<and> snd need then (n, need)
         else if n \<le> remaining \<and> is_completed r s
         then (if n - 1 \<le> 0 then (n - 1, need) else loop_requests rs (n - 1, need) s)
         else loop_requests rs (n, need_progress r need s) s)"

definition test_num :: "nat \<Rightarrow> 'f world \<Rightarrow> rid list \<Rightarrow> int \<Rightarrow> 'f lfi \<Rightarrow> (int \<times> 'f lfi) option" where
  "test_num d w rs how_many s =
     (if how_many = 1 \<and> length rs = 1 then test d w (hd rs) s
      else (let (n, need) = loop_requests rs (how_many, False, False) s
            in if n = 0 then Some (0, s)
               else (let (gs, s1) = guard_open Shm (fst need) s;
                         (gp, s2) = guard_open Peer (snd need) s1
                     in do {
                       s3 \<leftarrow> (if guard_leader Shm gs s2 then map_option snd (progress d w Shm True s2) else Some s2);
                       s4 \<leftarrow> (if guard_leader Peer gp s3 then map_option snd (progress d w Peer True s3) else Some s3);
                       let (n', _) = loop_requests rs (n, need) s4;
                       Some (if n' = 0 then 0 else - LFI_TIMEOUT, guard_close Shm gs (guard_close Peer gp s4)) })))"

text \<open>The set-up loop of \<open>wait_num\<close>.\<close>

fun wait_setup :: "wid \<Rightarrow> rid list \<Rightarrow> bool \<times> bool \<Rightarrow> 'f lfi \<Rightarrow> (bool \<times> bool) \<times> 'f lfi" where
  "wait_setup x [] need s = (need, s)"
| "wait_setup x (r # rs) need s =
     (let s1 = upd_req r (\<lambda>q. q\<lparr>rq_shared_wait := Some x\<rparr>) s;
          s2 = (if is_completed r s1
                then s1\<lparr>l_waits := (l_waits s1)(x := map_option (\<lambda>n. n - 1) (l_waits s1 x))\<rparr>
                else upd_req r (\<lambda>q. if rq_error q = - LFI_TIMEOUT then q\<lparr>rq_error := LFI_SUCCESS\<rparr> else q) s1)
      in wait_setup x rs (need_progress r need s2) s2)"

definition wait_count :: "wid \<Rightarrow> 'f lfi \<Rightarrow> int" where
  "wait_count x s = (case l_waits s x of None \<Rightarrow> 0 | Some n \<Rightarrow> n)"

partial_function (option) wait_num_loop ::
    "nat \<Rightarrow> 'f world \<Rightarrow> wid \<Rightarrow> gid \<Rightarrow> gid \<Rightarrow> int \<Rightarrow> int \<Rightarrow> bool \<Rightarrow> 'f lfi \<Rightarrow> (bool \<times> 'f lfi) option" where
  "wait_num_loop d w x gs gp timeout_ms start is_timeout s =
     (if wait_count x s \<le> 0 \<or> is_timeout then Some (is_timeout, s)
      else (let shm = guard_leader Shm gs s; peer = guard_leader Peer gp s
            in do {
              (late, s1) \<leftarrow>
                (if shm \<or> peer
                 then do { sa \<leftarrow> (if shm then map_option snd (progress d w Shm True s) else Some s);
                           sb \<leftarrow> (if peer then map_option snd (progress d w Peer True sa) else Some sa);
                           Some (False, sb) }
                 else follow w (\<lambda>s. wait_count x s \<le> 0 \<or> guard_leader Shm gs s \<or> guard_leader Peer gp s)
                        timeout_ms start s);
              let (late', s2) = (if late then (True, s1) else wait_check_timeout w timeout_ms start s1);
              wait_num_loop d w x gs gp timeout_ms start late' s2 }))"

declare wait_num_loop.simps [code]

text \<open>The last loop: requests are detached, the first completed one from a moving start is the result,
  and those still in flight without an error are marked as timed out.\<close>

fun wait_collect :: "rid list \<Rightarrow> nat \<Rightarrow> nat list \<Rightarrow> int \<Rightarrow> 'f lfi \<Rightarrow> int \<times> 'f lfi" where
  "wait_collect rs first [] out s = (out, s)"
| "wait_collect rs first (i # is) out s =
     (let index = (first + i) mod length rs;
          r = rs ! index;
          s1 = upd_req r (\<lambda>q. q\<lparr>rq_shared_wait := None\<rparr>) s
      in if is_completed r s1
         then wait_collect rs first is (if out = -1 then int index else out) s1
         else wait_collect rs first is out
                (upd_req r (\<lambda>q. if rq_error q = LFI_SUCCESS then q\<lparr>rq_error := - LFI_TIMEOUT\<rparr> else q) s1))"

definition wait_finish :: "rid list \<Rightarrow> wid \<Rightarrow> bool \<Rightarrow> 'f lfi \<Rightarrow> int \<times> 'f lfi" where
  "wait_finish rs x is_timeout s =
     (let first = unat (l_linear s mod of_nat (length rs));
          (out, s1) = wait_collect rs first [0..<length rs] (-1) (s\<lparr>l_linear := l_linear s + 1\<rparr>)
      in (if is_timeout then - LFI_TIMEOUT else out, s1\<lparr>l_waits := (l_waits s1)(x := None)\<rparr>))"

definition wait_num :: "nat \<Rightarrow> 'f world \<Rightarrow> rid list \<Rightarrow> int \<Rightarrow> int \<Rightarrow> 'f lfi \<Rightarrow> (int \<times> 'f lfi) option" where
  "wait_num d w rs how_many timeout_ms s =
     (let n = int (length rs)
      in if how_many > n \<or> how_many \<le> 0 \<or> n = 0 then Some (-1, s)
         else if how_many = 1 \<and> n = 1 then wait d w (hd rs) timeout_ms s
         else do {
           let x = l_next_wid s;
           let s0 = s\<lparr>l_next_wid := Suc x, l_waits := (l_waits s)(x \<mapsto> how_many)\<rparr>;
           let (start, s1) = (if timeout_ms \<ge> 0 then clock_now w s0 else (0, s0));
           let (need, s2) = wait_setup x rs (False, False) s1;
           (is_timeout, s3) \<leftarrow>
             (if wait_count x s2 > 0
              then (let (gs, sa) = guard_open Shm (fst need) s2;
                        (gp, sb) = guard_open Peer (snd need) sa
                    in do { (late, sc) \<leftarrow> wait_num_loop d w x gs gp timeout_ms start False sb;
                            Some (late, guard_close Shm gs (guard_close Peer gp sc)) })
              else Some (False, s2));
           Some (wait_finish rs x is_timeout s3) })"

subsection \<open>What the loops return\<close>

lemma guard_close_reqs [simp]: "l_reqs (guard_close e g s) = l_reqs s"
  by (simp add: guard_close_def)

lemma is_completed_cong: "l_reqs t r = l_reqs s r \<Longrightarrow> is_completed r t = is_completed r s"
  by (simp add: is_completed_def)

lemma check_no_limit: "timeout_ms < 0 \<Longrightarrow> wait_check_timeout w timeout_ms start s = (False, s)"
  by (simp add: wait_check_timeout_def)

lemma lead_loop_result:
  assumes "lead_loop d w r e tm start b s = Some res"
  shows "tm < 0 \<longrightarrow> \<not> b \<longrightarrow> \<not> fst res"
proof (rule lead_loop.raw_induct [where P = "\<lambda>d w r e tm start b s res. tm < 0 \<longrightarrow> \<not> b \<longrightarrow> \<not> fst res", OF _ assms])
  fix loop :: "nat \<Rightarrow> 'a world \<Rightarrow> rid \<Rightarrow> ep_id \<Rightarrow> int \<Rightarrow> int \<Rightarrow> bool \<Rightarrow> 'a lfi \<Rightarrow> (bool \<times> 'a lfi) option"
    and d w r e tm start b s res
  assume IH: "\<And>d w r e tm start b s res. loop d w r e tm start b s = Some res \<Longrightarrow> tm < 0 \<longrightarrow> \<not> b \<longrightarrow> \<not> fst res"
    and body: "(if is_completed r s \<or> b then Some (b, s)
      else do { (_, s1) \<leftarrow> progress d w e True s;
                let (late, s2) = wait_check_timeout w tm start s1;
                loop d w r e tm start late s2 }) = Some res"
  show "tm < 0 \<longrightarrow> \<not> b \<longrightarrow> \<not> fst res"
  proof (intro impI)
    assume neg: "tm < 0" and "\<not> b"
    show "\<not> fst res"
    proof (cases "is_completed r s")
      case True
      with body \<open>\<not> b\<close> show ?thesis by auto
    next
      case False
      with body \<open>\<not> b\<close> obtain x s1 where "loop d w r e tm start False s1 = Some res"
        by (auto simp: check_no_limit [OF neg] split: bind_splits)
      then show ?thesis using IH neg by blast
    qed
  qed
qed

lemma follow_no_limit: "follow w p tm start s = Some (late, t) \<Longrightarrow> tm < 0 \<Longrightarrow> \<not> late"
  by (auto simp: follow_def split: bind_splits)

definition wait_post :: "rid \<Rightarrow> int \<Rightarrow> bool \<Rightarrow> bool \<times> 'f lfi \<Rightarrow> bool" where
  "wait_post r tm b res \<longleftrightarrow> (is_completed r (snd res) \<or> fst res) \<and> (tm < 0 \<and> \<not> b \<longrightarrow> \<not> fst res)"

lemma wait_loop_result:
  assumes "wait_loop d w r e g tm start b s = Some res"
  shows "wait_post r tm b res"
proof (rule wait_loop.raw_induct [where P = "\<lambda>d w r e g tm start b s res. wait_post r tm b res", OF _ assms])
  fix loop :: "nat \<Rightarrow> 'a world \<Rightarrow> rid \<Rightarrow> ep_id \<Rightarrow> gid \<Rightarrow> int \<Rightarrow> int \<Rightarrow> bool \<Rightarrow> 'a lfi \<Rightarrow> (bool \<times> 'a lfi) option"
    and d w r e g tm start b s res
  assume IH: "\<And>d w r e g tm start b s res. loop d w r e g tm start b s = Some res \<Longrightarrow> wait_post r tm b res"
    and body: "(if is_completed r s \<or> b then Some (b, s)
      else do {
        (late, s1) \<leftarrow> (if guard_leader e g s then lead_loop d w r e tm start False s
                       else follow w (\<lambda>s. is_completed r s \<or> guard_leader e g s) tm start s);
        let (late', s2) = (if late then (True, s1) else wait_check_timeout w tm start s1);
        loop d w r e g tm start late' s2 }) = Some res"
  show "wait_post r tm b res"
  proof (cases "is_completed r s \<or> b")
    case True
    with body show ?thesis by (auto simp: wait_post_def)
  next
    case False
    define step where "step = (if guard_leader e g s then lead_loop d w r e tm start False s
        else follow w (\<lambda>s. is_completed r s \<or> guard_leader e g s) tm start s)"
    from body False obtain late s1 where step1: "step = Some (late, s1)"
      and rec: "(let (late', s2) = (if late then (True, s1) else wait_check_timeout w tm start s1)
        in loop d w r e g tm start late' s2) = Some res"
      unfolding step_def [symmetric] by (cases step) auto
    obtain late' s2 where next_: "(if late then (True, s1) else wait_check_timeout w tm start s1) = (late', s2)"
      by (metis prod.exhaust)
    have inner: "wait_post r tm late' res" using rec next_ IH by simp
    have "\<not> late" if "tm < 0"
      using step1 that lead_loop_result [of d w r e tm start False s] follow_no_limit
      unfolding step_def by (cases "guard_leader e g s") fastforce+
    then have "\<not> late'" if "tm < 0" using that next_ by (auto simp: check_no_limit)
    with inner show ?thesis by (auto simp: wait_post_def)
  qed
qed

text \<open>Driving the endpoint some number of times.\<close>

fun drive :: "nat \<Rightarrow> 'f world \<Rightarrow> ep_id \<Rightarrow> nat \<Rightarrow> 'f lfi \<Rightarrow> 'f lfi option" where
  "drive d w e 0 s = Some s"
| "drive d w e (Suc n) s = do { (_, s1) \<leftarrow> progress d w e True s; drive d w e n s1 }"

text \<open>The first \<open>n\<close> after which the request is completed.\<close>

definition drives_to :: "nat \<Rightarrow> 'f world \<Rightarrow> rid \<Rightarrow> ep_id \<Rightarrow> nat \<Rightarrow> 'f lfi \<Rightarrow> 'f lfi \<Rightarrow> bool" where
  "drives_to d w r e n s t \<longleftrightarrow> drive d w e n s = Some t \<and> is_completed r t \<and>
     (\<forall>k < n. \<forall>u. drive d w e k s = Some u \<longrightarrow> \<not> is_completed r u)"

lemma lead_loop_drives:
  "drives_to d w r e n s t \<Longrightarrow> tm < 0 \<Longrightarrow> lead_loop d w r e tm start False s = Some (False, t)"
proof (induction n arbitrary: s)
  case 0
  then show ?case by (subst lead_loop.simps) (simp add: drives_to_def)
next
  case (Suc n)
  have busy: "\<not> is_completed r s" using Suc.prems(1) by (fastforce simp: drives_to_def)
  obtain x s1 where step: "progress d w e True s = Some (x, s1)" "drive d w e n s1 = Some t"
    using Suc.prems(1) by (auto simp: drives_to_def split: bind_splits)
  have "\<not> is_completed r u" if "k < n" "drive d w e k s1 = Some u" for k u
    using Suc.prems(1) step(1) that unfolding drives_to_def by (metis Suc_mono bind.bind_lunit case_prod_conv drive.simps(2))
  then have "drives_to d w r e n s1 t" using step Suc.prems(1) by (simp add: drives_to_def)
  then show ?case using Suc.IH step busy Suc.prems(2) by (subst lead_loop.simps) (simp add: check_no_limit)
qed

lemma wait_collect_completed:
  "wait_collect rs first is out s = (res, t) \<Longrightarrow> rs \<noteq> [] \<Longrightarrow>
   (out \<noteq> -1 \<longrightarrow> 0 \<le> out \<and> nat out < length rs \<and> is_completed (rs ! nat out) s) \<Longrightarrow>
   res \<noteq> -1 \<longrightarrow> 0 \<le> res \<and> nat res < length rs \<and> is_completed (rs ! nat res) t"
proof (induction rs first "is" out s arbitrary: res t rule: wait_collect.induct)
  case (1 rs first out s)
  then show ?case by simp
next
  case (2 rs first i "is" out s)
  let ?r = "rs ! ((first + i) mod length rs)"
  let ?s1 = "upd_req ?r (\<lambda>q. q\<lparr>rq_shared_wait := None\<rparr>) s"
  let ?s2 = "upd_req ?r (\<lambda>q. if rq_error q = LFI_SUCCESS then q\<lparr>rq_error := - LFI_TIMEOUT\<rparr> else q) ?s1"
  have keep1: "is_completed k s \<Longrightarrow> is_completed k ?s1" for k
    by (auto simp: is_completed_def split: option.splits)
  have keep2: "is_completed k ?s1 \<Longrightarrow> is_completed k ?s2" for k
    by (auto simp: is_completed_def split: option.splits if_splits)
  have bound: "(first + i) mod length rs < length rs" using "2.prems"(2) by simp
  show ?case
  proof (cases "is_completed ?r ?s1")
    case True
    let ?out = "if out = -1 then int ((first + i) mod length rs) else out"
    have "wait_collect rs first is ?out ?s1 = (res, t)" using "2.prems"(1) True by (simp add: Let_def)
    moreover have "?out \<noteq> -1 \<longrightarrow> 0 \<le> ?out \<and> nat ?out < length rs \<and> is_completed (rs ! nat ?out) ?s1"
      using True "2.prems"(3) keep1 bound by auto
    ultimately show ?thesis using "2.IH"(1) [OF refl refl refl True] "2.prems"(2) by blast
  next
    case False
    have "wait_collect rs first is out ?s2 = (res, t)" using "2.prems"(1) False by (simp add: Let_def)
    moreover have "out \<noteq> -1 \<longrightarrow> 0 \<le> out \<and> nat out < length rs \<and> is_completed (rs ! nat out) ?s2"
      using "2.prems"(3) keep1 keep2 by blast
    ultimately show ?thesis using "2.IH"(2) [OF refl refl refl False] "2.prems"(2) by blast
  qed
qed

lemma wait_finish_index:
  assumes "wait_finish rs x late s = (i, t)" and "0 \<le> i" and "rs \<noteq> []"
  shows "nat i < length rs \<and> is_completed (rs ! nat i) t"
proof -
  obtain out s1 where coll: "wait_collect rs (unat (l_linear s mod of_nat (length rs))) [0..<length rs] (-1)
      (s\<lparr>l_linear := l_linear s + 1\<rparr>) = (out, s1)" by (metis prod.exhaust)
  then have t: "t = s1\<lparr>l_waits := (l_waits s1)(x := None)\<rparr>" and "i = out"
    using assms(1,2) by (auto simp: wait_finish_def lfi_errors split: if_splits)
  then have "nat i < length rs \<and> is_completed (rs ! nat i) s1"
    using wait_collect_completed [OF coll assms(3)] assms(2) by simp
  then show ?thesis by (simp add: t is_completed_def)
qed

text \<open>A guard opened while another thread leads.\<close>

lemma pg_open_busy:
  "pg_in_progress p \<Longrightarrow> \<not> g_leader (pg_guards (pg_register_waiter g (pg_try_acquire g
     (pg_set g \<lparr>g_requested = b, g_leader = False, g_pc = Constructing\<rparr> p))) g)"
  by (cases b) (simp_all add: pg_register_waiter_def pg_try_acquire_def pg_set_def Let_def)

lemma guard_open_busy:
  assumes "guard_open e b s = (g, t)" and "LFI_efficient_progress (l_env s)" and "pg_in_progress (ep_pg (ep_of e s))"
  shows "\<not> guard_leader e g t" "l_env t = l_env s" "\<And>e'. e' \<noteq> e \<Longrightarrow> ep_of e' t = ep_of e' s" "l_reqs t = l_reqs s"
  using assms by (auto simp: guard_open_def Let_def guard_leader_def pg_open_busy)

subsection \<open>Properties\<close>

text \<open>C7. What \<open>wait\<close> reports. If \<open>wait\<close> returns, then either it returns success and the request is
  completed, or it returns \<open>-LFI_TIMEOUT\<close>, a time limit was given, the request is still in flight and
  its error is \<open>-LFI_TIMEOUT\<close>. There is no third case: it never reports success for a request in
  flight, and never a time-out for a completed one or without a limit.\<close>

theorem wait_reports:
  assumes "wait d w r timeout_ms s = Some (ret, t)"
  shows "(ret = LFI_SUCCESS \<and> is_completed r t) \<or>
     (ret = - LFI_TIMEOUT \<and> 0 \<le> timeout_ms \<and> \<not> is_completed r t \<and>
      map_option rq_error (l_reqs t r) = Some (- LFI_TIMEOUT))"
proof -
  obtain q where q: "l_reqs s r = Some q" using assms by (cases "l_reqs s r") (simp_all add: wait_def)
  let ?e = "rq_endpoint q"
  obtain start s1 where first: "(if timeout_ms \<ge> 0 then clock_now w s else (0, s)) = (start, s1)" by (metis prod.exhaust)
  obtain g s2 where open_: "guard_open ?e True s1 = (g, s2)" by (metis prod.exhaust)
  obtain late s3 where loop: "wait_loop d w r ?e g timeout_ms start False s2 = Some (late, s3)"
    using assms q first open_ by (cases "wait_loop d w r ?e g timeout_ms start False s2") (auto simp: wait_def)
  obtain q4 where q4: "l_reqs s3 r = Some q4"
    using assms q first open_ loop by (cases "l_reqs s3 r") (auto simp: wait_def)
  have res: "(if late \<and> rq_wait_context q4 \<noteq> None
      then Some (- LFI_TIMEOUT, upd_req r (\<lambda>q. q\<lparr>rq_error := - LFI_TIMEOUT\<rparr>) (guard_close ?e g s3))
      else Some (LFI_SUCCESS, guard_close ?e g s3)) = Some (ret, t)"
    using assms q first open_ loop q4 by (simp add: wait_def Let_def)
  have loop': "wait_post r timeout_ms False (late, s3)" by (rule wait_loop_result [OF loop])
  show ?thesis
  proof (cases "late \<and> rq_wait_context q4 \<noteq> None")
    case True
    then have "ret = - LFI_TIMEOUT" "t = upd_req r (\<lambda>q. q\<lparr>rq_error := - LFI_TIMEOUT\<rparr>) (guard_close ?e g s3)"
      using res by auto
    moreover have "0 \<le> timeout_ms" using True loop' by (auto simp: wait_post_def)
    ultimately show ?thesis using True q4 by (simp add: is_completed_def)
  next
    case False
    then have "ret = LFI_SUCCESS" "t = guard_close ?e g s3" using res by auto
    moreover have "is_completed r s3" using False loop' q4 by (auto simp: is_completed_def wait_post_def)
    ultimately show ?thesis by (simp add: is_completed_def)
  qed
qed

lemma wait_returns:
  assumes "l_reqs s r = Some q" and "guard_open (rq_endpoint q) True s = (g, s1)"
    and "guard_leader (rq_endpoint q) g s1" and "drives_to d w r (rq_endpoint q) n s1 t"
  shows "wait d w r (-1) s = Some (LFI_SUCCESS, guard_close (rq_endpoint q) g t)"
proof -
  let ?e = "rq_endpoint q"
  have lead: "lead_loop d w r ?e (-1) 0 False s1 = Some (False, t)" by (rule lead_loop_drives [OF assms(4)]) simp
  have fin: "is_completed r t" using assms(4) by (simp add: drives_to_def)
  then have stop: "wait_loop d w r ?e g (-1) 0 False t = Some (False, t)" by (subst wait_loop.simps) simp
  have loop: "wait_loop d w r ?e g (-1) 0 False s1 = Some (False, t)"
  proof (cases "is_completed r s1")
    case True
    then have "t = s1" using lead by (subst (asm) lead_loop.simps) simp
    with stop show ?thesis by simp
  next
    case False
    then show ?thesis using assms(3) lead stop by (subst wait_loop.simps) (simp add: check_no_limit)
  qed
  obtain q' where "l_reqs t r = Some q'" using fin by (auto simp: is_completed_def split: option.splits)
  then show ?thesis using assms(1,2) loop by (simp add: wait_def)
qed

text \<open>C8. A leader's wait returns. If the calling thread gets the leadership and driving the endpoint
  completes the request after some finite number of rounds, then \<open>wait\<close> without a limit returns success
  right after the first round that completed it, in the state that round produced, with the guard
  closed.\<close>

theorem wait_leader_returns:
  assumes "l_reqs s r = Some q" and "guard_open (rq_endpoint q) True s = (g, s1)"
    and "guard_leader (rq_endpoint q) g s1" and "drives_to d w r (rq_endpoint q) n s1 t"
  shows "wait d w r (-1) s = Some (LFI_SUCCESS, guard_close (rq_endpoint q) g t)"
  by (rule wait_returns [OF assms])

text \<open>A receive in flight whose completion is waiting in the completion queue.\<close>

definition sample_arrived :: "sample lfi" where
  "sample_arrived =
     (snd (store_new_context 0 (upd_req 0 (\<lambda>q. q\<lparr>rq_op_type := OpRecv\<rparr>) sample_idle)))
       \<lparr>l_env := env_default\<lparr>LFI_fault_tolerance := False\<rparr>,
        l_fab := sample0\<lparr>sf_cq := [\<lparr>cqe_context = 0, cqe_len = 100, cqe_tag = pack_tag 7 9\<rparr>]\<rparr>\<rparr>"

theorem wait_leader_returns_witness:
  "\<exists>t. wait 1 sample_world 0 (-1) sample_arrived = Some (LFI_SUCCESS, t) \<and> is_completed 0 t"
proof -
  let ?s1 = "snd (guard_open Peer True sample_arrived)"
  have "map_option rq_endpoint (l_reqs sample_arrived 0) = Some Peer" by code_simp
  then obtain q where q: "l_reqs sample_arrived 0 = Some q" "rq_endpoint q = Peer" by auto
  have "fst (guard_open Peer True sample_arrived) = 0" by code_simp
  then have g: "guard_open (rq_endpoint q) True sample_arrived = (0, ?s1)" using q by (metis prod.collapse)
  have "guard_leader Peer 0 ?s1" by code_simp
  then have lead: "guard_leader (rq_endpoint q) 0 ?s1" using q by simp
  have "case drive 1 sample_world Peer 1 ?s1 of None \<Rightarrow> False | Some t \<Rightarrow> is_completed 0 t" by code_simp
  then obtain t where t: "drive 1 sample_world (rq_endpoint q) 1 ?s1 = Some t" "is_completed 0 t"
    using q by (auto split: option.splits)
  have "\<not> is_completed 0 ?s1" by code_simp
  then have "drives_to 1 sample_world 0 (rq_endpoint q) 1 ?s1 t" using t by (simp add: drives_to_def)
  from wait_leader_returns [OF q(1) g lead this] show ?thesis using t(2) by (simp add: is_completed_def)
qed

theorem wait_reports_witness:
  "\<exists>t. wait 1 sample_world 0 0 sample_idle = Some (LFI_SUCCESS, t) \<and> is_completed 0 t"
proof -
  have "map_option fst (wait 1 sample_world 0 0 sample_idle) = Some LFI_SUCCESS" by code_simp
  then obtain t where run: "wait 1 sample_world 0 0 sample_idle = Some (LFI_SUCCESS, t)" by auto
  from wait_reports [OF run] show ?thesis using run by (auto simp: lfi_errors)
qed



text \<open>\<open>test_num\<close> counts a completed request twice. The counter is not set back to \<open>how_many\<close> between
  the two passes. With two requests, the first completed and the second in flight, and another thread
  leading the endpoints, the test that both are completed reports that they are.\<close>

theorem test_num_counts_twice:
  assumes "LFI_efficient_progress (l_env s)" and "pg_in_progress (ep_pg (l_shm s))"
    and "pg_in_progress (ep_pg (l_peer s))" and "is_completed a s" and "\<not> is_completed b s"
  shows "\<exists>t. test_num d w [a, b] 2 s = Some (0, t) \<and> \<not> is_completed b t"
proof -
  obtain need where need: "loop_requests [a, b] (2, False, False) s = (1, need)"
    using assms(4,5) by (auto simp: Let_def)
  obtain gs s1 where shm: "guard_open Shm (fst need) s = (gs, s1)" by (metis prod.exhaust)
  obtain gp s2 where peer: "guard_open Peer (snd need) s1 = (gp, s2)" by (metis prod.exhaust)
  have busy: "pg_in_progress (ep_pg (ep_of e s))" for e using assms(2,3) by (cases e) (simp_all add: ep_of_def)
  note open1 = guard_open_busy [OF shm assms(1) busy]
  have env1: "LFI_efficient_progress (l_env s1)" and busy1: "pg_in_progress (ep_pg (ep_of Peer s1))"
    using open1(2,3) assms(1) busy [of Peer] by simp_all
  note open2 = guard_open_busy [OF peer env1 busy1]
  have "\<not> guard_leader Shm gs s2" using open1(1) open2(3) by (simp add: guard_leader_def)
  moreover have "\<not> guard_leader Peer gp s2" by (rule open2(1))
  moreover have reqs: "l_reqs s2 = l_reqs s" using open1(4) open2(4) by simp
  then have "is_completed a s2" using assms(4) by (simp add: is_completed_def)
  then have "loop_requests [a, b] (1, need) s2 = (0, need)" by simp
  ultimately have "test_num d w [a, b] 2 s = Some (0, guard_close Shm gs (guard_close Peer gp s2))"
    using need shm peer by (simp add: test_num_def del: loop_requests.simps)
  moreover have "\<not> is_completed b (guard_close Shm gs (guard_close Peer gp s2))"
    using assms(5) reqs by (simp add: is_completed_def)
  ultimately show ?thesis by blast
qed

theorem test_num_counts_twice_witness:
  "\<exists>t. test_num 1 sample_world [0, 1] 2 (leading Shm (leading Peer sample_idle)) = Some (0, t)"
proof -
  let ?s = "leading Shm (leading Peer sample_idle)"
  have "is_completed 0 ?s" using sample_idle_facts(4) by (auto simp: is_completed_def leading_def)
  moreover have "\<not> is_completed 1 ?s"
    by (simp add: is_completed_def leading_def sample_idle_def new_request_def sample_comm_7 Let_def)
      (simp add: sample_simps)
  moreover have "LFI_efficient_progress (l_env ?s)"
    by (simp add: leading_def sample_idle_facts(3) env_default_def)
  moreover have "pg_in_progress (ep_pg (l_shm ?s))" "pg_in_progress (ep_pg (l_peer ?s))"
    by (simp_all add: leading_def upd_ep_def)
  ultimately show ?thesis using test_num_counts_twice [of ?s 0 1 1 sample_world] by blast
qed

end
