(* ===== verification/Address.thy ===== *)
theory Address
  imports Comm_Table Sample_World
begin

text \<open>
  \<open>src/impl/address.cpp\<close>: the address of an endpoint, which is read from libfabric once and kept, and
  the entry of a peer in the address vector.
\<close>

subsection \<open>Operations\<close>

text \<open>What \<open>fi_getname\<close> leaves in a buffer of \<open>n\<close> zero bytes it writes \<open>bs\<close> into.\<close>

definition overlay :: "nat \<Rightarrow> u8 list \<Rightarrow> u8 list" where
  "overlay n bs = take n (bs @ replicate n 0)"

text \<open>The result code, the bytes assigned to \<open>out_addr\<close> (none on an error) and the state. The address of
  a member of a null endpoint is undefined.\<close>

definition get_addr :: "'f world \<Rightarrow> cid \<Rightarrow> 'f lfi \<Rightarrow> ((int \<times> u8 list) \<times> 'f lfi) option" where
  "get_addr w c s =
     do { m \<leftarrow> the_comm c s;
          let e = cm_endpoint m;
          let x = ep_of e s;
          if ep_addr x \<noteq> [] then Some ((0, ep_addr x), s)
          else if ep_ep x = 0 then None
          else do {
            let ((ret, size_addr, _), s1) = fab (w_getname w (ep_ep x) 0) s;
            if ret \<noteq> - FI_ETOOSMALL then Some ((ret, []), s1)
            else do {
              let ((ret2, _, bs), s2) = fab (w_getname w (ep_ep x) size_addr) s1;
              let s3 = upd_ep e (\<lambda>x. x\<lparr>ep_addr := overlay (unat size_addr) bs\<rparr>) s2;
              Some ((ret2, if ret2 \<noteq> 0 then [] else overlay (unat size_addr) bs), s3) } } }"

definition register_addr :: "'f world \<Rightarrow> cid \<Rightarrow> u8 list \<Rightarrow> 'f lfi \<Rightarrow> (int \<times> 'f lfi) option" where
  "register_addr w c addr s =
     do { m \<leftarrow> the_comm c s;
          let ((ret, fi_addr), s1) = fab (w_av_insert w (ep_av (ep_of (cm_endpoint m) s)) addr) s;
          Some (ret, if ret \<noteq> 1 then s1 else upd_comm c (\<lambda>m. m\<lparr>cm_fi_addr := fi_addr\<rparr>) s1) }"

definition remove_addr :: "'f world \<Rightarrow> cid \<Rightarrow> 'f lfi \<Rightarrow> (int \<times> 'f lfi) option" where
  "remove_addr w c s =
     do { m \<leftarrow> the_comm c s;
          Some (fab (w_av_remove w (ep_av (ep_of (cm_endpoint m) s)) (cm_fi_addr m)) s) }"

subsection \<open>Results\<close>

lemma get_addr_cached:
  "the_comm c s = Some m \<Longrightarrow> ep_addr (ep_of (cm_endpoint m) s) = bs \<Longrightarrow> bs \<noteq> [] \<Longrightarrow>
   get_addr w c s = Some ((0, bs), s)"
  by (auto simp: get_addr_def Let_def)

text \<open>The two readings of an address that is not cached.\<close>

lemma get_addr_fresh:
  assumes "the_comm c s = Some m" and "ep_addr (ep_of (cm_endpoint m) s) = []"
    and "ep_ep (ep_of (cm_endpoint m) s) = p" and "p \<noteq> 0"
    and "w_getname w p 0 (l_fab s) = ((- FI_ETOOSMALL, n, x), f1)" and "w_getname w p n f1 = ((ret, y, bs), f2)"
  shows "get_addr w c s = Some ((ret, if ret \<noteq> 0 then [] else overlay (unat n) bs),
     upd_ep (cm_endpoint m) (\<lambda>x. x\<lparr>ep_addr := overlay (unat n) bs\<rparr>) (s\<lparr>l_fab := f2\<rparr>))"
  using assms by (simp add: get_addr_def fab_def Let_def)

text \<open>The address of an endpoint. The first successful \<open>get_addr\<close> of an endpoint returns the name
  that libfabric gives it, and every later one, on whatever communicator of the endpoint, returns the
  same bytes without asking again.\<close>

theorem get_addr_stable:
  assumes "the_comm c s = Some m" and "ep_addr (ep_of (cm_endpoint m) s) = []"
    and "ep_ep (ep_of (cm_endpoint m) s) = p" and "p \<noteq> 0"
    and "w_getname w p 0 (l_fab s) = ((- FI_ETOOSMALL, n, x), f1)" and "w_getname w p n f1 = ((0, y, bs), f2)"
    and "length bs = unat n" and "bs \<noteq> []"
  shows "\<exists>t. get_addr w c s = Some ((0, bs), t) \<and>
     (\<forall>k mk. the_comm k s = Some mk \<and> cm_endpoint mk = cm_endpoint m \<longrightarrow> get_addr w k t = Some ((0, bs), t))"
proof -
  let ?t = "upd_ep (cm_endpoint m) (\<lambda>x. x\<lparr>ep_addr := bs\<rparr>) (s\<lparr>l_fab := f2\<rparr>)"
  have "overlay (unat n) bs = bs" using assms(7) by (simp add: overlay_def)
  then have "get_addr w c s = Some ((0, bs), ?t)" using get_addr_fresh [OF assms(1-6)] by simp
  moreover have "get_addr w k ?t = Some ((0, bs), ?t)" if "the_comm k s = Some mk" "cm_endpoint mk = cm_endpoint m" for k mk
    using that assms(8) by (intro get_addr_cached [where m = mk]) simp_all
  ultimately show ?thesis by blast
qed

theorem get_addr_stable_witness:
  "\<exists>t. get_addr sample_world 7 sample_lfi = Some ((0, [1, 2]), t) \<and> get_addr sample_world 7 t = Some ((0, [1, 2]), t)"
proof -
  have c: "the_comm 7 sample_lfi = Some sample_comm" by (simp add: sample_lfi_def)
  have e: "cm_endpoint sample_comm = Peer" by (simp add: sample_comm_def comm_new_def)
  have x: "ep_addr (ep_of Peer sample_lfi) = []" "ep_ep (ep_of Peer sample_lfi) = 10" "l_fab sample_lfi = sample0"
    by (simp_all add: sample_lfi_def) (simp_all add: lfi_new_def ep_of_def endpoint_new_def)
  have g: "w_getname sample_world 10 0 sample0 = ((- FI_ETOOSMALL, 2, []), sample0)"
    "w_getname sample_world 10 2 sample0 = ((0, 2, [1, 2]), sample0)"
    by (simp_all add: sample_world_def)
  show ?thesis
    using get_addr_stable [of 7 sample_lfi sample_comm 10 sample_world 2 "[]" sample0 2 "[1, 2]" sample0] c e x g
    by auto
qed

text \<open>A failed \<open>get_addr\<close> poisons the cache. The buffer is resized before the second \<open>fi_getname\<close>;
  when that call fails, the error is returned, but the endpoint keeps the buffer, and the next
  \<open>get_addr\<close> returns success with whatever bytes are in it.\<close>

theorem get_addr_poisoned:
  assumes "the_comm c s = Some m" and "ep_addr (ep_of (cm_endpoint m) s) = []"
    and "ep_ep (ep_of (cm_endpoint m) s) = p" and "p \<noteq> 0"
    and "w_getname w p 0 (l_fab s) = ((- FI_ETOOSMALL, n, x), f1)" and "w_getname w p n f1 = ((ret, y, []), f2)"
    and "ret \<noteq> 0" and "n \<noteq> 0"
  shows "\<exists>t. get_addr w c s = Some ((ret, []), t) \<and> get_addr w c t = Some ((0, replicate (unat n) 0), t)"
proof -
  let ?t = "upd_ep (cm_endpoint m) (\<lambda>x. x\<lparr>ep_addr := replicate (unat n) 0\<rparr>) (s\<lparr>l_fab := f2\<rparr>)"
  have "get_addr w c s = Some ((ret, []), ?t)" using get_addr_fresh [OF assms(1-6)] assms(7) by (simp add: overlay_def)
  moreover have "get_addr w c ?t = Some ((0, replicate (unat n) 0), ?t)"
    using assms(1,8) by (intro get_addr_cached [where m = m]) (simp_all add: unat_eq_zero)
  ultimately show ?thesis by blast
qed

theorem get_addr_poisoned_witness:
  "\<exists>t. get_addr (sample_world\<lparr>w_getname := \<lambda>_ n f. if n = 0 then ((- FI_ETOOSMALL, 2, []), f) else ((-5, 2, []), f)\<rparr>)
       7 sample_lfi = Some ((-5, []), t) \<and>
     get_addr (sample_world\<lparr>w_getname := \<lambda>_ n f. if n = 0 then ((- FI_ETOOSMALL, 2, []), f) else ((-5, 2, []), f)\<rparr>)
       7 t = Some ((0, [0, 0]), t)"
proof -
  let ?w = "sample_world\<lparr>w_getname := \<lambda>_ n f. if n = 0 then ((- FI_ETOOSMALL, 2, []), f) else ((-5, 2, []), f)\<rparr>"
  have c: "the_comm 7 sample_lfi = Some sample_comm" by (simp add: sample_lfi_def)
  have e: "cm_endpoint sample_comm = Peer" by (simp add: sample_comm_def comm_new_def)
  have x: "ep_addr (ep_of Peer sample_lfi) = []" "ep_ep (ep_of Peer sample_lfi) = 10"
    by (simp_all add: sample_lfi_def) (simp_all add: lfi_new_def ep_of_def endpoint_new_def)
  have two: "replicate 2 (0 :: u8) = [0, 0]" by (simp add: numeral_2_eq_2)
  show ?thesis
    using get_addr_poisoned [of 7 sample_lfi sample_comm 10 ?w 2 "[]" "l_fab sample_lfi" "-5" 2 "l_fab sample_lfi"] c e x
    by (simp add: two)
qed

end
