(* ===== verification/Blocking.thy ===== *)
theory Blocking
  imports Waiting Address
begin

text \<open>
  The blocking operations, each of which is its asynchronous form and a wait on a request of its own:
  \<open>send_internal\<close> of \<open>src/impl/send.cpp\<close>, \<open>recv_internal\<close> of \<open>src/impl/recv.cpp\<close>, \<open>put\<close> and \<open>get\<close> of
  \<open>src/impl/rma.cpp\<close>; and \<open>close_comm\<close> of \<open>src/impl/comm.cpp\<close>.
\<close>

subsection \<open>Operations\<close>

text \<open>\<open>request.error < 0 ? request.error : request.size\<close>, converted to \<open>int64_t\<close>.\<close>

definition request_result :: "request \<Rightarrow> int" where
  "request_result q = (if rq_error q < 0 then rq_error q else i64 (rq_size q))"

text \<open>The local request is destroyed on every return.\<close>

definition run_blocking ::
    "nat \<Rightarrow> 'f world \<Rightarrow> cid \<Rightarrow> (rid \<Rightarrow> 'f lfi \<Rightarrow> (int \<times> 'f lfi) option) \<Rightarrow> 'f lfi \<Rightarrow> (int \<times> 'f lfi) option" where
  "run_blocking d w comm_id start s =
     do { (comm, s1) \<leftarrow> get_comm_and_mutex w comm_id s;
          case comm of
            None \<Rightarrow> Some (- LFI_COMM_NOT_FOUND, s1)
          | Some c \<Rightarrow> do {
              m \<leftarrow> the_comm c s1;
              (r, s2) \<leftarrow> new_request (cm_endpoint m) c s1;
              (ret, s3) \<leftarrow> start r s2;
              if ret < 0
              then do { s4 \<leftarrow> destroy_request (protected_progress d w) w r s3; Some (ret, s4) }
              else do {
                (ret2, s4) \<leftarrow> wait d w r (-1) s3;
                if ret2 < 0
                then do { s5 \<leftarrow> destroy_request (protected_progress d w) w r s4; Some (ret2, s5) }
                else do {
                  q \<leftarrow> l_reqs s4 r;
                  s5 \<leftarrow> destroy_request (protected_progress d w) w r s4;
                  Some (request_result q, s5) } } } }"

definition send_internal ::
    "nat \<Rightarrow> 'f world \<Rightarrow> cid \<Rightarrow> ptr \<Rightarrow> u64 \<Rightarrow> send_type \<Rightarrow> u32 \<Rightarrow> 'f lfi \<Rightarrow> (int \<times> 'f lfi) option" where
  "send_internal d w comm_id p len ty tag s =
     (if any_comm comm_id then Some (- LFI_SEND_ANY_COMM, s)
      else run_blocking d w comm_id (\<lambda>r. async_send_internal w p len ty tag r False) s)"

definition recv_internal ::
    "nat \<Rightarrow> 'f world \<Rightarrow> cid \<Rightarrow> ptr \<Rightarrow> u64 \<Rightarrow> recv_type \<Rightarrow> u32 \<Rightarrow> 'f lfi \<Rightarrow> (int \<times> 'f lfi) option" where
  "recv_internal d w comm_id p len ty tag s =
     run_blocking d w comm_id (\<lambda>r. async_recv_internal w p len ty tag r False) s"

definition put ::
    "nat \<Rightarrow> 'f world \<Rightarrow> cid \<Rightarrow> ptr \<Rightarrow> u64 \<Rightarrow> u64 \<Rightarrow> mr_key \<Rightarrow> 'f lfi \<Rightarrow> (int \<times> 'f lfi) option" where
  "put d w comm_id p len remote_addr remote_key s =
     run_blocking d w comm_id (\<lambda>r. async_put w p len remote_addr remote_key r False) s"

definition get ::
    "nat \<Rightarrow> 'f world \<Rightarrow> cid \<Rightarrow> ptr \<Rightarrow> u64 \<Rightarrow> u64 \<Rightarrow> mr_key \<Rightarrow> 'f lfi \<Rightarrow> (int \<times> 'f lfi) option" where
  "get d w comm_id p len remote_addr remote_key s =
     run_blocking d w comm_id (\<lambda>r. async_get w p len remote_addr remote_key r False) s"

text \<open>
  \<open>m_comms.erase(id)\<close>: the communicator and its heartbeat request are destroyed under the exclusive lock
  of the table; cancelling a heartbeat in flight would take the same lock again, which is undefined.
\<close>

definition erase_comm :: "cid \<Rightarrow> 'f lfi \<Rightarrow> 'f lfi option" where
  "erase_comm c s =
     (let gone = s\<lparr>l_comms := AList.delete c (l_comms s), l_clinks := (l_clinks s)(c := dnode_fresh)\<rparr>
      in case the_comm c s of
           None \<Rightarrow> Some gone
         | Some m \<Rightarrow>
             (case cm_heartbeat_req m of
                None \<Rightarrow> Some gone
              | Some hb \<Rightarrow> if is_completed hb s then Some (gone\<lparr>l_reqs := (l_reqs s)(hb := None)\<rparr>) else None))"

definition close_comm :: "nat \<Rightarrow> 'f world \<Rightarrow> cid \<Rightarrow> 'f lfi \<Rightarrow> (int \<times> 'f lfi) option" where
  "close_comm d w c s =
     do { (comm, s1) \<leftarrow> get_comm_and_mutex w c s;
          case comm of
            None \<Rightarrow> Some (- LFI_COMM_NOT_FOUND, s1)
          | Some k \<Rightarrow> do {
              s2 \<leftarrow> (if LFI_fault_tolerance (l_env s1)
                     then map_option snd (cancel_comm (protected_progress d w) w k s1) else Some s1);
              (_, s3) \<leftarrow> remove_addr w k s2;
              s4 \<leftarrow> erase_comm c s3;
              Some (0, s4) } }"

subsection \<open>Properties\<close>

lemma destroy_completed:
  "is_completed r s \<Longrightarrow> destroy_request pp w r s = Some (s\<lparr>l_reqs := (l_reqs s)(r := None)\<rparr>)"
  by (simp add: destroy_request_def)


text \<open>A fabric that completes a send at once.\<close>

definition loop_world :: "sample world" where
  "loop_world = sample_world\<lparr>w_tsend := \<lambda>_ _ len _ tag c f.
     (0, f\<lparr>sf_cq := sf_cq f @ [\<lparr>cqe_context = the c, cqe_len = len, cqe_tag = tag\<rparr>]\<rparr>)\<rparr>"




end
