(* ===== verification/Init.thy ===== *)
theory Init
  imports Blocking
begin

text \<open>
  \<open>src/impl/init.cpp\<close>: the constructor and the destructor of class \<open>LFI\<close>, and opening and closing an
  endpoint. The record \<open>provider\<close> holds the calls of libfabric that only this file makes; a call that
  fails leaves the pointer it was to fill as it was, and the flags are libfabric's constants.
\<close>

record 'f provider =
  pv_getinfo :: "string option \<Rightarrow> 'f \<Rightarrow> (int \<times> fi_info) \<times> 'f"
  pv_fabric :: "fi_info \<Rightarrow> 'f \<Rightarrow> (int \<times> fid) \<times> 'f"
  pv_domain :: "fid \<Rightarrow> fi_info \<Rightarrow> 'f \<Rightarrow> (int \<times> fid) \<times> 'f"
  pv_cq_open :: "fid \<Rightarrow> 'f \<Rightarrow> (int \<times> fid) \<times> 'f"
  pv_av_open :: "fid \<Rightarrow> 'f \<Rightarrow> (int \<times> fid) \<times> 'f"
  pv_scalable_ep :: "fid \<Rightarrow> fi_info \<Rightarrow> 'f \<Rightarrow> (int \<times> fid) \<times> 'f"
  pv_scalable_ep_bind :: "fid \<Rightarrow> fid \<Rightarrow> u64 \<Rightarrow> 'f \<Rightarrow> int \<times> 'f"
  pv_enable :: "fid \<Rightarrow> 'f \<Rightarrow> int \<times> 'f"
  pv_tx_context :: "fid \<Rightarrow> fi_info \<Rightarrow> 'f \<Rightarrow> (int \<times> fid) \<times> 'f"
  pv_rx_context :: "fid \<Rightarrow> fi_info \<Rightarrow> 'f \<Rightarrow> (int \<times> fid) \<times> 'f"
  pv_ep_bind :: "fid \<Rightarrow> fid \<Rightarrow> u64 \<Rightarrow> 'f \<Rightarrow> int \<times> 'f"
  pv_endpoint :: "fid \<Rightarrow> fi_info \<Rightarrow> 'f \<Rightarrow> (int \<times> fid) \<times> 'f"
  pv_FI_MSG :: u64
  pv_FI_NAMED_RX_CTX :: u64
  pv_FI_SEND :: u64
  pv_FI_RECV :: u64

subsection \<open>Opening an endpoint\<close>

text \<open>\<open>set_hints\<close>: of the hints, only the provider name varies; an empty name asks for any.\<close>

definition set_hints :: "ep_id \<Rightarrow> string \<Rightarrow> 'f lfi \<Rightarrow> 'f lfi" where
  "set_hints e prov s = upd_ep e (\<lambda>x. x\<lparr>ep_hints := Some prov\<rparr>) s"

text \<open>\<open>if (ret) return ret;\<close>\<close>

definition chk :: "int \<times> 'f lfi \<Rightarrow> ('f lfi \<Rightarrow> int \<times> 'f lfi) \<Rightarrow> int \<times> 'f lfi" where
  "chk p k = (case p of (ret, s) \<Rightarrow> if ret \<noteq> 0 then (ret, s) else k s)"

text \<open>A call that opens an object and stores it in the endpoint.\<close>

definition open_into :: "ep_id \<Rightarrow> ('f \<Rightarrow> (int \<times> 'a) \<times> 'f) \<Rightarrow> ('a \<Rightarrow> endpoint \<Rightarrow> endpoint) \<Rightarrow> 'f lfi \<Rightarrow> int \<times> 'f lfi" where
  "open_into e call store s =
     (let ((ret, x), s1) = fab call s in (ret, if ret = 0 then upd_ep e (store x) s1 else s1))"

definition info_of :: "ep_id \<Rightarrow> 'f lfi \<Rightarrow> fi_info" where
  "info_of e s = the (ep_info (ep_of e s))"

definition add_tx_caps :: "u64 \<Rightarrow> endpoint \<Rightarrow> endpoint" where
  "add_tx_caps caps x = x\<lparr>ep_info := map_option (\<lambda>i. i\<lparr>fi_tx_caps := fi_tx_caps i OR caps\<rparr>) (ep_info x)\<rparr>"

definition add_rx_caps :: "u64 \<Rightarrow> endpoint \<Rightarrow> endpoint" where
  "add_rx_caps caps x = x\<lparr>ep_info := map_option (\<lambda>i. i\<lparr>fi_rx_caps := fi_rx_caps i OR caps\<rparr>) (ep_info x)\<rparr>"

definition init_scalable :: "'f provider \<Rightarrow> ep_id \<Rightarrow> 'f lfi \<Rightarrow> int \<times> 'f lfi" where
  "init_scalable pv e s =
     chk (fab (pv_scalable_ep_bind pv (ep_ep (ep_of e s)) (ep_av (ep_of e s)) 0) s) (\<lambda>s.
     chk (fab (pv_enable pv (ep_ep (ep_of e s))) s) (\<lambda>s.
     let s = upd_ep e (add_tx_caps (pv_FI_MSG pv OR pv_FI_NAMED_RX_CTX pv)) s in
     chk (open_into e (pv_tx_context pv (ep_ep (ep_of e s)) (info_of e s)) (\<lambda>h x. x\<lparr>ep_tx := h\<rparr>) s) (\<lambda>s.
     chk (fab (pv_ep_bind pv (ep_tx (ep_of e s)) (ep_cq (ep_of e s)) (pv_FI_SEND pv)) s) (\<lambda>s.
     chk (fab (pv_enable pv (ep_tx (ep_of e s))) s) (\<lambda>s.
     let s = upd_ep e (add_rx_caps (pv_FI_MSG pv OR pv_FI_NAMED_RX_CTX pv)) s in
     chk (open_into e (pv_rx_context pv (ep_ep (ep_of e s)) (info_of e s)) (\<lambda>h x. x\<lparr>ep_rx := h\<rparr>) s) (\<lambda>s.
     chk (fab (pv_ep_bind pv (ep_rx (ep_of e s)) (ep_cq (ep_of e s)) (pv_FI_RECV pv)) s) (\<lambda>s.
     fab (pv_enable pv (ep_rx (ep_of e s))) s)))))))"

definition init_plain :: "'f provider \<Rightarrow> ep_id \<Rightarrow> 'f lfi \<Rightarrow> int \<times> 'f lfi" where
  "init_plain pv e s =
     chk (open_into e (pv_endpoint pv (ep_domain (ep_of e s)) (info_of e s)) (\<lambda>h x. x\<lparr>ep_ep := h\<rparr>) s) (\<lambda>s.
     chk (fab (pv_ep_bind pv (ep_ep (ep_of e s)) (ep_av (ep_of e s)) 0) s) (\<lambda>s.
     chk (fab (pv_ep_bind pv (ep_ep (ep_of e s)) (ep_cq (ep_of e s)) (pv_FI_SEND pv OR pv_FI_RECV pv)) s) (\<lambda>s.
     fab (pv_enable pv (ep_ep (ep_of e s))) s)))"

text \<open>\<open>fi_scalable_ep\<close>: a provider without it falls back to a plain endpoint.\<close>

definition try_scalable :: "'f provider \<Rightarrow> ep_id \<Rightarrow> 'f lfi \<Rightarrow> int \<times> 'f lfi" where
  "try_scalable pv e s =
     (let ((ret, h), s1) = fab (pv_scalable_ep pv (ep_domain (ep_of e s)) (info_of e s)) s
      in if ret = - FI_ENOSYS then (0, upd_ep e (\<lambda>x. x\<lparr>ep_use_scalable := False\<rparr>) s1)
         else if ret \<noteq> 0 then (ret, s1)
         else (0, upd_ep e (\<lambda>x. x\<lparr>ep_ep := h\<rparr>) s1))"

definition init :: "'f provider \<Rightarrow> ep_id \<Rightarrow> 'f lfi \<Rightarrow> int \<times> 'f lfi" where
  "init pv e s =
     chk (open_into e (pv_getinfo pv (ep_hints (ep_of e s))) (\<lambda>i x. x\<lparr>ep_info := Some i\<rparr>) s) (\<lambda>s.
     chk (open_into e (pv_fabric pv (info_of e s)) (\<lambda>h x. x\<lparr>ep_fabric := h\<rparr>) s) (\<lambda>s.
     chk (open_into e (pv_domain pv (ep_fabric (ep_of e s)) (info_of e s)) (\<lambda>h x. x\<lparr>ep_domain := h\<rparr>) s) (\<lambda>s.
     chk (open_into e (pv_cq_open pv (ep_domain (ep_of e s))) (\<lambda>h x. x\<lparr>ep_cq := h\<rparr>) s) (\<lambda>s.
     chk (open_into e (pv_av_open pv (ep_domain (ep_of e s))) (\<lambda>h x. x\<lparr>ep_av := h\<rparr>) s) (\<lambda>s.
     chk (try_scalable pv e s) (\<lambda>s.
     chk (if ep_use_scalable (ep_of e s) then init_scalable pv e s else init_plain pv e s) (\<lambda>s.
     (0, upd_ep e (\<lambda>x. x\<lparr>ep_enable := True\<rparr>) s))))))))"

subsection \<open>Closing an endpoint\<close>

text \<open>One of the handles: closed if there is one, with a warning only on an error.\<close>

definition close_handle ::
    "'f world \<Rightarrow> ep_id \<Rightarrow> (endpoint \<Rightarrow> fid) \<Rightarrow> (endpoint \<Rightarrow> endpoint) \<Rightarrow> int \<times> 'f lfi \<Rightarrow> int \<times> 'f lfi" where
  "close_handle w e handle clear p =
     (case p of (ret, s) \<Rightarrow>
        if handle (ep_of e s) \<noteq> 0
        then (let (ret', s1) = fab (w_close w (handle (ep_of e s))) s in (ret', upd_ep e clear s1))
        else (ret, s))"

definition destroy :: "'f world \<Rightarrow> ep_id \<Rightarrow> 'f lfi \<Rightarrow> int \<times> 'f lfi" where
  "destroy w e s =
     (let p = (0, upd_ep e (\<lambda>x. x\<lparr>ep_enable := False\<rparr>) s);
          p = close_handle w e ep_tx (\<lambda>x. x\<lparr>ep_tx := 0\<rparr>) p;
          p = close_handle w e ep_rx (\<lambda>x. x\<lparr>ep_rx := 0\<rparr>) p;
          p = close_handle w e ep_ep (\<lambda>x. x\<lparr>ep_ep := 0\<rparr>) p;
          p = close_handle w e ep_av (\<lambda>x. x\<lparr>ep_av := 0\<rparr>) p;
          p = close_handle w e ep_cq (\<lambda>x. x\<lparr>ep_cq := 0\<rparr>) p;
          p = close_handle w e ep_domain (\<lambda>x. x\<lparr>ep_domain := 0\<rparr>) p;
          (ret, s1) = close_handle w e ep_fabric (\<lambda>x. x\<lparr>ep_fabric := 0\<rparr>) p
      in (ret, upd_ep e (\<lambda>x. x\<lparr>ep_hints := None, ep_info := None\<rparr>) s1))"

subsection \<open>The library object\<close>

text \<open>\<open>std::string::find\<close> finds the pattern.\<close>

fun contains :: "string \<Rightarrow> string \<Rightarrow> bool" where
  "contains pat [] = (pat = [])"
| "contains pat (c # cs) = (take (length pat) (c # cs) = pat \<or> contains pat cs)"

text \<open>The constructor. A thrown exception is returned as its message.\<close>

definition ctor_peer :: "'f world \<Rightarrow> 'f provider \<Rightarrow> 'f lfi \<Rightarrow> (string option \<times> 'f lfi) option" where
  "ctor_peer w pv s =
     (if ep_enable (l_peer s) then Some (None, s)
      else (let (ret, s1) = init pv Peer (set_hints Peer '''' s)
            in if ret < 0 then Some (Some ''LFI cannot init the inter-node endpoints'', s1)
               else do { (_, s2) \<leftarrow> create_any_comm w Peer LFI_ANY_COMM_PEER s1; Some (None, s2) }))"

definition init_shm :: "'f provider \<Rightarrow> 'f lfi \<Rightarrow> (int \<times> 'f lfi) option" where
  "init_shm pv s =
     do { info \<leftarrow> ep_info (l_peer s);
          Some (if contains ''verbs'' (fi_prov_name info) then init pv Shm (set_hints Shm '''' s)
                else (let (ret, s1) = init pv Shm (set_hints Shm ''shm'' s)
                      in if ret < 0 then init pv Shm (set_hints Shm ''sm2'' s1) else (ret, s1))) }"

definition ctor_shm :: "'f world \<Rightarrow> 'f provider \<Rightarrow> 'f lfi \<Rightarrow> (string option \<times> 'f lfi) option" where
  "ctor_shm w pv s =
     (if LFI_use_shm (l_env s)
      then do {
        (ret, s1) \<leftarrow> (if ep_enable (l_shm s) then Some (0, s) else init_shm pv s);
        if ret < 0 then Some (Some ''LFI cannot init the intra-node endpoints'', s1)
        else do { (_, s2) \<leftarrow> create_any_comm w Shm LFI_ANY_COMM_SHM s1; Some (None, s2) } }
      else do { (_, s2) \<leftarrow> create_any_comm w Peer LFI_ANY_COMM_SHM s; Some (None, s2) })"

definition lfi_ctor :: "'f world \<Rightarrow> 'f provider \<Rightarrow> 'f lfi \<Rightarrow> (string option \<times> 'f lfi) option" where
  "lfi_ctor w pv s =
     do { (thrown, s1) \<leftarrow> ctor_peer w pv s;
          if thrown \<noteq> None then Some (thrown, s1)
          else do {
            (thrown2, s2) \<leftarrow> ctor_shm w pv s1;
            if thrown2 \<noteq> None then Some (thrown2, s2) else Some (None, ft_start w s2) } }"

text \<open>The destructor's body, then the communicators: a heartbeat in flight is cancelled by then.\<close>

definition dtor_body :: "'f world \<Rightarrow> 'f lfi \<Rightarrow> 'f lfi" where
  "dtor_body w s =
     (let s1 = ft_stop w s;
          s2 = (if ep_enable (l_shm s1) then snd (destroy w Shm s1) else s1)
      in if ep_enable (l_peer s2) then snd (destroy w Peer s2) else s2)"

fun destroy_comms :: "nat \<Rightarrow> 'f world \<Rightarrow> (cid \<times> comm option) list \<Rightarrow> 'f lfi \<Rightarrow> 'f lfi option" where
  "destroy_comms d w [] s = Some (s\<lparr>l_comms := []\<rparr>)"
| "destroy_comms d w ((c, m) # cs) s =
     (case m of
        None \<Rightarrow> destroy_comms d w cs s
      | Some m \<Rightarrow>
          (case cm_heartbeat_req m of
             None \<Rightarrow> destroy_comms d w cs s
           | Some hb \<Rightarrow> do { s1 \<leftarrow> destroy_request (protected_progress d w) w hb s; destroy_comms d w cs s1 }))"

definition lfi_dtor :: "nat \<Rightarrow> 'f world \<Rightarrow> 'f lfi \<Rightarrow> 'f lfi option" where
  "lfi_dtor d w s = (let s1 = dtor_body w s in destroy_comms d w (l_comms s1) s1)"

subsection \<open>What initialisation leaves alone\<close>

text \<open>Only the endpoints and the outside change.\<close>

definition same_core :: "'f lfi \<Rightarrow> 'f lfi \<Rightarrow> bool" where
  "same_core s t \<longleftrightarrow> l_env t = l_env s \<and> l_comms t = l_comms s \<and> l_clinks t = l_clinks s \<and> l_futs t = l_futs s \<and>
     l_rank_counter t = l_rank_counter s \<and> l_reqs t = l_reqs s \<and> l_rlinks t = l_rlinks s \<and>
     l_next_rid t = l_next_rid s \<and> l_ctxs t = l_ctxs s \<and> l_next_ctx t = l_next_ctx s \<and> l_free t = l_free s \<and>
     l_created t = l_created s \<and> l_mrs t = l_mrs s \<and> l_log t = l_log s"

lemma same_core_refl [simp, intro]: "same_core s s"
  by (simp add: same_core_def)

lemma same_core_trans [trans]: "same_core s t \<Longrightarrow> same_core t u \<Longrightarrow> same_core s u"
  by (simp add: same_core_def)

lemma same_core_upd_ep [simp, intro]: "same_core s (upd_ep e g s)"
  by (simp add: same_core_def upd_ep_def split: ep_id.splits)

lemma same_core_fab [simp, intro]: "same_core s (s\<lparr>l_fab := f\<rparr>)"
  by (simp add: same_core_def)

text \<open>\<open>local e s t\<close>: of the endpoints, only \<open>e\<close> has changed as well.\<close>

definition local_to :: "ep_id \<Rightarrow> 'f lfi \<Rightarrow> 'f lfi \<Rightarrow> bool" where
  "local_to e s t \<longleftrightarrow> same_core s t \<and> (\<forall>e'. e' \<noteq> e \<longrightarrow> ep_of e' t = ep_of e' s)"

lemma local_to_refl [simp, intro]: "local_to e s s"
  by (simp add: local_to_def)

lemma local_to_trans [trans]: "local_to e s t \<Longrightarrow> local_to e t u \<Longrightarrow> local_to e s u"
  unfolding local_to_def using same_core_trans by metis

lemma local_to_upd_ep: "local_to e s t \<Longrightarrow> local_to e s (upd_ep e g t)"
  unfolding local_to_def using same_core_trans same_core_upd_ep by auto

lemma local_to_fab: "local_to e s t \<Longrightarrow> local_to e s (snd (fab call t))"
  unfolding local_to_def fab_def
  by (auto simp: case_prod_beta Let_def intro: same_core_trans)

lemma local_to_open: "local_to e s t \<Longrightarrow> local_to e s (snd (open_into e call store t))"
  using local_to_fab [of e s t call] by (auto simp: open_into_def case_prod_beta Let_def intro: local_to_upd_ep)

lemma local_to_chk:
  assumes "local_to e s (snd p)" and "\<And>t. local_to e s t \<Longrightarrow> local_to e s (snd (k t))"
  shows "local_to e s (snd (chk p k))"
  using assms by (cases p) (simp add: chk_def)

lemmas local_to_rules = local_to_chk local_to_open local_to_fab local_to_upd_ep

lemma local_to_scalable: "local_to e s t \<Longrightarrow> local_to e s (snd (init_scalable pv e t))"
  unfolding init_scalable_def Let_def by (intro local_to_rules)

lemma local_to_plain: "local_to e s t \<Longrightarrow> local_to e s (snd (init_plain pv e t))"
  unfolding init_plain_def by (intro local_to_rules)

lemma local_to_try: "local_to e s t \<Longrightarrow> local_to e s (snd (try_scalable pv e t))"
  using local_to_fab [of e s t "pv_scalable_ep pv (ep_domain (ep_of e t)) (info_of e t)"]
  by (auto simp: try_scalable_def case_prod_beta Let_def intro: local_to_upd_ep)

lemma local_to_init: "local_to e s (snd (init pv e s))"
  unfolding init_def
  by (intro local_to_rules local_to_try local_to_refl)
    (auto intro: local_to_scalable local_to_plain local_to_upd_ep)

subsection \<open>What a successful initialisation has opened\<close>

text \<open>libfabric: a call that succeeds fills its pointer.\<close>

definition gives :: "('f \<Rightarrow> (int \<times> fid) \<times> 'f) \<Rightarrow> bool" where
  "gives call \<longleftrightarrow> (\<forall>f x f'. call f = ((0, x), f') \<longrightarrow> x \<noteq> 0)"

definition signed :: "('f \<Rightarrow> (int \<times> 'a) \<times> 'f) \<Rightarrow> bool" where
  "signed call \<longleftrightarrow> (\<forall>f. fst (fst (call f)) \<le> 0)"

definition nonpos :: "('f \<Rightarrow> int \<times> 'f) \<Rightarrow> bool" where
  "nonpos call \<longleftrightarrow> (\<forall>f. fst (call f) \<le> 0)"

text \<open>libfabric: a result is zero or a negative error.\<close>

definition provider_signed :: "'f provider \<Rightarrow> bool" where
  "provider_signed pv \<longleftrightarrow> (\<forall>h h' i p fl. signed (pv_getinfo pv p) \<and> signed (pv_fabric pv i) \<and> signed (pv_domain pv h i) \<and>
     signed (pv_cq_open pv h) \<and> signed (pv_av_open pv h) \<and> signed (pv_scalable_ep pv h i) \<and>
     signed (pv_tx_context pv h i) \<and> signed (pv_rx_context pv h i) \<and> signed (pv_endpoint pv h i) \<and>
     nonpos (pv_scalable_ep_bind pv h h' fl) \<and> nonpos (pv_enable pv h) \<and> nonpos (pv_ep_bind pv h h' fl))"

definition provider_ok :: "'f provider \<Rightarrow> bool" where
  "provider_ok pv \<longleftrightarrow> (\<forall>h i. gives (pv_fabric pv i) \<and> gives (pv_domain pv h i) \<and> gives (pv_cq_open pv h) \<and>
     gives (pv_av_open pv h) \<and> gives (pv_scalable_ep pv h i) \<and> gives (pv_tx_context pv h i) \<and>
     gives (pv_rx_context pv h i) \<and> gives (pv_endpoint pv h i))"

lemma chk_zero: "chk p k = (0, t) \<longleftrightarrow> (\<exists>s. p = (0, s) \<and> k s = (0, t))"
  by (cases p) (simp add: chk_def)

lemma fab_zero: "fab call s = (0, t) \<Longrightarrow> \<exists>f. t = s\<lparr>l_fab := f\<rparr>"
  by (auto simp: fab_def Let_def split: prod.splits)

lemma open_zero:
  "open_into e call store s = (0, t) \<Longrightarrow> gives call \<Longrightarrow> \<exists>x f. x \<noteq> 0 \<and> t = upd_ep e (store x) (s\<lparr>l_fab := f\<rparr>)"
  by (auto simp: open_into_def fab_def gives_def Let_def split: prod.splits if_splits)

definition ep_ready :: "endpoint \<Rightarrow> bool" where
  "ep_ready x \<longleftrightarrow> ep_enable x \<and> ep_info x \<noteq> None \<and> ep_fabric x \<noteq> 0 \<and> ep_domain x \<noteq> 0 \<and> ep_cq x \<noteq> 0 \<and>
     ep_av x \<noteq> 0 \<and> ep_ep x \<noteq> 0 \<and> tx_endpoint x \<noteq> 0 \<and> rx_endpoint x \<noteq> 0"

text \<open>What both ways of opening keep of the first steps.\<close>

definition base_of :: "endpoint \<Rightarrow> fid \<times> fid \<times> fid \<times> fid \<times> bool \<times> bool \<times> bool" where
  "base_of x = (ep_fabric x, ep_domain x, ep_cq x, ep_av x, ep_use_scalable x, ep_info x = None, ep_enable x)"

lemma scalable_zero:
  assumes "init_scalable pv e s = (0, t)" and "provider_ok pv"
  shows "ep_tx (ep_of e t) \<noteq> 0 \<and> ep_rx (ep_of e t) \<noteq> 0 \<and> ep_ep (ep_of e t) = ep_ep (ep_of e s) \<and>
     base_of (ep_of e t) = base_of (ep_of e s)"
  using assms
  by (auto simp: init_scalable_def Let_def chk_zero provider_ok_def add_tx_caps_def add_rx_caps_def base_of_def
      dest!: fab_zero open_zero)

lemma plain_zero:
  assumes "init_plain pv e s = (0, t)" and "provider_ok pv"
  shows "ep_ep (ep_of e t) \<noteq> 0 \<and> base_of (ep_of e t) = base_of (ep_of e s)"
  using assms
  by (auto simp: init_plain_def chk_zero provider_ok_def base_of_def dest!: fab_zero open_zero)

lemma try_zero:
  assumes "try_scalable pv e s = (0, t)" and "provider_ok pv"
  shows "(ep_use_scalable (ep_of e t) \<longrightarrow> ep_ep (ep_of e t) \<noteq> 0) \<and>
     base_of (ep_of e t) = base_of ((ep_of e s)\<lparr>ep_use_scalable := ep_use_scalable (ep_of e t)\<rparr>)"
proof -
  obtain ret h f where call: "pv_scalable_ep pv (ep_domain (ep_of e s)) (info_of e s) (l_fab s) = ((ret, h), f)"
    by (metis prod.exhaust)
  have "gives (pv_scalable_ep pv (ep_domain (ep_of e s)) (info_of e s))" using assms(2) by (simp add: provider_ok_def)
  then have "ret = 0 \<Longrightarrow> h \<noteq> 0" using call by (auto simp: gives_def)
  then show ?thesis
    using assms(1) call by (auto simp: try_scalable_def fab_def base_of_def split: if_splits)
qed

lemma init_zero:
  assumes "init pv e s = (0, t)" and ok: "provider_ok pv"
  shows "ep_ready (ep_of e t)"
proof -
  obtain s1 s2 s3 s4 s5 s6 s7 where
    s1: "open_into e (pv_getinfo pv (ep_hints (ep_of e s))) (\<lambda>i x. x\<lparr>ep_info := Some i\<rparr>) s = (0, s1)"
    and s2: "open_into e (pv_fabric pv (info_of e s1)) (\<lambda>h x. x\<lparr>ep_fabric := h\<rparr>) s1 = (0, s2)"
    and s3: "open_into e (pv_domain pv (ep_fabric (ep_of e s2)) (info_of e s2)) (\<lambda>h x. x\<lparr>ep_domain := h\<rparr>) s2 = (0, s3)"
    and s4: "open_into e (pv_cq_open pv (ep_domain (ep_of e s3))) (\<lambda>h x. x\<lparr>ep_cq := h\<rparr>) s3 = (0, s4)"
    and s5: "open_into e (pv_av_open pv (ep_domain (ep_of e s4))) (\<lambda>h x. x\<lparr>ep_av := h\<rparr>) s4 = (0, s5)"
    and s6: "try_scalable pv e s5 = (0, s6)"
    and s7: "(if ep_use_scalable (ep_of e s6) then init_scalable pv e s6 else init_plain pv e s6) = (0, s7)"
    and t: "t = upd_ep e (\<lambda>x. x\<lparr>ep_enable := True\<rparr>) s7"
    using assms(1) unfolding init_def by (auto simp: chk_zero)
  have "ep_info (ep_of e s1) \<noteq> None"
    using s1 by (auto simp: open_into_def Let_def split: prod.splits if_splits)
  then have five: "ep_info (ep_of e s5) \<noteq> None" "ep_fabric (ep_of e s5) \<noteq> 0" "ep_domain (ep_of e s5) \<noteq> 0"
      "ep_cq (ep_of e s5) \<noteq> 0" "ep_av (ep_of e s5) \<noteq> 0"
    using open_zero [OF s2] open_zero [OF s3] open_zero [OF s4] open_zero [OF s5] ok by (auto simp: provider_ok_def)
  note six = try_zero [OF s6 ok]
  have seven: "base_of (ep_of e s7) = base_of (ep_of e s6)" "ep_ep (ep_of e s7) \<noteq> 0"
      "tx_endpoint (ep_of e s7) \<noteq> 0" "rx_endpoint (ep_of e s7) \<noteq> 0"
    using s7 six scalable_zero [OF _ ok, of e s6 s7] plain_zero [OF _ ok, of e s6 s7]
    by (cases "ep_use_scalable (ep_of e s6)"; auto simp: tx_endpoint_def rx_endpoint_def base_of_def)+
  then show ?thesis
    using five six by (auto simp: t ep_ready_def base_of_def tx_endpoint_def rx_endpoint_def)
qed

text \<open>A failed initialisation does not enable the endpoint.\<close>

definition keeps_flag :: "ep_id \<Rightarrow> 'f lfi \<Rightarrow> 'f lfi \<Rightarrow> bool" where
  "keeps_flag e s t \<longleftrightarrow> ep_enable (ep_of e t) = ep_enable (ep_of e s)"

lemma keeps_flag_open:
  "(\<And>x y. ep_enable (store x y) = ep_enable y) \<Longrightarrow> keeps_flag e s t \<Longrightarrow>
   keeps_flag e s (snd (open_into e call store t))"
  by (simp add: keeps_flag_def open_into_def fab_def case_prod_beta Let_def)

lemma keeps_flag_fab: "keeps_flag e s t \<Longrightarrow> keeps_flag e s (snd (fab call t))"
  by (simp add: keeps_flag_def fab_def case_prod_beta Let_def)

lemma keeps_flag_upd: "(\<And>y. ep_enable (g y) = ep_enable y) \<Longrightarrow> keeps_flag e s t \<Longrightarrow> keeps_flag e s (upd_ep e g t)"
  by (simp add: keeps_flag_def)

lemma keeps_flag_chk:
  "keeps_flag e s (snd p) \<Longrightarrow> (\<And>t. keeps_flag e s t \<Longrightarrow> keeps_flag e s (snd (k t))) \<Longrightarrow> keeps_flag e s (snd (chk p k))"
  by (cases p) (simp add: chk_def)

lemma keeps_flag_tail:
  "keeps_flag e s t \<Longrightarrow> keeps_flag e s (snd (init_scalable pv e t))"
  "keeps_flag e s t \<Longrightarrow> keeps_flag e s (snd (init_plain pv e t))"
  "keeps_flag e s t \<Longrightarrow> keeps_flag e s (snd (try_scalable pv e t))"
  unfolding init_scalable_def init_plain_def Let_def
  by ((intro keeps_flag_chk keeps_flag_open keeps_flag_fab keeps_flag_upd; simp add: add_tx_caps_def add_rx_caps_def)+)
    (simp add: try_scalable_def keeps_flag_def fab_def case_prod_beta Let_def)

lemma failed_chk:
  "keeps_flag e s (snd p) \<Longrightarrow> (\<And>t. keeps_flag e s t \<Longrightarrow> fst (k t) \<noteq> 0 \<longrightarrow> keeps_flag e s (snd (k t))) \<Longrightarrow>
   fst (chk p k) \<noteq> 0 \<longrightarrow> keeps_flag e s (snd (chk p k))"
  by (cases p) (auto simp: chk_def)

lemma init_failed: "fst (init pv e s) \<noteq> 0 \<longrightarrow> keeps_flag e s (snd (init pv e s))"
  unfolding init_def
  by (intro failed_chk keeps_flag_open keeps_flag_tail(3))
    (auto simp: keeps_flag_tail, simp_all add: keeps_flag_def)

subsection \<open>Closing\<close>

text \<open>The handles of an endpoint in the order in which they are closed: each before the one it was
  opened from.\<close>

definition handles :: "endpoint \<Rightarrow> fid list" where
  "handles x = filter (\<lambda>h. h \<noteq> 0) [ep_tx x, ep_rx x, ep_ep x, ep_av x, ep_cq x, ep_domain x, ep_fabric x]"

definition close_all :: "'f world \<Rightarrow> fid list \<Rightarrow> 'f \<Rightarrow> 'f" where
  "close_all w hs f = fold (\<lambda>h f. snd (w_close w h f)) hs f"

lemma close_handle_effect:
  "ep_of e (snd (close_handle w e handle clear p)) =
     (if handle (ep_of e (snd p)) \<noteq> 0 then clear (ep_of e (snd p)) else ep_of e (snd p))"
  "l_fab (snd (close_handle w e handle clear p)) =
     close_all w (filter (\<lambda>h. h \<noteq> 0) [handle (ep_of e (snd p))]) (l_fab (snd p))"
  by (simp_all add: close_handle_def close_all_def fab_def case_prod_beta Let_def)

lemma close_handle_local: "local_to e s (snd p) \<Longrightarrow> local_to e s (snd (close_handle w e handle clear p))"
  using local_to_fab [of e s "snd p" "w_close w (handle (ep_of e (snd p)))"]
  by (auto simp: close_handle_def case_prod_beta Let_def intro: local_to_upd_ep)

lemma destroy_fab: "l_fab (snd (destroy w e s)) = close_all w (handles (ep_of e s)) (l_fab s)"
  by (simp add: destroy_def Let_def case_prod_beta close_handle_effect handles_def close_all_def)

lemma destroy_ep:
  "ep_of e (snd (destroy w e s)) = (ep_of e s)\<lparr>ep_enable := False, ep_tx := 0, ep_rx := 0, ep_ep := 0, ep_av := 0,
     ep_cq := 0, ep_domain := 0, ep_fabric := 0, ep_hints := None, ep_info := None\<rparr>"
  by (simp add: destroy_def Let_def case_prod_beta close_handle_effect)

lemma destroy_local: "local_to e s (snd (destroy w e s))"
  unfolding destroy_def Let_def case_prod_beta
  by (simp, intro close_handle_local local_to_upd_ep) (simp add: local_to_upd_ep)

subsection \<open>The constructor\<close>

text \<open>No request was ever made.\<close>

definition pristine :: "'f lfi \<Rightarrow> bool" where
  "pristine s \<longleftrightarrow> l_reqs s = (\<lambda>_. None) \<and> l_rlinks s = (\<lambda>_. dnode_fresh) \<and> l_ctxs s = (\<lambda>_. None) \<and> l_free s = [] \<and>
     l_created s = int (l_next_ctx s) \<and> (\<forall>c m. the_comm c s = Some m \<longrightarrow> cm_requests m = dll_empty)"

lemma pristine_inv: "pristine s \<Longrightarrow> lfi_inv s"
proof -
  assume p: "pristine s"
  then have "ft_rep s (\<lambda>_. [])" "ft_sync s (\<lambda>_. [])"
    by (auto simp: pristine_def ft_rep_def ft_sync_def in_flight_def)
  then have "ft_inv s" by (auto simp: ft_inv_def)
  then show ?thesis
    using p by (simp add: lfi_inv_def ctx_inv_def rid_inv_def comms_alive_def in_flight_def holds_ctx_def pristine_def)
qed

lemma pristine_cong:
  assumes "same_core s t" and "pristine s"
  shows "pristine t"
  using assms by (simp add: same_core_def pristine_def the_comm_def)

lemma create_any_ready:
  assumes "create_any_comm w e c s = Some (k, t)" and "pristine s" and "map_of (l_comms s) c = None"
  shows "pristine t" and "\<And>e'. ep_of e' t = ep_of e' s" and "l_env t = l_env s"
    and "\<exists>m. the_comm c t = Some m \<and> cm_is_ready m = READY \<and> cm_endpoint m = e"
    and "\<And>c'. c' \<noteq> c \<Longrightarrow> map_of (l_comms t) c' = map_of (l_comms s) c'"
proof -
  obtain now f where now: "w_now w (l_fab s) = (now, f)" by (metis prod.exhaust)
  let ?m = "(comm_new e c now)\<lparr>cm_rank_peer := c, cm_rank_self_in_peer := c, cm_is_ready := READY\<rparr>"
  have t: "t = set_comm c ?m (s\<lparr>l_fab := f, l_comms := emplace c (Some (comm_new e c now)) (l_comms s)\<rparr>)"
    using assms(1,3) now
    by (auto simp: create_any_comm_def clock_now_def fab_def Let_def the_comm_def map_of_emplace)
  show "pristine t" using assms(2,3)
    by (auto simp: t pristine_def comm_new_def the_comm_def map_of_emplace set_comm_def map_of_update split: if_splits option.splits)
  show "ep_of e' t = ep_of e' s" for e' by (simp add: t)
  show "l_env t = l_env s" by (simp add: t)
  show "\<exists>m. the_comm c t = Some m \<and> cm_is_ready m = READY \<and> cm_endpoint m = e"
    by (simp add: t comm_new_def)
  show "map_of (l_comms t) c' = map_of (l_comms s) c'" if "c' \<noteq> c" for c'
    using that by (simp add: t set_comm_def map_of_update map_of_emplace)
qed

lemma nonpos_chk: "fst p \<le> 0 \<Longrightarrow> (\<And>t. fst (k t) \<le> 0) \<Longrightarrow> fst (chk p k) \<le> 0"
  by (cases p) (simp add: chk_def)

lemma nonpos_fab: "nonpos call \<Longrightarrow> fst (fab call s) \<le> 0"
  by (simp add: nonpos_def fab_def case_prod_beta Let_def)

lemma nonpos_open: "signed call \<Longrightarrow> fst (open_into e call store s) \<le> 0"
  by (simp add: signed_def open_into_def fab_def case_prod_beta Let_def)

lemma nonpos_init:
  assumes "provider_signed pv"
  shows "fst (init pv e s) \<le> 0"
proof -
  have "fst (init_scalable pv e t) \<le> 0" "fst (init_plain pv e t) \<le> 0" for t
    using assms unfolding init_scalable_def init_plain_def Let_def
    by (intro nonpos_chk nonpos_fab nonpos_open; simp add: provider_signed_def)+
  moreover have "fst (try_scalable pv e t) \<le> 0" for t
    using assms by (simp add: try_scalable_def provider_signed_def signed_def fab_def case_prod_beta Let_def)
  ultimately show ?thesis
    using assms unfolding init_def by (intro nonpos_chk nonpos_open) (auto simp: provider_signed_def)
qed

lemma local_to_hints: "local_to e s (set_hints e p s)"
  by (simp add: set_hints_def local_to_upd_ep)

lemma init_ok:
  assumes "init pv e s0 = (ret, t)" and "\<not> ret < 0" and "local_to e s s0" and "provider_ok pv" and "provider_signed pv"
  shows "ep_ready (ep_of e t)" and "local_to e s t"
proof -
  have "ret = 0" using assms(1,2) nonpos_init [OF assms(5), of e s0] by simp
  then show "ep_ready (ep_of e t)" using init_zero assms(1,4) by blast
  show "local_to e s t" using local_to_trans [OF assms(3) local_to_init [of e s0 pv]] assms(1) by simp
qed

lemma init_shm_ok:
  assumes "init_shm pv s = Some (ret, t)" and "\<not> ret < 0" and ok: "provider_ok pv" "provider_signed pv"
  shows "ep_ready (ep_of Shm t) \<and> local_to Shm s t"
proof -
  obtain info where info: "ep_info (l_peer s) = Some info" using assms(1) by (auto simp: init_shm_def split: bind_splits)
  obtain r1 s1 where one: "init pv Shm (set_hints Shm ''shm'' s) = (r1, s1)" by (metis prod.exhaust)
  have l1: "local_to Shm s s1"
    using local_to_trans [OF local_to_hints local_to_init [of Shm "set_hints Shm ''shm'' s" pv]] one by simp
  consider "init pv Shm (set_hints Shm '''' s) = (ret, t)" | "init pv Shm (set_hints Shm ''shm'' s) = (ret, t)"
    | "init pv Shm (set_hints Shm ''sm2'' s1) = (ret, t)"
    using assms(1) info one by (auto simp: init_shm_def split: if_splits)
  then show ?thesis
  proof cases
    case 3
    then show ?thesis using init_ok [OF 3 assms(2) local_to_trans [OF l1 local_to_hints] ok] by simp
  qed (use init_ok [OF _ assms(2) local_to_hints ok] in auto)
qed

definition peer_done :: "'f lfi \<Rightarrow> bool" where
  "peer_done s \<longleftrightarrow> pristine s \<and> ep_ready (l_peer s) \<and>
     (\<exists>m. the_comm LFI_ANY_COMM_PEER s = Some m \<and> cm_is_ready m = READY \<and> cm_endpoint m = Peer)"

lemma ctor_peer_ok:
  assumes "ctor_peer w pv (lfi_new cfg f) = Some (None, t)" and ok: "provider_ok pv" "provider_signed pv"
  shows "peer_done t \<and> l_shm t = endpoint_new True \<and> l_env t = cfg \<and> map_of (l_comms t) LFI_ANY_COMM_SHM = None"
proof -
  let ?s = "lfi_new cfg f"
  have new: "ep_enable (l_peer ?s) = False" "l_comms ?s = []" "l_env ?s = cfg" "ep_of Shm ?s = endpoint_new True"
    by (simp_all add: lfi_new_def endpoint_new_def ep_of_def)
  have "pristine ?s" by (simp add: pristine_def lfi_new_def the_comm_def)
  obtain ret s1 where one: "init pv Peer (set_hints Peer '''' ?s) = (ret, s1)" by (metis prod.exhaust)
  have pos: "\<not> ret < 0" using assms(1) one new by (auto simp: ctor_peer_def)
  then obtain k where any: "create_any_comm w Peer LFI_ANY_COMM_PEER s1 = Some (k, t)"
    using assms(1) one new by (auto simp: ctor_peer_def split: bind_splits)
  note s1 = init_ok [OF one pos local_to_hints ok]
  have core: "same_core ?s s1" using s1(2) by (simp add: local_to_def)
  have pr: "pristine s1" by (rule pristine_cong [OF core \<open>pristine ?s\<close>])
  have no: "map_of (l_comms s1) c = None" for c using core new by (simp add: same_core_def)
  note t = create_any_ready [OF any pr no]
  have "ep_of Shm t = endpoint_new True" using t(2) s1(2) new by (simp add: local_to_def)
  moreover have "ep_ready (ep_of Peer t)" using t(2) s1(1) by simp
  moreover have "l_env t = cfg" using t(3) core new by (simp add: same_core_def)
  moreover have "map_of (l_comms t) LFI_ANY_COMM_SHM = None" using t(5) no by (simp add: lfi_comm_ids)
  ultimately show ?thesis using t(1,4) by (simp add: peer_done_def ep_of_def)
qed

definition all_done :: "env_cfg \<Rightarrow> 'f lfi \<Rightarrow> bool" where
  "all_done cfg s \<longleftrightarrow> peer_done s \<and> (LFI_use_shm cfg \<longrightarrow> ep_ready (l_shm s)) \<and>
     (\<exists>m. the_comm LFI_ANY_COMM_SHM s = Some m \<and> cm_is_ready m = READY \<and>
          cm_endpoint m = (if LFI_use_shm cfg then Shm else Peer))"

lemma ctor_shm_ok:
  assumes "ctor_shm w pv s = Some (None, t)" and s: "peer_done s" "l_shm s = endpoint_new True" "l_env s = cfg"
    "map_of (l_comms s) LFI_ANY_COMM_SHM = None" and ok: "provider_ok pv" "provider_signed pv"
  shows "all_done cfg t"
proof -
  let ?e = "if LFI_use_shm cfg then Shm else Peer"
  have off: "\<not> ep_enable (l_shm s)" by (simp add: s(2) endpoint_new_def)
  obtain s1 k where any: "create_any_comm w ?e LFI_ANY_COMM_SHM s1 = Some (k, t)"
    and s1: "local_to Shm s s1" "LFI_use_shm cfg \<longrightarrow> ep_ready (ep_of Shm s1)"
  proof (cases "LFI_use_shm cfg")
    case True
    then obtain ret s1 k where "init_shm pv s = Some (ret, s1)" "\<not> ret < 0"
      "create_any_comm w Shm LFI_ANY_COMM_SHM s1 = Some (k, t)"
      using assms(1) off s(3) by (auto simp: ctor_shm_def split: bind_splits if_splits)
    then show ?thesis using that init_shm_ok [OF _ _ ok] True by simp
  next
    case False
    then show ?thesis using that assms(1) s(3) by (auto simp: ctor_shm_def split: bind_splits)
  qed
  have core: "same_core s s1" using s1(1) by (simp add: local_to_def)
  have pr: "pristine s1" using pristine_cong [OF core] s(1) by (simp add: peer_done_def)
  have no: "map_of (l_comms s1) LFI_ANY_COMM_SHM = None" using core s(4) by (simp add: same_core_def)
  note t = create_any_ready [OF any pr no]
  have "ep_of Peer t = ep_of Peer s" using t(2) s1(1) by (simp add: local_to_def)
  moreover have "the_comm LFI_ANY_COMM_PEER t = the_comm LFI_ANY_COMM_PEER s"
    using t(5) core by (simp add: the_comm_def lfi_comm_ids same_core_def)
  ultimately have "peer_done t" using s(1) t(1) by (simp add: peer_done_def ep_of_def)
  then show ?thesis using t(2) [of Shm] t(4) s1(2) by (simp add: all_done_def ep_of_def)
qed

text \<open>Registering memory touches the table of regions and the outside only.\<close>

definition but_mrs :: "'f lfi \<Rightarrow> 'f lfi \<Rightarrow> bool" where
  "but_mrs s t \<longleftrightarrow> l_shm t = l_shm s \<and> l_peer t = l_peer s \<and> l_env t = l_env s \<and> l_comms t = l_comms s \<and> l_reqs t = l_reqs s \<and>
     l_rlinks t = l_rlinks s \<and> l_ctxs t = l_ctxs s \<and> l_free t = l_free s \<and> l_created t = l_created s \<and>
     l_next_ctx t = l_next_ctx s"

lemma but_mrs_close: "but_mrs s t \<Longrightarrow> but_mrs s (close_mr w x t)"
  by (simp add: but_mrs_def close_mr_def fab_def case_prod_beta Let_def)

lemma but_mrs_reg: "but_mrs s t \<Longrightarrow> but_mrs s (snd (reg_domain w d a n t))"
  by (simp add: but_mrs_def reg_domain_def fab_def case_prod_beta Let_def)

lemma but_mrs_set: "but_mrs s t \<Longrightarrow> but_mrs s (t\<lparr>l_mrs := x\<rparr>)"
  by (simp add: but_mrs_def)

lemma but_mrs_mr_reg: "but_mrs s (snd (mr_reg w a n s))"
proof -
  have refl: "but_mrs s s" by (simp add: but_mrs_def)
  obtain peer s1 where 1: "(if ep_enable (l_peer s) then reg_domain w (ep_domain (l_peer s)) a n s
      else (Inr (0, -1), s)) = (peer, s1)" by (metis prod.exhaust)
  have s1: "but_mrs s s1" using 1 but_mrs_reg [OF refl, of w "ep_domain (l_peer s)" a n] refl by (auto split: if_splits)
  obtain shm s2 where 2: "reg_domain w (ep_domain (l_shm s1)) a n s1 = (shm, s2)" by (metis prod.exhaust)
  have s2: "but_mrs s s2" using 2 but_mrs_reg [OF s1, of w "ep_domain (l_shm s1)" a n] by simp
  show ?thesis
    using 1 2 s1 s2 by (auto simp: mr_reg_def Let_def but_mrs_close but_mrs_set split: sum.splits prod.splits if_splits)
qed

lemma all_done_ft_start: "all_done cfg s \<Longrightarrow> all_done cfg (ft_start w s)"
  using but_mrs_mr_reg [of "s\<lparr>l_ft_init := True\<rparr>" w LocalHeartbeat 8]
  by (auto simp: ft_start_def setup_heartbeat_def all_done_def peer_done_def pristine_def but_mrs_def the_comm_def
      case_prod_beta Let_def)

subsection \<open>Properties\<close>


text \<open>C15. Destroying an endpoint. \<open>destroy\<close> closes exactly the handles that the endpoint holds, each
  once and before the one it was opened from (transmit and receive context, endpoint, address vector,
  completion queue, domain, fabric), whatever the closing calls return; afterwards the endpoint holds no
  handle, is disabled, and the rest of the library is unchanged.\<close>

theorem destroy_closes:
  "l_fab (snd (destroy w e s)) = close_all w (handles (ep_of e s)) (l_fab s) \<and>
   handles (ep_of e (snd (destroy w e s))) = [] \<and> \<not> ep_enable (ep_of e (snd (destroy w e s))) \<and>
   local_to e s (snd (destroy w e s))"
  by (simp add: destroy_fab destroy_ep destroy_local handles_def)

text \<open>Once the endpoints are closed, a request in flight cannot be cancelled any more.\<close>

definition closed_eps :: "'f lfi \<Rightarrow> bool" where
  "closed_eps s \<longleftrightarrow> (\<forall>e. tx_endpoint (ep_of e s) = 0 \<and> rx_endpoint (ep_of e s) = 0)"

lemma destroy_request_closed:
  assumes "closed_eps s" and "l_reqs s r = Some q" and "rq_wait_context q \<noteq> None" and "rq_op_type q \<noteq> OpInject"
  shows "destroy_request pp w r s = None"
proof -
  obtain k where k: "rq_wait_context q = Some k" using assms(3) by blast
  have "tx_endpoint (drop_pending k x) = tx_endpoint x" "rx_endpoint (drop_pending k x) = rx_endpoint x" for x
    by (simp_all add: drop_pending_def tx_endpoint_def rx_endpoint_def)
  then have "tx_endpoint (ep_of e (upd_ep e (drop_pending k) s)) = 0" "rx_endpoint (ep_of e (upd_ep e (drop_pending k) s)) = 0" for e
    using assms(1) by (simp_all add: closed_eps_def)
  then have "cancel_posted w r q k (upd_ep (rq_endpoint q) (drop_pending k) s) = None"
    by (simp add: cancel_posted_def Let_def)
  then have "cancel_with pp w r s = None" using assms(2,4) k by (simp add: cancel_with_def Let_def)
  moreover have "\<not> is_completed r s" using assms(2,3) by (simp add: is_completed_def)
  ultimately show ?thesis by (simp add: destroy_request_def)
qed

definition heartbeats :: "(cid \<times> comm option) list \<Rightarrow> rid list" where
  "heartbeats cs = List.map_filter (\<lambda>(c, m). case m of None \<Rightarrow> None | Some m \<Rightarrow> cm_heartbeat_req m) cs"

lemma destroy_comms_stuck:
  assumes "closed_eps s" and "hb \<in> set (heartbeats cs)" and "distinct (heartbeats cs)"
    and "\<forall>h \<in> set (heartbeats cs). \<exists>q. l_reqs s h = Some q \<and> rq_op_type q \<noteq> OpInject"
    and "\<not> is_completed hb s"
  shows "destroy_comms d w cs s = None"
  using assms
proof (induction d w cs s rule: destroy_comms.induct)
  case (1 d w s)
  then show ?case by (simp add: heartbeats_def)
next
  case (2 d w c mo cs s)
  show ?case
  proof (cases "case mo of None \<Rightarrow> None | Some m \<Rightarrow> cm_heartbeat_req m")
    case None
    then have "heartbeats ((c, mo) # cs) = heartbeats cs" by (simp add: heartbeats_def List.map_filter_def)
    then show ?thesis using None 2 by (auto split: option.splits)
  next
    case (Some h)
    then obtain m where m: "mo = Some m" "cm_heartbeat_req m = Some h" by (auto split: option.splits)
    have hs: "heartbeats ((c, mo) # cs) = h # heartbeats cs" using m by (simp add: heartbeats_def List.map_filter_def)
    obtain q where q: "l_reqs s h = Some q" "rq_op_type q \<noteq> OpInject" using "2.prems"(4) hs by auto
    show ?thesis
    proof (cases "is_completed h s")
      case False
      then have "rq_wait_context q \<noteq> None" using q by (auto simp: is_completed_def)
      then have "destroy_request (protected_progress d w) w h s = None"
        using destroy_request_closed [OF "2.prems"(1) q(1) _ q(2)] by blast
      then show ?thesis using m by simp
    next
      case True
      let ?s = "s\<lparr>l_reqs := (l_reqs s)(h := None)\<rparr>"
      have gone: "destroy_request (protected_progress d w) w h s = Some ?s" using True by (rule destroy_completed)
      have "h \<noteq> hb" using True "2.prems"(5) by auto
      moreover have "closed_eps ?s" using "2.prems"(1) by (simp add: closed_eps_def)
      moreover have "\<forall>k \<in> set (heartbeats cs). \<exists>q. l_reqs ?s k = Some q \<and> rq_op_type q \<noteq> OpInject"
        using "2.prems"(3,4) hs by auto
      ultimately have "destroy_comms d w cs ?s = None"
        using "2.IH"(3) [OF m gone] "2.prems"(2-5) hs by (auto simp: is_completed_def)
      then show ?thesis using m gone by simp
    qed
  qed
qed

lemma ft_stop_frame: "l_reqs (ft_stop w s) = l_reqs s" "l_comms (ft_stop w s) = l_comms s" "ep_of e (ft_stop w s) = ep_of e s"
  by (auto simp: ft_stop_def mr_unreg_def close_mr_def fab_def case_prod_beta Let_def split: option.splits)

text \<open>Destroying the library while a heartbeat is in flight is undefined. The destructor closes both
  endpoints first; the communicators, and with them their heartbeat requests, are destroyed afterwards,
  and a heartbeat that is still in flight is then cancelled through a null endpoint.\<close>

theorem lfi_dtor_undefined:
  assumes "ep_enable (l_shm s)" and "ep_enable (l_peer s)" and "hb \<in> set (heartbeats (l_comms s))"
    and "distinct (heartbeats (l_comms s))" and "\<not> is_completed hb s"
    and "\<forall>h \<in> set (heartbeats (l_comms s)). \<exists>q. l_reqs s h = Some q \<and> rq_op_type q = OpGet"
  shows "lfi_dtor d w s = None"
proof -
  let ?s1 = "ft_stop w s"
  let ?s2 = "snd (destroy w Shm ?s1)"
  let ?s3 = "snd (destroy w Peer ?s2)"
  have on: "ep_enable (ep_of e s)" for e using assms(1,2) by (cases e) (simp_all add: ep_of_def)
  have l2: "local_to Shm ?s1 ?s2" and l3: "local_to Peer ?s2 ?s3" by (rule destroy_local)+
  have "ep_enable (l_shm ?s1)" using on [of Shm] ft_stop_frame(3) [of Shm w s] by (simp add: ep_of_def)
  moreover have "ep_of Peer ?s2 = ep_of Peer s" using l2 ft_stop_frame(3) [of Peer w s] by (simp add: local_to_def)
  then have "ep_enable (l_peer ?s2)" using on [of Peer] by (simp add: ep_of_def)
  ultimately have body: "dtor_body w s = ?s3" by (simp add: dtor_body_def Let_def)
  have same: "l_comms ?s3 = l_comms s" "l_reqs ?s3 = l_reqs s"
    using l2 l3 by (simp_all add: local_to_def same_core_def ft_stop_frame)
  have "closed_eps ?s3"
    unfolding closed_eps_def
  proof
    fix e
    show "tx_endpoint (ep_of e ?s3) = 0 \<and> rx_endpoint (ep_of e ?s3) = 0"
    proof (cases e)
      case Shm
      then have "ep_of e ?s3 = ep_of Shm ?s2" using l3 by (simp add: local_to_def)
      then show ?thesis by (simp add: destroy_ep tx_endpoint_def rx_endpoint_def)
    next
      case Peer
      then show ?thesis by (simp add: destroy_ep tx_endpoint_def rx_endpoint_def)
    qed
  qed
  moreover have "\<forall>h \<in> set (heartbeats (l_comms s)). \<exists>q. l_reqs ?s3 h = Some q \<and> rq_op_type q \<noteq> OpInject"
    using assms(6) same by force
  moreover have "\<not> is_completed hb ?s3" using assms(5) same by (simp add: is_completed_def)
  ultimately have "destroy_comms d w (l_comms s) ?s3 = None"
    using assms(3,4) by (intro destroy_comms_stuck)
  then show ?thesis using body same by (simp add: lfi_dtor_def)
qed

text \<open>The concrete world: a provider without scalable endpoints that hands out the handles 20, 21, \<dots>, and
  a library whose peer is being probed.\<close>

definition sample_provider :: "sample provider" where
  "sample_provider =
    \<lparr>pv_getinfo = (\<lambda>_ f. ((0, sample_info), f)), pv_fabric = (\<lambda>_ f. ((0, 20), f)), pv_domain = (\<lambda>_ _ f. ((0, 21), f)),
     pv_cq_open = (\<lambda>_ f. ((0, 22), f)), pv_av_open = (\<lambda>_ f. ((0, 23), f)),
     pv_scalable_ep = (\<lambda>_ _ f. ((- FI_ENOSYS, 0), f)), pv_scalable_ep_bind = (\<lambda>_ _ _ f. (0, f)),
     pv_enable = (\<lambda>_ f. (0, f)), pv_tx_context = (\<lambda>_ _ f. ((0, 24), f)), pv_rx_context = (\<lambda>_ _ f. ((0, 25), f)),
     pv_ep_bind = (\<lambda>_ _ _ f. (0, f)), pv_endpoint = (\<lambda>_ _ f. ((0, 26), f)),
     pv_FI_MSG = 2, pv_FI_NAMED_RX_CTX = 4, pv_FI_SEND = 8, pv_FI_RECV = 16\<rparr>"


definition sample_probing :: "sample lfi" where
  "sample_probing =
     (let s1 = snd (store_new_context 0 (upd_req 0 (\<lambda>q. q\<lparr>rq_op_type := OpGet\<rparr>) sample_idle));
          s2 = upd_comm 7 (\<lambda>m. m\<lparr>cm_heartbeat_req := Some 0\<rparr>) s1
      in upd_ep Shm (\<lambda>x. x\<lparr>ep_enable := True\<rparr>) (upd_ep Peer (\<lambda>x. x\<lparr>ep_enable := True\<rparr>) s2))"

theorem lfi_dtor_undefined_witness: "lfi_dtor 1 sample_world sample_probing = None"
proof (rule lfi_dtor_undefined)
  show "ep_enable (l_shm sample_probing)" by code_simp
  show "ep_enable (l_peer sample_probing)" by code_simp
  have hb: "heartbeats (l_comms sample_probing) = [0]" by code_simp
  then show "0 \<in> set (heartbeats (l_comms sample_probing))" "distinct (heartbeats (l_comms sample_probing))" by simp_all
  show "\<not> is_completed 0 sample_probing" by code_simp
  have "map_option rq_op_type (l_reqs sample_probing 0) = Some OpGet" by code_simp
  then show "\<forall>h \<in> set (heartbeats (l_comms sample_probing)). \<exists>q. l_reqs sample_probing h = Some q \<and> rq_op_type q = OpGet"
    using hb by auto
qed

end
