(* ===== verification/Api.thy ===== *)
theory Api
  imports Init
begin

text \<open>
  The C interface of \<open>src/lfi.cpp\<close> and \<open>src/lfi_async.cpp\<close> that does not make connections. A request
  pointer is \<open>None\<close> for \<open>nullptr\<close>; identifiers and tags are C \<open>int\<close>s and are converted to
  \<open>uint32_t\<close> on the way in. \<open>d\<close> is the nesting depth of theory \<open>Ft_Manager\<close>.
\<close>

type_synonym 'f call = "'f lfi \<Rightarrow> (int \<times> 'f lfi) option"

definition u32_of :: "int \<Rightarrow> u32" where
  "u32_of x = word_of_int x"

subsection \<open>Blocking calls\<close>

definition lfi_tsend :: "nat \<Rightarrow> 'f world \<Rightarrow> int \<Rightarrow> ptr \<Rightarrow> u64 \<Rightarrow> int \<Rightarrow> 'f call" where
  "lfi_tsend d w idn data n tag = send_internal d w (u32_of idn) data n SEND (u32_of tag)"

definition lfi_send :: "nat \<Rightarrow> 'f world \<Rightarrow> int \<Rightarrow> ptr \<Rightarrow> u64 \<Rightarrow> 'f call" where
  "lfi_send d w idn data n = lfi_tsend d w idn data n 0"

definition lfi_tsendv :: "nat \<Rightarrow> 'f world \<Rightarrow> int \<Rightarrow> ptr \<Rightarrow> u64 \<Rightarrow> int \<Rightarrow> 'f call" where
  "lfi_tsendv d w idn iov count tag = send_internal d w (u32_of idn) iov count SENDV (u32_of tag)"

definition lfi_trecv :: "nat \<Rightarrow> 'f world \<Rightarrow> int \<Rightarrow> ptr \<Rightarrow> u64 \<Rightarrow> int \<Rightarrow> 'f call" where
  "lfi_trecv d w idn data n tag = recv_internal d w (u32_of idn) data n RECV (u32_of tag)"

definition lfi_recv :: "nat \<Rightarrow> 'f world \<Rightarrow> int \<Rightarrow> ptr \<Rightarrow> u64 \<Rightarrow> 'f call" where
  "lfi_recv d w idn data n = lfi_trecv d w idn data n 0"

definition lfi_trecvv :: "nat \<Rightarrow> 'f world \<Rightarrow> int \<Rightarrow> ptr \<Rightarrow> u64 \<Rightarrow> int \<Rightarrow> 'f call" where
  "lfi_trecvv d w idn iov count tag = recv_internal d w (u32_of idn) iov count RECVV (u32_of tag)"

definition lfi_put :: "nat \<Rightarrow> 'f world \<Rightarrow> int \<Rightarrow> ptr \<Rightarrow> u64 \<Rightarrow> u64 \<Rightarrow> mr_key \<Rightarrow> 'f call" where
  "lfi_put d w idn = put d w (u32_of idn)"

definition lfi_get :: "nat \<Rightarrow> 'f world \<Rightarrow> int \<Rightarrow> ptr \<Rightarrow> u64 \<Rightarrow> u64 \<Rightarrow> mr_key \<Rightarrow> 'f call" where
  "lfi_get d w idn = get d w (u32_of idn)"

definition lfi_client_close :: "nat \<Rightarrow> 'f world \<Rightarrow> int \<Rightarrow> 'f call" where
  "lfi_client_close d w idn = close_comm d w (u32_of idn)"

definition lfi_mr_reg :: "'f world \<Rightarrow> ptr \<Rightarrow> u64 \<Rightarrow> 'f lfi \<Rightarrow> mr_key \<times> 'f lfi" where
  "lfi_mr_reg w a n = mr_reg w a n"

definition lfi_mr_unreg :: "'f world \<Rightarrow> mr_key \<Rightarrow> 'f lfi \<Rightarrow> int \<times> 'f lfi" where
  "lfi_mr_unreg w key = mr_unreg w key"

subsection \<open>Requests\<close>

text \<open>A null function pointer clears the callback.\<close>

definition lfi_request_set_callback :: "rid option \<Rightarrow> cb option \<Rightarrow> u64 \<Rightarrow> 'f lfi \<Rightarrow> 'f lfi" where
  "lfi_request_set_callback req func context s =
     (case req of
        None \<Rightarrow> s
      | Some r \<Rightarrow>
          (case func of
             Some f \<Rightarrow> upd_req r (\<lambda>q. q\<lparr>rq_callback := Some f, rq_callback_ctx := context\<rparr>) s
           | None \<Rightarrow> upd_req r (\<lambda>q. q\<lparr>rq_callback := None, rq_callback_ctx := 0\<rparr>) s))"

definition lfi_request_create :: "'f world \<Rightarrow> int \<Rightarrow> 'f lfi \<Rightarrow> (rid option \<times> 'f lfi) option" where
  "lfi_request_create w idn s =
     do { (comm, s1) \<leftarrow> get_comm_and_mutex w (u32_of idn) s;
          case comm of
            None \<Rightarrow> Some (None, s1)
          | Some c \<Rightarrow> do { m \<leftarrow> the_comm c s1;
                          (r, s2) \<leftarrow> new_request (cm_endpoint m) c s1;
                          Some (Some r, s2) } }"

definition lfi_request_free :: "nat \<Rightarrow> 'f world \<Rightarrow> rid option \<Rightarrow> 'f lfi \<Rightarrow> 'f lfi option" where
  "lfi_request_free d w req s =
     (case req of None \<Rightarrow> Some s | Some r \<Rightarrow> destroy_request (protected_progress d w) w r s)"

definition lfi_request_completed :: "rid option \<Rightarrow> 'f lfi \<Rightarrow> bool option" where
  "lfi_request_completed req s =
     (case req of None \<Rightarrow> Some False | Some r \<Rightarrow> map_option (\<lambda>_. is_completed r s) (l_reqs s r))"

definition lfi_request_size :: "rid option \<Rightarrow> 'f lfi \<Rightarrow> int option" where
  "lfi_request_size req s =
     (case req of
        None \<Rightarrow> Some (- LFI_NULL_REQUEST)
      | Some r \<Rightarrow> do { q \<leftarrow> l_reqs s r;
                      Some (if rq_wait_context q = None
                            then (if rq_error q \<noteq> 0 then rq_error q else i64 (rq_size q))
                            else - LFI_NOT_COMPLETED) })"

text \<open>The two branches of the conditional have the types \<open>uint32_t\<close> and \<open>int\<close>: the common type is \<open>uint32_t\<close>.\<close>

definition lfi_request_source :: "rid option \<Rightarrow> 'f lfi \<Rightarrow> int option" where
  "lfi_request_source req s =
     (case req of
        None \<Rightarrow> Some (- LFI_NULL_REQUEST)
      | Some r \<Rightarrow> do { q \<leftarrow> l_reqs s r;
                      Some (uint (if rq_wait_context q = None then rq_source q else u32_of (- LFI_NOT_COMPLETED))) })"

definition lfi_request_error :: "rid option \<Rightarrow> 'f lfi \<Rightarrow> int option" where
  "lfi_request_error req s =
     (case req of
        None \<Rightarrow> Some (- LFI_NULL_REQUEST)
      | Some r \<Rightarrow> do { q \<leftarrow> l_reqs s r;
                      Some (if rq_wait_context q = None then rq_error q else - LFI_NOT_COMPLETED) })"

subsection \<open>Asynchronous calls\<close>

text \<open>\<open>if (req == nullptr) return -LFI_NULL_REQUEST;\<close>\<close>

definition on_request :: "rid option \<Rightarrow> (rid \<Rightarrow> 'f call) \<Rightarrow> 'f call" where
  "on_request req call s = (case req of None \<Rightarrow> Some (- LFI_NULL_REQUEST, s) | Some r \<Rightarrow> call r s)"

definition lfi_tsend_async :: "'f world \<Rightarrow> rid option \<Rightarrow> ptr \<Rightarrow> u64 \<Rightarrow> int \<Rightarrow> 'f call" where
  "lfi_tsend_async w req data n tag = on_request req (\<lambda>r. async_send_internal w data n SEND (u32_of tag) r False)"

definition lfi_send_async :: "'f world \<Rightarrow> rid option \<Rightarrow> ptr \<Rightarrow> u64 \<Rightarrow> 'f call" where
  "lfi_send_async w req data n = lfi_tsend_async w req data n 0"

definition lfi_tsendv_async :: "'f world \<Rightarrow> rid option \<Rightarrow> ptr \<Rightarrow> u64 \<Rightarrow> int \<Rightarrow> 'f call" where
  "lfi_tsendv_async w req iov count tag = on_request req (\<lambda>r. async_send_internal w iov count SENDV (u32_of tag) r False)"

definition lfi_trecv_async :: "'f world \<Rightarrow> rid option \<Rightarrow> ptr \<Rightarrow> u64 \<Rightarrow> int \<Rightarrow> 'f call" where
  "lfi_trecv_async w req data n tag = on_request req (\<lambda>r. async_recv_internal w data n RECV (u32_of tag) r False)"

definition lfi_recv_async :: "'f world \<Rightarrow> rid option \<Rightarrow> ptr \<Rightarrow> u64 \<Rightarrow> 'f call" where
  "lfi_recv_async w req data n = lfi_trecv_async w req data n 0"

definition lfi_trecvv_async :: "'f world \<Rightarrow> rid option \<Rightarrow> ptr \<Rightarrow> u64 \<Rightarrow> int \<Rightarrow> 'f call" where
  "lfi_trecvv_async w req iov count tag = on_request req (\<lambda>r. async_recv_internal w iov count RECVV (u32_of tag) r False)"

definition lfi_put_async :: "'f world \<Rightarrow> rid option \<Rightarrow> ptr \<Rightarrow> u64 \<Rightarrow> u64 \<Rightarrow> mr_key \<Rightarrow> 'f call" where
  "lfi_put_async w req data n addr key = on_request req (\<lambda>r. async_put w data n addr key r False)"

definition lfi_get_async :: "'f world \<Rightarrow> rid option \<Rightarrow> ptr \<Rightarrow> u64 \<Rightarrow> u64 \<Rightarrow> mr_key \<Rightarrow> 'f call" where
  "lfi_get_async w req data n addr key = on_request req (\<lambda>r. async_get w data n addr key r False)"

definition lfi_wait :: "nat \<Rightarrow> 'f world \<Rightarrow> rid option \<Rightarrow> 'f call" where
  "lfi_wait d w req = on_request req (\<lambda>r. wait d w r (-1))"

definition lfi_test :: "nat \<Rightarrow> 'f world \<Rightarrow> rid option \<Rightarrow> 'f call" where
  "lfi_test d w req = on_request req (test d w)"

definition lfi_cancel :: "nat \<Rightarrow> 'f world \<Rightarrow> rid option \<Rightarrow> 'f call" where
  "lfi_cancel d w req = on_request req (\<lambda>r s. map_option (\<lambda>t. (0, t)) (cancel d w r s))"

text \<open>An array of requests; dereferencing a null element is undefined.\<close>

definition lfi_wait_wrapper :: "nat \<Rightarrow> 'f world \<Rightarrow> rid option list option \<Rightarrow> int \<Rightarrow> 'f call" where
  "lfi_wait_wrapper d w reqs how_many s =
     (case reqs of
        None \<Rightarrow> Some (- LFI_NULL_REQUEST, s)
      | Some rs \<Rightarrow> do { rs' \<leftarrow> those rs; wait_num d w rs' (i32 how_many) (-1) s })"

definition lfi_wait_any :: "nat \<Rightarrow> 'f world \<Rightarrow> rid option list option \<Rightarrow> 'f call" where
  "lfi_wait_any d w reqs = lfi_wait_wrapper d w reqs 1"

definition lfi_wait_all :: "nat \<Rightarrow> 'f world \<Rightarrow> rid option list option \<Rightarrow> 'f call" where
  "lfi_wait_all d w reqs =
     lfi_wait_wrapper d w reqs (case reqs of None \<Rightarrow> 0 | Some rs \<Rightarrow> int (length rs))"

definition lfi_test_wrapper :: "nat \<Rightarrow> 'f world \<Rightarrow> rid option list option \<Rightarrow> int \<Rightarrow> 'f call" where
  "lfi_test_wrapper d w reqs how_many s =
     (case reqs of
        None \<Rightarrow> Some (- LFI_NULL_REQUEST, s)
      | Some rs \<Rightarrow> do { rs' \<leftarrow> those rs; test_num d w rs' (i32 how_many) s })"

definition lfi_test_any :: "nat \<Rightarrow> 'f world \<Rightarrow> rid option list option \<Rightarrow> 'f call" where
  "lfi_test_any d w reqs = lfi_test_wrapper d w reqs 1"

definition lfi_test_all :: "nat \<Rightarrow> 'f world \<Rightarrow> rid option list option \<Rightarrow> 'f call" where
  "lfi_test_all d w reqs =
     lfi_test_wrapper d w reqs (case reqs of None \<Rightarrow> 0 | Some rs \<Rightarrow> int (length rs))"

subsection \<open>Properties\<close>

text \<open>What an application reads from a request. While a request is in flight, its size and its error
  are reported as \<open>-LFI_NOT_COMPLETED\<close>, but its source is reported as the positive number
  \<open>2^32 - LFI_NOT_COMPLETED\<close>: the negative code is converted to \<open>uint32_t\<close>, and a caller that tests for a
  negative result takes it for a communicator. Of a completed request without an error all three are
  what the completion stored.\<close>

theorem request_queries:
  assumes "l_reqs s r = Some q"
  shows "if rq_wait_context q \<noteq> None
     then lfi_request_completed (Some r) s = Some False \<and> lfi_request_size (Some r) s = Some (- LFI_NOT_COMPLETED) \<and>
          lfi_request_error (Some r) s = Some (- LFI_NOT_COMPLETED) \<and>
          lfi_request_source (Some r) s = Some (2 ^ 32 - LFI_NOT_COMPLETED) \<and> 0 < 2 ^ 32 - LFI_NOT_COMPLETED
     else lfi_request_completed (Some r) s = Some True \<and>
          lfi_request_size (Some r) s = Some (if rq_error q = 0 then i64 (rq_size q) else rq_error q) \<and>
          lfi_request_error (Some r) s = Some (rq_error q) \<and>
          lfi_request_source (Some r) s = Some (uint (rq_source q))"
  using assms
  by (simp add: lfi_request_completed_def lfi_request_size_def lfi_request_error_def lfi_request_source_def
      is_completed_def u32_of_def lfi_errors)

theorem request_queries_witness:
  "\<exists>(s :: sample lfi) r q. l_reqs s r = Some q \<and> rq_wait_context q \<noteq> None \<and>
     lfi_request_source (Some r) s = Some (2 ^ 32 - LFI_NOT_COMPLETED)"
proof -
  obtain s r q where "sample_flying s r q" by (rule sample_flight)
  then have q: "l_reqs s r = Some q" "rq_wait_context q \<noteq> None" by (simp_all add: sample_flying_def)
  then show ?thesis using request_queries [OF q(1)] by auto
qed

end
