(* ===== verification/Connection.thy ===== *)
theory Connection
  imports Socket Api
begin

text \<open>
  \<open>src/impl/connection.cpp\<close> and the functions of \<open>src/lfi.cpp\<close> that make connections: the exchange of
  identities, ranks, addresses and heartbeat data over a socket, and the first messages over the
  fabric. An early return of the code skips the continuation \<open>k\<close>, which is the rest of the function.
\<close>

subsection \<open>Exchanging data\<close>

type_synonym 'f rest = "'f lfi \<Rightarrow> (int \<times> 'f lfi) option"

text \<open>\<open>ret = socket::send(...); if (ret != size) return -1;\<close> with \<open>ret\<close> an \<open>int\<close>.\<close>

definition ksend :: "'f os \<Rightarrow> int \<Rightarrow> u8 list \<Rightarrow> 'f rest \<Rightarrow> 'f rest" where
  "ksend os fd data k s =
     do { (ret, f) \<leftarrow> sock_send os fd data (l_fab s);
          let s1 = s\<lparr>l_fab := f\<rparr>;
          if i32 ret \<noteq> i32 (int (length data)) then Some (-1, s1) else k s1 }"

text \<open>The bytes are received into a variable of the given contents; \<open>store\<close> is what that does to the
  state, and happens also when only a part has arrived.\<close>

definition krecv ::
    "'f os \<Rightarrow> int \<Rightarrow> u8 list \<Rightarrow> (u8 list \<Rightarrow> 'f lfi \<Rightarrow> 'f lfi) \<Rightarrow> (u8 list \<Rightarrow> 'f rest) \<Rightarrow> 'f rest" where
  "krecv os fd old store k s =
     do { ((ret, data), f) \<leftarrow> sock_recv os fd old (l_fab s);
          let s1 = store data (s\<lparr>l_fab := f\<rparr>);
          if i32 ret \<noteq> i32 (int (length old)) then Some (-1, s1) else k data s1 }"

text \<open>A length and as many bytes.\<close>

definition ksend_block :: "'f os \<Rightarrow> int \<Rightarrow> u8 list \<Rightarrow> 'f rest \<Rightarrow> 'f rest" where
  "ksend_block os fd data k = ksend os fd (le_bytes 8 (word_of_nat (length data) :: u64)) (ksend os fd data k)"

definition krecv_block :: "'f os \<Rightarrow> int \<Rightarrow> (u8 list \<Rightarrow> 'f rest) \<Rightarrow> 'f rest" where
  "krecv_block os fd k =
     krecv os fd (replicate 8 0) (\<lambda>_ s. s)
       (\<lambda>sz s. let n = unat (le_word sz :: u64)
               in if max_size < n then None else krecv os fd (replicate n 0) (\<lambda>_ s. s) k s)"

definition get_host_id :: "'f os \<Rightarrow> 'f lfi \<Rightarrow> (u8 list \<times> 'f lfi) option" where
  "get_host_id os s =
     do { (ip, f) \<leftarrow> get_host_ip os '''' (l_fab s);
          Some (bytes_of_str (get_host_name os (l_fab s) @ '' '' @ ip), s\<lparr>l_fab := f\<rparr>) }"

text \<open>The steps of the protocol that both sides have, in the order of their own.\<close>

definition send_rank :: "'f os \<Rightarrow> int \<Rightarrow> cid \<Rightarrow> 'f rest \<Rightarrow> 'f rest" where
  "send_rank os fd c k s = do { m \<leftarrow> the_comm c s; ksend os fd (le_bytes 4 (cm_rank_peer m)) k s }"

definition recv_rank :: "'f os \<Rightarrow> int \<Rightarrow> cid \<Rightarrow> 'f rest \<Rightarrow> 'f rest" where
  "recv_rank os fd c k s =
     do { m \<leftarrow> the_comm c s;
          krecv os fd (le_bytes 4 (cm_rank_self_in_peer m))
            (\<lambda>data. upd_comm c (\<lambda>m. m\<lparr>cm_rank_self_in_peer := le_word data\<rparr>)) (\<lambda>_. k) s }"

definition recv_addr :: "'f os \<Rightarrow> 'f world \<Rightarrow> int \<Rightarrow> cid \<Rightarrow> 'f rest \<Rightarrow> 'f rest" where
  "recv_addr os w fd c k =
     krecv_block os fd (\<lambda>peer_addr s.
       do { (ret, s1) \<leftarrow> register_addr w c peer_addr s;
            if ret < 0 then Some (ret, s1) else k s1 })"

definition send_addr :: "'f os \<Rightarrow> 'f world \<Rightarrow> int \<Rightarrow> cid \<Rightarrow> 'f rest \<Rightarrow> 'f rest" where
  "send_addr os w fd c k s =
     do { ((ret, host_addr), s1) \<leftarrow> get_addr w c s;
          if ret < 0 then Some (ret, s1) else ksend_block os fd host_addr k s1 }"

definition key_bytes :: "mr_key \<Rightarrow> u8 list" where
  "key_bytes key = le_bytes 8 (word_of_int (shm_key key) :: u64) @ le_bytes 8 (word_of_int (peer_key key) :: u64)"

definition key_of_bytes :: "u8 list \<Rightarrow> mr_key" where
  "key_of_bytes bs = \<lparr>shm_key = sint (le_word (take 8 bs) :: u64), peer_key = sint (le_word (drop 8 bs) :: u64)\<rparr>"

definition send_heartbeat :: "'f os \<Rightarrow> int \<Rightarrow> 'f rest \<Rightarrow> 'f rest" where
  "send_heartbeat os fd k =
     ksend os fd (le_bytes 8 (os_heartbeat_addr os)) (\<lambda>s. ksend os fd (key_bytes (l_hb_key s)) k s)"

definition recv_heartbeat :: "'f os \<Rightarrow> int \<Rightarrow> cid \<Rightarrow> 'f rest \<Rightarrow> 'f rest" where
  "recv_heartbeat os fd c k s =
     do { m \<leftarrow> the_comm c s;
          krecv os fd (le_bytes 8 (cm_remote_heartbeat_addr m))
            (\<lambda>data. upd_comm c (\<lambda>m. m\<lparr>cm_remote_heartbeat_addr := le_word data\<rparr>))
            (\<lambda>_ s1. do { m1 \<leftarrow> the_comm c s1;
                        krecv os fd (key_bytes (cm_remote_heartbeat_key m1))
                          (\<lambda>data. upd_comm c (\<lambda>m. m\<lparr>cm_remote_heartbeat_key := key_of_bytes data\<rparr>)) (\<lambda>_. k) s1 }) s }"

definition set_ready :: "cid \<Rightarrow> comm_status \<Rightarrow> 'f lfi \<Rightarrow> 'f lfi" where
  "set_ready c st = upd_comm c (\<lambda>m. m\<lparr>cm_is_ready := st\<rparr>)"

text \<open>The identities, compared to choose the endpoint.\<close>

definition server_ids :: "'f os \<Rightarrow> 'f world \<Rightarrow> int \<Rightarrow> cid \<Rightarrow> (cid \<Rightarrow> 'f rest) \<Rightarrow> 'f rest" where
  "server_ids os w fd comm_id k s =
     do { (host_id, s0) \<leftarrow> get_host_id os s;
          ksend_block os fd host_id (krecv_block os fd (\<lambda>peer_id s1.
            do { (c, s2) \<leftarrow> init_comm w (host_id = peer_id) comm_id s1; k c s2 })) s0 }"

definition client_ids :: "'f os \<Rightarrow> 'f world \<Rightarrow> int \<Rightarrow> cid \<Rightarrow> (cid \<Rightarrow> 'f rest) \<Rightarrow> 'f rest" where
  "client_ids os w fd comm_id k s =
     do { (host_id, s0) \<leftarrow> get_host_id os s;
          krecv_block os fd (\<lambda>peer_id. ksend_block os fd host_id (\<lambda>s1.
            do { (c, s2) \<leftarrow> init_comm w (host_id = peer_id) comm_id s1; k c s2 })) s0 }"

text \<open>Ranks and addresses; then the communicator is ready for the connection thread itself.\<close>

definition server_link :: "'f os \<Rightarrow> 'f world \<Rightarrow> int \<Rightarrow> cid \<Rightarrow> 'f rest \<Rightarrow> 'f rest" where
  "server_link os w fd c k =
     recv_rank os fd c (send_rank os fd c (recv_addr os w fd c (send_addr os w fd c
       (\<lambda>s. k (set_ready c READY_INTERNAL s)))))"

definition client_link :: "'f os \<Rightarrow> 'f world \<Rightarrow> int \<Rightarrow> cid \<Rightarrow> 'f rest \<Rightarrow> 'f rest" where
  "client_link os w fd c k =
     send_rank os fd c (recv_rank os fd c (send_addr os w fd c (recv_addr os w fd c
       (\<lambda>s. k (set_ready c READY_INTERNAL s)))))"

text \<open>The heartbeat data. The value of \<open>ret\<close>, so far \<open>comm->rank_peer\<close>, is then the size of the last
  transfer.\<close>

definition server_beat :: "'f os \<Rightarrow> int \<Rightarrow> cid \<Rightarrow> (int \<Rightarrow> 'f rest) \<Rightarrow> 'f rest" where
  "server_beat os fd c k s =
     (if LFI_fault_tolerance (l_env s) then send_heartbeat os fd (recv_heartbeat os fd c (k 16)) s
      else do { m \<leftarrow> the_comm c s; k (i32 (uint (cm_rank_peer m))) s })"

definition client_beat :: "'f os \<Rightarrow> int \<Rightarrow> cid \<Rightarrow> (int \<Rightarrow> 'f rest) \<Rightarrow> 'f rest" where
  "client_beat os fd c k s =
     (if LFI_fault_tolerance (l_env s) then recv_heartbeat os fd c (send_heartbeat os fd (k 16)) s
      else do { m \<leftarrow> the_comm c s; k (i32 (uint (cm_rank_peer m))) s })"

definition server_exchange :: "'f os \<Rightarrow> 'f world \<Rightarrow> int \<Rightarrow> cid \<Rightarrow> (cid \<Rightarrow> int \<Rightarrow> 'f rest) \<Rightarrow> 'f rest" where
  "server_exchange os w fd comm_id k =
     server_ids os w fd comm_id (\<lambda>c. server_link os w fd c (server_beat os fd c (k c)))"

definition client_exchange :: "'f os \<Rightarrow> 'f world \<Rightarrow> int \<Rightarrow> cid \<Rightarrow> (cid \<Rightarrow> int \<Rightarrow> 'f rest) \<Rightarrow> 'f rest" where
  "client_exchange os w fd comm_id k =
     client_ids os w fd comm_id (\<lambda>c. client_link os w fd c (client_beat os fd c (k c)))"

subsection \<open>Connections\<close>

text \<open>\<open>if (msg_ret < 0) return msg_ret;\<close> after a message over the fabric.\<close>

definition kmsg :: "('f lfi \<Rightarrow> (int \<times> 'f lfi) option) \<Rightarrow> 'f rest \<Rightarrow> 'f rest" where
  "kmsg msg k s = do { (msg_ret, s1) \<leftarrow> msg s; if msg_ret < 0 then Some (i32 msg_ret, s1) else k s1 }"

text \<open>\<open>c\<close> is the communicator, and its \<open>rank_peer\<close> the number the messages go to.\<close>

definition init_server :: "nat \<Rightarrow> 'f os \<Rightarrow> 'f world \<Rightarrow> int \<Rightarrow> cid \<Rightarrow> 'f rest" where
  "init_server d os w fd comm_id =
     server_exchange os w fd comm_id (\<lambda>c ret s.
       do { m \<leftarrow> the_comm c s;
            kmsg (send_internal d w (cm_rank_peer m) (Mem (os_buf_addr os)) 4 SEND LFI_TAG_INITIAL_SEND_SRV)
              (kmsg (recv_internal d w (cm_rank_peer m) (Mem (os_buf_addr os)) 4 RECV LFI_TAG_INITIAL_SEND_CLI)
                (\<lambda>s. Some (ret, set_ready c READY s))) s })"

definition init_client :: "nat \<Rightarrow> 'f os \<Rightarrow> 'f world \<Rightarrow> int \<Rightarrow> cid \<Rightarrow> 'f rest" where
  "init_client d os w fd comm_id =
     client_exchange os w fd comm_id (\<lambda>c ret s.
       do { m \<leftarrow> the_comm c s;
            kmsg (recv_internal d w (cm_rank_peer m) (Mem (os_buf_addr os)) 4 RECV LFI_TAG_INITIAL_SEND_SRV)
              (kmsg (send_internal d w (cm_rank_peer m) (Mem (os_buf_addr os)) 4 SEND LFI_TAG_INITIAL_SEND_CLI)
                (\<lambda>s. Some (ret, set_ready c READY s))) s })"

text \<open>The function that runs in the connection thread, or at once: the result is ignored.\<close>

definition conn_thread :: "'f os \<Rightarrow> int \<Rightarrow> 'f rest \<Rightarrow> 'f lfi \<Rightarrow> 'f lfi option" where
  "conn_thread os fd conn s =
     do { (_, s1) \<leftarrow> conn s; Some (s1\<lparr>l_fab := snd (sock_close os fd (l_fab s1))\<rparr>) }"

text \<open>The end of \<open>lfi_client_create_t\<close> and \<open>lfi_server_accept_t\<close>, for a socket that is connected. The
  identifier is returned as an \<open>int\<close>.\<close>

definition start_connection :: "'f os \<Rightarrow> int \<Rightarrow> (cid \<Rightarrow> 'f rest) \<Rightarrow> 'f call" where
  "start_connection os fd conn s =
     (let (out, s1) = reserve_comm s
      in if LFI_async_connection (l_env s1) then Some (i32 (uint out), s1\<lparr>l_futs := l_futs s1 @ [out]\<rparr>)
         else do { s2 \<leftarrow> conn_thread os fd (conn out) s1; Some (i32 (uint out), s2) })"

definition lfi_server_create :: "'f os \<Rightarrow> string option \<Rightarrow> int \<Rightarrow> 'f lfi \<Rightarrow> (int \<times> int) \<times> 'f lfi" where
  "lfi_server_create os serv_addr port s =
     (let (res, f) = server_init os (case serv_addr of None \<Rightarrow> '''' | Some a \<Rightarrow> a) port (l_fab s)
      in (res, s\<lparr>l_fab := f\<rparr>))"

definition lfi_client_create_t :: "nat \<Rightarrow> 'f os \<Rightarrow> 'f world \<Rightarrow> string \<Rightarrow> int \<Rightarrow> int \<Rightarrow> 'f call" where
  "lfi_client_create_t d os w serv_addr port timeout_ms s =
     do { (client_socket, f) \<leftarrow> client_init os serv_addr port timeout_ms False (l_fab s);
          let s1 = s\<lparr>l_fab := f\<rparr>;
          if client_socket < 0 then Some (client_socket, s1)
          else start_connection os client_socket (init_client d os w client_socket) s1 }"

definition lfi_client_create :: "nat \<Rightarrow> 'f os \<Rightarrow> 'f world \<Rightarrow> string \<Rightarrow> int \<Rightarrow> 'f call" where
  "lfi_client_create d os w serv_addr port = lfi_client_create_t d os w serv_addr port 0"

definition lfi_server_accept_t :: "nat \<Rightarrow> 'f os \<Rightarrow> 'f world \<Rightarrow> int \<Rightarrow> int \<Rightarrow> 'f call" where
  "lfi_server_accept_t d os w fd timeout_ms s =
     do { (client_socket, f) \<leftarrow> sock_accept os fd timeout_ms (l_fab s);
          let s1 = s\<lparr>l_fab := f\<rparr>;
          if client_socket < 0 then Some (client_socket, s1)
          else start_connection os client_socket (init_server d os w client_socket) s1 }"

definition lfi_server_accept :: "nat \<Rightarrow> 'f os \<Rightarrow> 'f world \<Rightarrow> int \<Rightarrow> 'f call" where
  "lfi_server_accept d os w fd = lfi_server_accept_t d os w fd 0"

definition lfi_server_close :: "'f os \<Rightarrow> int \<Rightarrow> 'f lfi \<Rightarrow> int \<times> 'f lfi" where
  "lfi_server_close os fd s = fab (sock_close os fd) s"

subsection \<open>The steps over a working connection\<close>

definition block :: "u8 list \<Rightarrow> u8 list" where
  "block data = le_bytes 8 (word_of_nat (length data) :: u64) @ data"

text \<open>A step that moves data leaves everything but one communicator alone.\<close>

definition kept :: "cid \<Rightarrow> 'f lfi \<Rightarrow> 'f lfi \<Rightarrow> bool" where
  "kept c s t \<longleftrightarrow> l_env t = l_env s \<and> l_hb_key t = l_hb_key s \<and> (\<forall>e. ep_of e t = ep_of e s) \<and>
     (\<forall>c'. c' \<noteq> c \<longrightarrow> the_comm c' t = the_comm c' s)"

lemma kept_refl [simp]: "kept c s s"
  by (simp add: kept_def)

lemma kept_fab [simp]: "kept c s (s\<lparr>l_fab := f\<rparr>)"
  by (simp add: kept_def)

lemma kept_upd_comm [simp]: "kept c s (upd_comm c g s)"
  by (simp add: kept_def) (simp add: upd_comm_def set_comm_def split: option.splits)

lemma kept_set_comm [simp]: "kept c s (set_comm c m s)"
  by (simp add: kept_def) (simp add: set_comm_def)

lemma kept_trans: "kept c s t \<Longrightarrow> kept c t u \<Longrightarrow> kept c s u"
  by (simp add: kept_def)

text \<open>Where a run stands: the communicator, what is still to be read and what has been written.\<close>

definition run_at ::
    "('f \<Rightarrow> u8 list) \<Rightarrow> ('f \<Rightarrow> u8 list) \<Rightarrow> cid \<Rightarrow> comm option \<Rightarrow> u8 list \<Rightarrow> u8 list \<Rightarrow> 'f lfi \<Rightarrow> bool" where
  "run_at inp out c m i ob s \<longleftrightarrow> the_comm c s = m \<and> inp (l_fab s) = i \<and> out (l_fab s) = ob"

lemma ksend_ok:
  assumes "stream os fd inp out" and "length data < 2 ^ 31" and "run_at inp out c m i ob s"
  obtains t where "\<And>k. ksend os fd data k s = k t" "run_at inp out c m i (ob @ data) t" "kept c s t"
    "l_comms t = l_comms s"
proof -
  obtain f where "sock_send os fd data (l_fab s) = Some (int (length data), f)" "out f = out (l_fab s) @ data"
    "inp f = inp (l_fab s)" by (rule sock_send_all [OF assms(1,2)])
  then show ?thesis using that [of "s\<lparr>l_fab := f\<rparr>"] assms(3) by (simp add: ksend_def run_at_def)
qed

lemma krecv_ok:
  assumes "stream os fd inp out" and "run_at inp out c m (bs @ i) ob s" and "length old = length bs" and "length bs < 2 ^ 31"
  obtains f where "\<And>store k. krecv os fd old store k s = k bs (store bs (s\<lparr>l_fab := f\<rparr>))"
    "run_at inp out c m i ob (s\<lparr>l_fab := f\<rparr>)"
proof -
  have "inp (l_fab s) = bs @ i" using assms(2) by (simp add: run_at_def)
  then obtain f where "sock_recv os fd old (l_fab s) = Some ((int (length bs), bs), f)" "inp f = i" "out f = out (l_fab s)"
    using sock_recv_all [OF assms(1) _ assms(3,4)] by metis
  then show ?thesis using that [of f] assms(2,3) by (simp add: krecv_def run_at_def)
qed

lemma ksend_block_ok:
  assumes "stream os fd inp out" and "length data < 2 ^ 31" and "run_at inp out c m i ob s"
  obtains t where "\<And>k. ksend_block os fd data k s = k t" "run_at inp out c m i (ob @ block data) t" "kept c s t"
    "l_comms t = l_comms s"
proof -
  let ?size = "le_bytes 8 (word_of_nat (length data) :: u64)"
  have "length ?size < 2 ^ 31" by simp
  from ksend_ok [OF assms(1) this assms(3)] obtain t1 where t1: "\<And>k. ksend os fd ?size k s = k t1"
    "run_at inp out c m i (ob @ ?size) t1" "kept c s t1" "l_comms t1 = l_comms s" by blast
  from ksend_ok [OF assms(1,2) t1(2)] obtain t where "\<And>k. ksend os fd data k t1 = k t"
    "run_at inp out c m i ((ob @ ?size) @ data) t" "kept c t1 t" "l_comms t = l_comms t1" by blast
  then show ?thesis using that [of t] t1 kept_trans [OF t1(3), of t] by (simp add: ksend_block_def block_def)
qed

lemma krecv_block_ok:
  assumes "stream os fd inp out" and "run_at inp out c m (block data @ i) ob s" and "length data < 2 ^ 31"
  obtains t where "\<And>k. krecv_block os fd k s = k data t" "run_at inp out c m i ob t" "kept c s t" "l_comms t = l_comms s"
proof -
  let ?size = "le_bytes 8 (word_of_nat (length data) :: u64)"
  have n: "unat (word_of_nat (length data) :: u64) = length data"
    using assms(3) by (simp add: unat_of_nat take_bit_nat_eq_self)
  have first: "run_at inp out c m (?size @ data @ i) ob s" using assms(2) by (simp add: block_def)
  have eight: "length (replicate 8 (0 :: u8)) = length ?size" "length ?size < 2 ^ 31"
    by (simp_all only: length_replicate length_le_bytes) simp
  obtain f where f: "\<And>store k. krecv os fd (replicate 8 0) store k s = k ?size (store ?size (s\<lparr>l_fab := f\<rparr>))"
    "run_at inp out c m (data @ i) ob (s\<lparr>l_fab := f\<rparr>)" using krecv_ok [OF assms(1) first eight] by blast
  have room: "length (replicate (length data) (0 :: u8)) = length data" by simp
  obtain f' where f': "\<And>store k. krecv os fd (replicate (length data) 0) store k (s\<lparr>l_fab := f\<rparr>) =
      k data (store data (s\<lparr>l_fab := f, l_fab := f'\<rparr>))" "run_at inp out c m i ob (s\<lparr>l_fab := f, l_fab := f'\<rparr>)"
    using krecv_ok [OF assms(1) f(2) room assms(3)] by blast
  have "\<not> max_size < length data" using assms(3) by (simp add: max_size_def)
  then show ?thesis using that [of "s\<lparr>l_fab := f'\<rparr>"] f f' n by (simp add: krecv_block_def)
qed

lemma send_rank_ok:
  assumes "stream os fd inp out" and "run_at inp out c (Some m) i ob s"
  obtains t where "\<And>k. send_rank os fd c k s = k t" "run_at inp out c (Some m) i (ob @ le_bytes 4 (cm_rank_peer m)) t" "kept c s t"
proof -
  have "length (le_bytes 4 (cm_rank_peer m)) < 2 ^ 31" by simp
  from ksend_ok [OF assms(1) this assms(2)] show ?thesis
    using that assms(2) by (auto simp: send_rank_def run_at_def)
qed

lemma recv_rank_ok:
  assumes "stream os fd inp out" and "run_at inp out c (Some m) (le_bytes 4 r @ i) ob s"
  obtains t where "\<And>k. recv_rank os fd c k s = k t" "run_at inp out c (Some (m\<lparr>cm_rank_self_in_peer := r\<rparr>)) i ob t" "kept c s t"
proof -
  have len: "length (le_bytes 4 (cm_rank_self_in_peer m)) = length (le_bytes 4 r)" "length (le_bytes 4 r) < 2 ^ 31" by simp_all
  obtain f where f: "\<And>store k. krecv os fd (le_bytes 4 (cm_rank_self_in_peer m)) store k s =
      k (le_bytes 4 r) (store (le_bytes 4 r) (s\<lparr>l_fab := f\<rparr>))" "run_at inp out c (Some m) i ob (s\<lparr>l_fab := f\<rparr>)"
    using krecv_ok [OF assms(1,2) len] by blast
  let ?t = "upd_comm c (\<lambda>m. m\<lparr>cm_rank_self_in_peer := r\<rparr>) (s\<lparr>l_fab := f\<rparr>)"
  have "kept c s ?t" using kept_trans [OF kept_fab kept_upd_comm] .
  then show ?thesis using that [of ?t] f assms(2) by (simp add: recv_rank_def run_at_def)
qed

text \<open>Keys are \<open>int64_t\<close>.\<close>

definition key_ok :: "mr_key \<Rightarrow> bool" where
  "key_ok key \<longleftrightarrow> - (2 ^ 63) \<le> shm_key key \<and> shm_key key < 2 ^ 63 \<and> - (2 ^ 63) \<le> peer_key key \<and> peer_key key < 2 ^ 63"

lemma length_key_bytes [simp]: "length (key_bytes key) = 16"
  by (simp add: key_bytes_def)

lemma key_of_key_bytes: "key_ok key \<Longrightarrow> key_of_bytes (key_bytes key) = key"
  by (simp add: key_ok_def key_bytes_def key_of_bytes_def signed_of_int signed_take_bit_int_eq_self)

lemma send_heartbeat_ok:
  assumes "stream os fd inp out" and "run_at inp out c m i ob s"
  obtains t where "\<And>k. send_heartbeat os fd k s = k t"
    "run_at inp out c m i (ob @ le_bytes 8 (os_heartbeat_addr os) @ key_bytes (l_hb_key s)) t" "kept c s t"
proof -
  have len: "length (le_bytes 8 (os_heartbeat_addr os)) < 2 ^ 31" "length (key_bytes (l_hb_key s)) < 2 ^ 31" by simp_all
  obtain t1 where t1: "\<And>k. ksend os fd (le_bytes 8 (os_heartbeat_addr os)) k s = k t1"
    "run_at inp out c m i (ob @ le_bytes 8 (os_heartbeat_addr os)) t1" "kept c s t1"
    using ksend_ok [OF assms(1) len(1) assms(2)] by blast
  obtain t where t: "\<And>k. ksend os fd (key_bytes (l_hb_key s)) k t1 = k t"
    "run_at inp out c m i ((ob @ le_bytes 8 (os_heartbeat_addr os)) @ key_bytes (l_hb_key s)) t" "kept c t1 t"
    using ksend_ok [OF assms(1) len(2) t1(2)] by blast
  have "l_hb_key t1 = l_hb_key s" using t1(3) by (simp add: kept_def)
  then show ?thesis using that [of t] t1(1) t kept_trans [OF t1(3) t(3)] by (simp add: send_heartbeat_def)
qed

lemma recv_heartbeat_ok:
  assumes "stream os fd inp out" and "run_at inp out c (Some m) (le_bytes 8 hb @ key_bytes key @ i) ob s" and "key_ok key"
  obtains t where "\<And>k. recv_heartbeat os fd c k s = k t"
    "run_at inp out c (Some (m\<lparr>cm_remote_heartbeat_addr := hb, cm_remote_heartbeat_key := key\<rparr>)) i ob t" "kept c s t"
proof -
  let ?m1 = "m\<lparr>cm_remote_heartbeat_addr := hb\<rparr>"
  have len: "length (le_bytes 8 (cm_remote_heartbeat_addr m)) = length (le_bytes 8 hb)" "length (le_bytes 8 hb) < 2 ^ 31"
    "length (key_bytes (cm_remote_heartbeat_key m)) = length (key_bytes key)" "length (key_bytes key) < 2 ^ 31" by simp_all
  obtain f where f: "\<And>store k. krecv os fd (le_bytes 8 (cm_remote_heartbeat_addr m)) store k s =
      k (le_bytes 8 hb) (store (le_bytes 8 hb) (s\<lparr>l_fab := f\<rparr>))" "run_at inp out c (Some m) (key_bytes key @ i) ob (s\<lparr>l_fab := f\<rparr>)"
    using krecv_ok [OF assms(1,2) len(1,2)] by blast
  let ?s1 = "upd_comm c (\<lambda>m. m\<lparr>cm_remote_heartbeat_addr := hb\<rparr>) (s\<lparr>l_fab := f\<rparr>)"
  have s1: "run_at inp out c (Some ?m1) (key_bytes key @ i) ob ?s1" using f(2) by (simp add: run_at_def)
  obtain f' where f': "\<And>store k. krecv os fd (key_bytes (cm_remote_heartbeat_key m)) store k ?s1 =
      k (key_bytes key) (store (key_bytes key) (?s1\<lparr>l_fab := f'\<rparr>))" "run_at inp out c (Some ?m1) i ob (?s1\<lparr>l_fab := f'\<rparr>)"
    using krecv_ok [OF assms(1) s1 len(3,4)] by blast
  let ?t = "upd_comm c (\<lambda>m. m\<lparr>cm_remote_heartbeat_key := key\<rparr>) (?s1\<lparr>l_fab := f'\<rparr>)"
  have "kept c s ?t"
    by (rule kept_trans [OF kept_trans [OF kept_trans [OF kept_fab kept_upd_comm] kept_fab] kept_upd_comm])
  moreover have "run_at inp out c (Some (?m1\<lparr>cm_remote_heartbeat_key := key\<rparr>)) i ob ?t" using f'(2) f(2) by (simp add: run_at_def)
  moreover have "recv_heartbeat os fd c k s = k ?t" for k
    using f(1,2) f' assms(3) by (simp add: recv_heartbeat_def run_at_def key_of_key_bytes)
  ultimately show ?thesis using that [of ?t] by simp
qed

text \<open>The calls of libfabric and of the clock during the exchange do not touch the socket.\<close>

definition off_socket :: "'f world \<Rightarrow> ('f \<Rightarrow> u8 list) \<Rightarrow> ('f \<Rightarrow> u8 list) \<Rightarrow> bool" where
  "off_socket w inp out \<longleftrightarrow>
     (\<forall>f. inp (snd (w_now w f)) = inp f \<and> out (snd (w_now w f)) = out f) \<and>
     (\<forall>av a f. inp (snd (w_av_insert w av a f)) = inp f \<and> out (snd (w_av_insert w av a f)) = out f) \<and>
     (\<forall>p n f. inp (snd (w_getname w p n f)) = inp f \<and> out (snd (w_getname w p n f)) = out f)"

lemma recv_addr_ok:
  assumes "stream os fd inp out" and "off_socket w inp out" and "run_at inp out c (Some m) (block paddr @ i) ob s"
    and "length paddr < 2 ^ 31" and "\<And>av f. fst (w_av_insert w av paddr f) = (r, a)" and "0 \<le> r"
  obtains t where "\<And>k. recv_addr os w fd c k s = k t"
    "run_at inp out c (Some (if r = 1 then m\<lparr>cm_fi_addr := a\<rparr> else m)) i ob t" "kept c s t"
proof -
  obtain t1 where t1: "\<And>k. krecv_block os fd k s = k paddr t1" "run_at inp out c (Some m) i ob t1" "kept c s t1"
    using krecv_block_ok [OF assms(1,3,4)] by blast
  obtain f where f: "w_av_insert w (ep_av (ep_of (cm_endpoint m) t1)) paddr (l_fab t1) = ((r, a), f)"
    using assms(5) by (metis prod.collapse)
  have io: "inp f = inp (l_fab t1)" "out f = out (l_fab t1)" using assms(2) f unfolding off_socket_def by (metis snd_conv)+
  let ?t = "if r \<noteq> 1 then t1\<lparr>l_fab := f\<rparr> else upd_comm c (\<lambda>m. m\<lparr>cm_fi_addr := a\<rparr>) (t1\<lparr>l_fab := f\<rparr>)"
  have "kept c t1 ?t" using kept_fab [of c t1 f] kept_trans [OF kept_fab [of c t1 f] kept_upd_comm] by auto
  with kept_trans [OF t1(3)] have "kept c s ?t" by blast
  moreover have "recv_addr os w fd c k s = k ?t" for k
    using t1(1,2) f assms(6) by (simp add: recv_addr_def register_addr_def fab_def run_at_def Let_def)
  moreover have "run_at inp out c (Some (if r = 1 then m\<lparr>cm_fi_addr := a\<rparr> else m)) i ob ?t"
    using t1(2) io by (simp add: run_at_def)
  ultimately show ?thesis using that [of ?t] by blast
qed

text \<open>The endpoint's own address is known or libfabric gives it.\<close>

definition named :: "'f world \<Rightarrow> endpoint \<Rightarrow> u8 list \<Rightarrow> bool" where
  "named w x haddr \<longleftrightarrow> haddr \<noteq> [] \<and>
     (ep_addr x = haddr \<or>
      ep_addr x = [] \<and> ep_ep x \<noteq> 0 \<and>
      (\<exists>n. length haddr = unat n \<and> (\<forall>f. \<exists>y f'. w_getname w (ep_ep x) 0 f = ((- FI_ETOOSMALL, n, y), f')) \<and>
        (\<forall>f. \<exists>y f'. w_getname w (ep_ep x) n f = ((0, y, haddr), f'))))"

lemma get_addr_named:
  assumes "off_socket w inp out" and "run_at inp out c (Some m) i ob s" and "named w (ep_of (cm_endpoint m) s) haddr"
  obtains t where "get_addr w c s = Some ((0, haddr), t)" "run_at inp out c (Some m) i ob t"
    "l_env t = l_env s" "l_hb_key t = l_hb_key s" "\<And>c'. the_comm c' t = the_comm c' s"
proof (cases "ep_addr (ep_of (cm_endpoint m) s) = haddr")
  case True
  then show ?thesis using that [of s] get_addr_cached [of c s m haddr w] assms(2,3) by (simp add: run_at_def named_def)
next
  case False
  let ?p = "ep_ep (ep_of (cm_endpoint m) s)"
  obtain n y f1 y' f2 where n: "length haddr = unat n" and f1: "w_getname w ?p 0 (l_fab s) = ((- FI_ETOOSMALL, n, y), f1)"
    and f2: "w_getname w ?p n f1 = ((0, y', haddr), f2)"
    using assms(3) False unfolding named_def by metis
  have p: "ep_addr (ep_of (cm_endpoint m) s) = []" "?p \<noteq> 0" using assms(3) False by (simp_all add: named_def)
  have io: "inp f2 = inp (l_fab s)" "out f2 = out (l_fab s)"
    using assms(1) f1 f2 unfolding off_socket_def by (metis snd_conv)+
  have full: "overlay (unat n) haddr = haddr" using n by (simp add: overlay_def)
  have c: "the_comm c s = Some m" using assms(2) by (simp add: run_at_def)
  let ?t = "upd_ep (cm_endpoint m) (\<lambda>x. x\<lparr>ep_addr := haddr\<rparr>) (s\<lparr>l_fab := f2\<rparr>)"
  have "get_addr w c s = Some ((0, haddr), ?t)" using get_addr_fresh [OF c p(1) refl p(2) f1 f2] full by simp
  moreover have "run_at inp out c (Some m) i ob ?t" using assms(2) io by (simp add: run_at_def)
  moreover have "l_hb_key ?t = l_hb_key s" by (simp add: upd_ep_def split: ep_id.splits)
  ultimately show ?thesis using that [of ?t] by simp
qed

lemma send_addr_ok:
  assumes "stream os fd inp out" and "off_socket w inp out" and "run_at inp out c (Some m) i ob s"
    and "named w (ep_of (cm_endpoint m) s) haddr" and "length haddr < 2 ^ 31"
  obtains t where "\<And>k. send_addr os w fd c k s = k t" "run_at inp out c (Some m) i (ob @ block haddr) t"
    "l_env t = l_env s" "l_hb_key t = l_hb_key s" "\<And>c'. c' \<noteq> c \<Longrightarrow> the_comm c' t = the_comm c' s"
proof -
  obtain t1 where t1: "get_addr w c s = Some ((0, haddr), t1)" "run_at inp out c (Some m) i ob t1"
    "l_env t1 = l_env s" "l_hb_key t1 = l_hb_key s" "\<And>c'. the_comm c' t1 = the_comm c' s"
    by (rule get_addr_named [OF assms(2-4)]) blast
  obtain t where "\<And>k. ksend_block os fd haddr k t1 = k t" "run_at inp out c (Some m) i (ob @ block haddr) t" "kept c t1 t"
    using ksend_block_ok [OF assms(1,5) t1(2)] by blast
  then show ?thesis using that [of t] t1 by (simp add: send_addr_def kept_def)
qed

definition exchange_ep :: "u8 list \<Rightarrow> u8 list \<Rightarrow> 'f lfi \<Rightarrow> ep_id" where
  "exchange_ep hid pid s = (if hid = pid \<and> LFI_use_shm (l_env s) then Shm else Peer)"

lemma init_comm_ok:
  assumes "off_socket w inp out" and "map_of (l_comms s) c = Some None" and "run_at inp out c m i ob s"
  obtains t now where "init_comm w (hid = pid) c s = Some (c, t)"
    "run_at inp out c (Some (comm_new (exchange_ep hid pid s) c now)) i ob t" "kept c s t"
proof -
  obtain now f where f: "w_now w (l_fab s) = (now, f)" by fastforce
  have io: "inp f = inp (l_fab s)" "out f = out (l_fab s)" using assms(1) f unfolding off_socket_def by (metis snd_conv)+
  let ?t = "set_comm c (comm_new (exchange_ep hid pid s) c now) (s\<lparr>l_fab := f\<rparr>)"
  have "init_comm w (hid = pid) c s = Some (c, ?t)"
    using assms(2) f by (simp add: init_comm_def init_comm_ep_def clock_now_def fab_def exchange_ep_def)
  moreover have "kept c s ?t" using kept_trans [OF kept_fab kept_set_comm] .
  ultimately show ?thesis using that [of ?t now] assms(3) io by (simp add: run_at_def)
qed

text \<open>What one side tells the other, and what it knows at the end.\<close>

definition hello :: "u8 list \<Rightarrow> u32 \<Rightarrow> u8 list \<Rightarrow> u8 list \<Rightarrow> u8 list" where
  "hello hid rank addr beat = block hid @ le_bytes 4 rank @ block addr @ beat"

definition beat :: "bool \<Rightarrow> u64 \<Rightarrow> mr_key \<Rightarrow> u8 list" where
  "beat ft hb key = (if ft then le_bytes 8 hb @ key_bytes key else [])"

definition linked :: "cid \<Rightarrow> ep_id \<Rightarrow> u32 \<Rightarrow> u64 \<Rightarrow> bool \<Rightarrow> u64 \<Rightarrow> mr_key \<Rightarrow> comm \<Rightarrow> bool" where
  "linked c e rank fi_addr ft hb key m \<longleftrightarrow>
     cm_rank_peer m = c \<and> cm_endpoint m = e \<and> cm_rank_self_in_peer m = rank \<and> cm_fi_addr m = fi_addr \<and>
     cm_is_ready m = READY_INTERNAL \<and> (ft \<longrightarrow> cm_remote_heartbeat_addr m = hb \<and> cm_remote_heartbeat_key m = key)"

text \<open>One side of a connection: its socket works, its identifier is reserved, its name is known.\<close>

definition side ::
    "'f os \<Rightarrow> 'f world \<Rightarrow> int \<Rightarrow> ('f \<Rightarrow> u8 list) \<Rightarrow> ('f \<Rightarrow> u8 list) \<Rightarrow> cid \<Rightarrow> u8 list \<Rightarrow> ep_id \<Rightarrow> u8 list \<Rightarrow> 'f lfi \<Rightarrow> bool" where
  "side os w fd inp out c hid e haddr s \<longleftrightarrow>
     stream os fd inp out \<and> off_socket w inp out \<and> map_of (l_comms s) c = Some None \<and>
     (\<exists>f. get_host_id os s = Some (hid, s\<lparr>l_fab := f\<rparr>) \<and> inp f = inp (l_fab s) \<and> out f = out (l_fab s)) \<and>
     named w (ep_of e s) haddr \<and> length hid < 2 ^ 31 \<and> length haddr < 2 ^ 31 \<and> key_ok (l_hb_key s)"

text \<open>The other side's data, as far as this side depends on it.\<close>

definition peer_data :: "'f world \<Rightarrow> u8 list \<Rightarrow> u8 list \<Rightarrow> mr_key \<Rightarrow> int \<Rightarrow> u64 \<Rightarrow> bool" where
  "peer_data w pid paddr pkey r a \<longleftrightarrow>
     length pid < 2 ^ 31 \<and> length paddr < 2 ^ 31 \<and> key_ok pkey \<and> 0 \<le> r \<and>
     (\<forall>av f. fst (w_av_insert w av paddr f) = (r, a))"

definition exchanged ::
    "cid \<Rightarrow> ep_id \<Rightarrow> u32 \<Rightarrow> int \<Rightarrow> u64 \<Rightarrow> u64 \<Rightarrow> mr_key \<Rightarrow> 'f lfi \<Rightarrow> 'f lfi \<Rightarrow> bool" where
  "exchanged c e prank r a hb key s t \<longleftrightarrow>
     (\<exists>m. the_comm c t = Some m \<and>
        linked c e prank (if r = 1 then a else FI_ADDR_UNSPEC) (LFI_fault_tolerance (l_env s)) hb key m) \<and>
     l_env t = l_env s \<and> l_hb_key t = l_hb_key s \<and> (\<forall>c'. c' \<noteq> c \<longrightarrow> the_comm c' t = the_comm c' s)"

lemma set_ready_ok:
  assumes "run_at inp out c (Some m) i ob s"
  shows "run_at inp out c (Some (m\<lparr>cm_is_ready := st\<rparr>)) i ob (set_ready c st s)" and "kept c s (set_ready c st s)"
  using assms by (simp_all add: set_ready_def run_at_def)

text \<open>The three stages, for each side.\<close>

lemma server_ids_ok:
  assumes "side os w fd inp out c hid e haddr s" and "length pid < 2 ^ 31" and "e = exchange_ep hid pid s"
    and "inp (l_fab s) = block pid @ i"
  obtains t now where "\<And>k. server_ids os w fd c k s = k c t"
    "run_at inp out c (Some (comm_new e c now)) i (out (l_fab s) @ block hid) t" "kept c s t"
proof -
  have st: "stream os fd inp out" and off: "off_socket w inp out" and len: "length hid < 2 ^ 31"
    and res: "map_of (l_comms s) c = Some None" using assms(1) by (simp_all add: side_def)
  obtain f0 where f0: "get_host_id os s = Some (hid, s\<lparr>l_fab := f0\<rparr>)" "inp f0 = inp (l_fab s)" "out f0 = out (l_fab s)"
    using assms(1) unfolding side_def by blast
  let ?s0 = "s\<lparr>l_fab := f0\<rparr>" and ?ob = "out (l_fab s)"
  have at0: "run_at inp out c (the_comm c s) (block pid @ i) ?ob ?s0" using f0 assms(4) by (simp add: run_at_def)
  obtain s1 where s1: "\<And>k. ksend_block os fd hid k ?s0 = k s1" "run_at inp out c (the_comm c s) (block pid @ i) (?ob @ block hid) s1"
    "kept c ?s0 s1" "l_comms s1 = l_comms s" using ksend_block_ok [OF st len at0] by auto
  obtain s2 where s2: "\<And>k. krecv_block os fd k s1 = k pid s2" "run_at inp out c (the_comm c s) i (?ob @ block hid) s2"
    "kept c s1 s2" "l_comms s2 = l_comms s" using krecv_block_ok [OF st s1(2) assms(2)] s1(4) by auto
  have e2: "exchange_ep hid pid s2 = e" using assms(3) s1(3) s2(3) by (simp add: exchange_ep_def kept_def)
  obtain t now where t: "init_comm w (hid = pid) c s2 = Some (c, t)"
    "run_at inp out c (Some (comm_new e c now)) i (?ob @ block hid) t" "kept c s2 t"
    using init_comm_ok [OF off _ s2(2), of hid pid] s2(4) res e2 by auto
  have "kept c s t" by (rule kept_trans [OF kept_trans [OF kept_trans [OF kept_fab s1(3)] s2(3)] t(3)])
  then show ?thesis using that [of t now] t(1,2) f0(1) s1(1) s2(1) by (simp add: server_ids_def)
qed

lemma client_ids_ok:
  assumes "side os w fd inp out c hid e haddr s" and "length pid < 2 ^ 31" and "e = exchange_ep hid pid s"
    and "inp (l_fab s) = block pid @ i"
  obtains t now where "\<And>k. client_ids os w fd c k s = k c t"
    "run_at inp out c (Some (comm_new e c now)) i (out (l_fab s) @ block hid) t" "kept c s t"
proof -
  have st: "stream os fd inp out" and off: "off_socket w inp out" and len: "length hid < 2 ^ 31"
    and res: "map_of (l_comms s) c = Some None" using assms(1) by (simp_all add: side_def)
  obtain f0 where f0: "get_host_id os s = Some (hid, s\<lparr>l_fab := f0\<rparr>)" "inp f0 = inp (l_fab s)" "out f0 = out (l_fab s)"
    using assms(1) unfolding side_def by blast
  let ?s0 = "s\<lparr>l_fab := f0\<rparr>" and ?ob = "out (l_fab s)"
  have at0: "run_at inp out c (the_comm c s) (block pid @ i) ?ob ?s0" using f0 assms(4) by (simp add: run_at_def)
  obtain s1 where s1: "\<And>k. krecv_block os fd k ?s0 = k pid s1" "run_at inp out c (the_comm c s) i ?ob s1"
    "kept c ?s0 s1" "l_comms s1 = l_comms s" using krecv_block_ok [OF st at0 assms(2)] by auto
  obtain s2 where s2: "\<And>k. ksend_block os fd hid k s1 = k s2" "run_at inp out c (the_comm c s) i (?ob @ block hid) s2"
    "kept c s1 s2" "l_comms s2 = l_comms s" using ksend_block_ok [OF st len s1(2)] s1(4) by auto
  have e2: "exchange_ep hid pid s2 = e" using assms(3) s1(3) s2(3) by (simp add: exchange_ep_def kept_def)
  obtain t now where t: "init_comm w (hid = pid) c s2 = Some (c, t)"
    "run_at inp out c (Some (comm_new e c now)) i (?ob @ block hid) t" "kept c s2 t"
    using init_comm_ok [OF off _ s2(2), of hid pid] s2(4) res e2 by auto
  have "kept c s t" by (rule kept_trans [OF kept_trans [OF kept_trans [OF kept_fab s1(3)] s2(3)] t(3)])
  then show ?thesis using that [of t now] t(1,2) f0(1) s1(1) s2(1) by (simp add: client_ids_def)
qed

text \<open>What is known of a communicator after the ranks and the addresses.\<close>

definition link_comm :: "ep_id \<Rightarrow> cid \<Rightarrow> int \<Rightarrow> u32 \<Rightarrow> int \<Rightarrow> u64 \<Rightarrow> comm" where
  "link_comm e c now prank r a =
     (comm_new e c now)\<lparr>cm_rank_self_in_peer := prank, cm_fi_addr := (if r = 1 then a else FI_ADDR_UNSPEC), cm_is_ready := READY_INTERNAL\<rparr>"

definition settled :: "cid \<Rightarrow> 'f lfi \<Rightarrow> 'f lfi \<Rightarrow> bool" where
  "settled c s t \<longleftrightarrow> l_env t = l_env s \<and> l_hb_key t = l_hb_key s \<and> (\<forall>c'. c' \<noteq> c \<longrightarrow> the_comm c' t = the_comm c' s)"

lemma kept_settled: "kept c s t \<Longrightarrow> settled c s t"
  by (simp add: kept_def settled_def)

lemma settled_trans: "settled c s t \<Longrightarrow> settled c t u \<Longrightarrow> settled c s u"
  by (simp add: settled_def)

lemma server_link_ok:
  assumes "stream os fd inp out" and "off_socket w inp out" and "peer_data w pid paddr pkey r a"
    and "run_at inp out c (Some (comm_new e c now)) (le_bytes 4 prank @ block paddr @ i) ob s"
    and "named w (ep_of e s) haddr" and "length haddr < 2 ^ 31"
  obtains t where "\<And>k. server_link os w fd c k s = k t"
    "run_at inp out c (Some (link_comm e c now prank r a)) i (ob @ le_bytes 4 c @ block haddr) t" "settled c s t"
proof -
  let ?m1 = "(comm_new e c now)\<lparr>cm_rank_self_in_peer := prank\<rparr>"
  let ?m3 = "if r = 1 then ?m1\<lparr>cm_fi_addr := a\<rparr> else ?m1"
  have pd: "length paddr < 2 ^ 31" "\<And>av f. fst (w_av_insert w av paddr f) = (r, a)" "0 \<le> r"
    using assms(3) by (simp_all add: peer_data_def)
  obtain s1 where s1: "\<And>k. recv_rank os fd c k s = k s1" "run_at inp out c (Some ?m1) (block paddr @ i) ob s1" "kept c s s1"
    by (rule recv_rank_ok [OF assms(1,4)]) blast
  obtain s2 where s2: "\<And>k. send_rank os fd c k s1 = k s2" "run_at inp out c (Some ?m1) (block paddr @ i) (ob @ le_bytes 4 c) s2"
    "kept c s1 s2" using send_rank_ok [OF assms(1) s1(2)] by (auto simp: comm_new_def)
  obtain s3 where s3: "\<And>k. recv_addr os w fd c k s2 = k s3" "run_at inp out c (Some ?m3) i (ob @ le_bytes 4 c) s3" "kept c s2 s3"
    using recv_addr_ok [OF assms(1,2) s2(2) pd(1,2,3)] by blast
  have "kept c s s3" by (rule kept_trans [OF kept_trans [OF s1(3) s2(3)] s3(3)])
  then have nm: "named w (ep_of (cm_endpoint ?m3) s3) haddr" using assms(5) by (simp add: kept_def comm_new_def)
  obtain s4 where s4: "\<And>k. send_addr os w fd c k s3 = k s4" "run_at inp out c (Some ?m3) i ((ob @ le_bytes 4 c) @ block haddr) s4"
    "l_env s4 = l_env s3" "l_hb_key s4 = l_hb_key s3" "\<And>c'. c' \<noteq> c \<Longrightarrow> the_comm c' s4 = the_comm c' s3"
    by (rule send_addr_ok [OF assms(1,2) s3(2) nm assms(6)]) blast
  have "settled c s s4" using kept_settled [OF \<open>kept c s s3\<close>] s4(3-5) by (simp add: settled_def)
  moreover note set_ready_ok [OF s4(2), of READY_INTERNAL]
  moreover have "?m3\<lparr>cm_is_ready := READY_INTERNAL\<rparr> = link_comm e c now prank r a" by (simp add: link_comm_def comm_new_def)
  ultimately show ?thesis
    using that [of "set_ready c READY_INTERNAL s4"] s1(1) s2(1) s3(1) s4(1) settled_trans [OF \<open>settled c s s4\<close> kept_settled [OF set_ready_ok(2) [OF s4(2), of READY_INTERNAL]]]
    by (simp add: server_link_def)
qed

lemma client_link_ok:
  assumes "stream os fd inp out" and "off_socket w inp out" and "peer_data w pid paddr pkey r a"
    and "run_at inp out c (Some (comm_new e c now)) (le_bytes 4 prank @ block paddr @ i) ob s"
    and "named w (ep_of e s) haddr" and "length haddr < 2 ^ 31"
  obtains t where "\<And>k. client_link os w fd c k s = k t"
    "run_at inp out c (Some (link_comm e c now prank r a)) i (ob @ le_bytes 4 c @ block haddr) t" "settled c s t"
proof -
  let ?m1 = "(comm_new e c now)\<lparr>cm_rank_self_in_peer := prank\<rparr>"
  let ?m3 = "if r = 1 then ?m1\<lparr>cm_fi_addr := a\<rparr> else ?m1"
  have pd: "length paddr < 2 ^ 31" "\<And>av f. fst (w_av_insert w av paddr f) = (r, a)" "0 \<le> r"
    using assms(3) by (simp_all add: peer_data_def)
  obtain s1 where s1: "\<And>k. send_rank os fd c k s = k s1"
    "run_at inp out c (Some (comm_new e c now)) (le_bytes 4 prank @ block paddr @ i) (ob @ le_bytes 4 c) s1" "kept c s s1"
    using send_rank_ok [OF assms(1,4)] by (auto simp: comm_new_def)
  obtain s2 where s2: "\<And>k. recv_rank os fd c k s1 = k s2" "run_at inp out c (Some ?m1) (block paddr @ i) (ob @ le_bytes 4 c) s2"
    "kept c s1 s2" by (rule recv_rank_ok [OF assms(1) s1(2)]) blast
  have "kept c s s2" by (rule kept_trans [OF s1(3) s2(3)])
  then have nm: "named w (ep_of (cm_endpoint ?m1) s2) haddr" using assms(5) by (simp add: kept_def comm_new_def)
  obtain s3 where s3: "\<And>k. send_addr os w fd c k s2 = k s3"
    "run_at inp out c (Some ?m1) (block paddr @ i) ((ob @ le_bytes 4 c) @ block haddr) s3"
    "l_env s3 = l_env s2" "l_hb_key s3 = l_hb_key s2" "\<And>c'. c' \<noteq> c \<Longrightarrow> the_comm c' s3 = the_comm c' s2"
    by (rule send_addr_ok [OF assms(1,2) s2(2) nm assms(6)]) blast
  obtain s4 where s4: "\<And>k. recv_addr os w fd c k s3 = k s4" "run_at inp out c (Some ?m3) i ((ob @ le_bytes 4 c) @ block haddr) s4"
    "kept c s3 s4" using recv_addr_ok [OF assms(1,2) s3(2) pd(1,2,3)] by blast
  have "settled c s s4"
    using kept_settled [OF \<open>kept c s s2\<close>] kept_settled [OF s4(3)] s3(3-5) by (simp add: settled_def)
  moreover note set_ready_ok [OF s4(2), of READY_INTERNAL]
  moreover have "?m3\<lparr>cm_is_ready := READY_INTERNAL\<rparr> = link_comm e c now prank r a" by (simp add: link_comm_def comm_new_def)
  ultimately show ?thesis
    using that [of "set_ready c READY_INTERNAL s4"] s1(1) s2(1) s3(1) s4(1) settled_trans [OF \<open>settled c s s4\<close> kept_settled [OF set_ready_ok(2) [OF s4(2), of READY_INTERNAL]]]
    by (simp add: client_link_def)
qed

lemma server_beat_ok:
  assumes "stream os fd inp out" and "run_at inp out c (Some m) (beat (LFI_fault_tolerance (l_env s)) phb pkey @ rest) ob s"
    and "key_ok pkey"
  obtains t m' where "\<And>k. server_beat os fd c k s = k (if LFI_fault_tolerance (l_env s) then 16 else i32 (uint (cm_rank_peer m))) t"
    "run_at inp out c (Some m') rest (ob @ beat (LFI_fault_tolerance (l_env s)) (os_heartbeat_addr os) (l_hb_key s)) t" "settled c s t"
    "m' = (if LFI_fault_tolerance (l_env s) then m\<lparr>cm_remote_heartbeat_addr := phb, cm_remote_heartbeat_key := pkey\<rparr> else m)"
proof (cases "LFI_fault_tolerance (l_env s)")
  case True
  let ?m = "m\<lparr>cm_remote_heartbeat_addr := phb, cm_remote_heartbeat_key := pkey\<rparr>"
  let ?own = "le_bytes 8 (os_heartbeat_addr os) @ key_bytes (l_hb_key s)"
  have at: "run_at inp out c (Some m) (le_bytes 8 phb @ key_bytes pkey @ rest) ob s" using assms(2) True by (simp add: beat_def)
    obtain s1 where s1: "\<And>k. send_heartbeat os fd k s = k s1"
      "run_at inp out c (Some m) (le_bytes 8 phb @ key_bytes pkey @ rest) (ob @ ?own) s1" "kept c s s1"
      using send_heartbeat_ok [OF assms(1) at] by blast
    obtain t where t: "\<And>k. recv_heartbeat os fd c k s1 = k t" "run_at inp out c (Some ?m) rest (ob @ ?own) t" "kept c s1 t"
      using recv_heartbeat_ok [OF assms(1) s1(2) assms(3)] by blast
    have "settled c s t" by (rule kept_settled [OF kept_trans [OF s1(3) t(3)]])
    then show ?thesis using that [of t ?m] True s1(1) t(1,2) by (simp add: server_beat_def beat_def)
next
  case False
  then show ?thesis using that [of s m] assms(2) by (simp add: server_beat_def beat_def run_at_def settled_def)
qed

lemma client_beat_ok:
  assumes "stream os fd inp out" and "run_at inp out c (Some m) (beat (LFI_fault_tolerance (l_env s)) phb pkey @ rest) ob s"
    and "key_ok pkey"
  obtains t m' where "\<And>k. client_beat os fd c k s = k (if LFI_fault_tolerance (l_env s) then 16 else i32 (uint (cm_rank_peer m))) t"
    "run_at inp out c (Some m') rest (ob @ beat (LFI_fault_tolerance (l_env s)) (os_heartbeat_addr os) (l_hb_key s)) t" "settled c s t"
    "m' = (if LFI_fault_tolerance (l_env s) then m\<lparr>cm_remote_heartbeat_addr := phb, cm_remote_heartbeat_key := pkey\<rparr> else m)"
proof (cases "LFI_fault_tolerance (l_env s)")
  case True
  let ?m = "m\<lparr>cm_remote_heartbeat_addr := phb, cm_remote_heartbeat_key := pkey\<rparr>"
  let ?own = "le_bytes 8 (os_heartbeat_addr os) @ key_bytes (l_hb_key s)"
  have at: "run_at inp out c (Some m) (le_bytes 8 phb @ key_bytes pkey @ rest) ob s" using assms(2) True by (simp add: beat_def)
    obtain s1 where s1: "\<And>k. recv_heartbeat os fd c k s = k s1" "run_at inp out c (Some ?m) rest ob s1" "kept c s s1"
      using recv_heartbeat_ok [OF assms(1) at assms(3)] by blast
    have key: "l_hb_key s1 = l_hb_key s" using s1(3) by (simp add: kept_def)
    obtain t where t: "\<And>k. send_heartbeat os fd k s1 = k t" "run_at inp out c (Some ?m) rest (ob @ ?own) t" "kept c s1 t"
      using send_heartbeat_ok [OF assms(1) s1(2)] key by auto
    have "settled c s t" by (rule kept_settled [OF kept_trans [OF s1(3) t(3)]])
    then show ?thesis using that [of t ?m] True s1(1) t(1,2) by (simp add: client_beat_def beat_def)
next
  case False
  then show ?thesis using that [of s m] assms(2) by (simp add: client_beat_def beat_def run_at_def settled_def)
qed

lemma server_exchange_ok:
  assumes "side os w fd inp out c hid e haddr s" and "peer_data w pid paddr pkey r a" and "e = exchange_ep hid pid s"
    and "inp (l_fab s) = hello pid prank paddr (beat (LFI_fault_tolerance (l_env s)) phb pkey) @ rest"
  obtains t where "\<And>k. server_exchange os w fd c k s = k c (if LFI_fault_tolerance (l_env s) then 16 else i32 (uint c)) t"
    "exchanged c e prank r a phb pkey s t" "inp (l_fab t) = rest"
    "out (l_fab t) = out (l_fab s) @ hello hid c haddr (beat (LFI_fault_tolerance (l_env s)) (os_heartbeat_addr os) (l_hb_key s))"
proof -
  let ?ft = "LFI_fault_tolerance (l_env s)" and ?ob = "out (l_fab s)"
  have st: "stream os fd inp out" "off_socket w inp out" "length haddr < 2 ^ 31" "length pid < 2 ^ 31" "key_ok pkey"
    using assms(1,2) by (simp_all add: side_def peer_data_def)
  have "inp (l_fab s) = block pid @ le_bytes 4 prank @ block paddr @ beat ?ft phb pkey @ rest" using assms(4) by (simp add: hello_def)
  from server_ids_ok [OF assms(1) st(4) assms(3) this] obtain s1 now where s1: "\<And>k. server_ids os w fd c k s = k c s1"
    "run_at inp out c (Some (comm_new e c now)) (le_bytes 4 prank @ block paddr @ beat ?ft phb pkey @ rest) (?ob @ block hid) s1"
    "kept c s s1" by blast
  have "named w (ep_of e s1) haddr" using assms(1) s1(3) by (simp add: side_def kept_def)
  from server_link_ok [OF st(1,2) assms(2) s1(2) this st(3)] obtain s2 where s2: "\<And>k. server_link os w fd c k s1 = k s2"
    "run_at inp out c (Some (link_comm e c now prank r a)) (beat ?ft phb pkey @ rest) ((?ob @ block hid) @ le_bytes 4 c @ block haddr) s2"
    "settled c s1 s2" by blast
  have set2: "settled c s s2" by (rule settled_trans [OF kept_settled [OF s1(3)] s2(3)])
  then have env: "l_env s2 = l_env s" "l_hb_key s2 = l_hb_key s" by (simp_all add: settled_def)
  have rank: "cm_rank_peer (link_comm e c now prank r a) = c" by (simp add: link_comm_def comm_new_def)
  from server_beat_ok [OF st(1) s2(2) [folded env(1)] st(5)] obtain t m' where
    t: "\<And>k. server_beat os fd c k s2 = k (if ?ft then 16 else i32 (uint c)) t"
    "run_at inp out c (Some m') rest (((?ob @ block hid) @ le_bytes 4 c @ block haddr) @ beat ?ft (os_heartbeat_addr os) (l_hb_key s)) t"
    "settled c s2 t" "m' = (if ?ft then (link_comm e c now prank r a)\<lparr>cm_remote_heartbeat_addr := phb, cm_remote_heartbeat_key := pkey\<rparr>
      else link_comm e c now prank r a)"
    unfolding rank env by blast
  have "exchanged c e prank r a phb pkey s t"
    using t(2,4) settled_trans [OF set2 t(3)]
    by (simp add: exchanged_def linked_def run_at_def settled_def link_comm_def comm_new_def)
  then show ?thesis using that [of t] s1(1) s2(1) t(1,2) by (simp add: server_exchange_def run_at_def hello_def)
qed

lemma client_exchange_ok:
  assumes "side os w fd inp out c hid e haddr s" and "peer_data w pid paddr pkey r a" and "e = exchange_ep hid pid s"
    and "inp (l_fab s) = hello pid prank paddr (beat (LFI_fault_tolerance (l_env s)) phb pkey) @ rest"
  obtains t where "\<And>k. client_exchange os w fd c k s = k c (if LFI_fault_tolerance (l_env s) then 16 else i32 (uint c)) t"
    "exchanged c e prank r a phb pkey s t" "inp (l_fab t) = rest"
    "out (l_fab t) = out (l_fab s) @ hello hid c haddr (beat (LFI_fault_tolerance (l_env s)) (os_heartbeat_addr os) (l_hb_key s))"
proof -
  let ?ft = "LFI_fault_tolerance (l_env s)" and ?ob = "out (l_fab s)"
  have st: "stream os fd inp out" "off_socket w inp out" "length haddr < 2 ^ 31" "length pid < 2 ^ 31" "key_ok pkey"
    using assms(1,2) by (simp_all add: side_def peer_data_def)
  have "inp (l_fab s) = block pid @ le_bytes 4 prank @ block paddr @ beat ?ft phb pkey @ rest" using assms(4) by (simp add: hello_def)
  from client_ids_ok [OF assms(1) st(4) assms(3) this] obtain s1 now where s1: "\<And>k. client_ids os w fd c k s = k c s1"
    "run_at inp out c (Some (comm_new e c now)) (le_bytes 4 prank @ block paddr @ beat ?ft phb pkey @ rest) (?ob @ block hid) s1"
    "kept c s s1" by blast
  have "named w (ep_of e s1) haddr" using assms(1) s1(3) by (simp add: side_def kept_def)
  from client_link_ok [OF st(1,2) assms(2) s1(2) this st(3)] obtain s2 where s2: "\<And>k. client_link os w fd c k s1 = k s2"
    "run_at inp out c (Some (link_comm e c now prank r a)) (beat ?ft phb pkey @ rest) ((?ob @ block hid) @ le_bytes 4 c @ block haddr) s2"
    "settled c s1 s2" by blast
  have set2: "settled c s s2" by (rule settled_trans [OF kept_settled [OF s1(3)] s2(3)])
  then have env: "l_env s2 = l_env s" "l_hb_key s2 = l_hb_key s" by (simp_all add: settled_def)
  have rank: "cm_rank_peer (link_comm e c now prank r a) = c" by (simp add: link_comm_def comm_new_def)
  from client_beat_ok [OF st(1) s2(2) [folded env(1)] st(5)] obtain t m' where
    t: "\<And>k. client_beat os fd c k s2 = k (if ?ft then 16 else i32 (uint c)) t"
    "run_at inp out c (Some m') rest (((?ob @ block hid) @ le_bytes 4 c @ block haddr) @ beat ?ft (os_heartbeat_addr os) (l_hb_key s)) t"
    "settled c s2 t" "m' = (if ?ft then (link_comm e c now prank r a)\<lparr>cm_remote_heartbeat_addr := phb, cm_remote_heartbeat_key := pkey\<rparr>
      else link_comm e c now prank r a)"
    unfolding rank env by blast
  have "exchanged c e prank r a phb pkey s t"
    using t(2,4) settled_trans [OF set2 t(3)]
    by (simp add: exchanged_def linked_def run_at_def settled_def link_comm_def comm_new_def)
  then show ?thesis using that [of t] s1(1) s2(1) t(1,2) by (simp add: client_exchange_def run_at_def hello_def)
qed

subsection \<open>Two sides together\<close>


text \<open>Node number 9 connects to node number 7 of \<open>sample_lfi\<close>'s kind; both run on the same host but do not
  use shared memory.\<close>

definition sample_side :: "cid \<Rightarrow> u8 list \<Rightarrow> sample lfi" where
  "sample_side c i =
     upd_ep Peer (\<lambda>x. x\<lparr>ep_ep := 10\<rparr>)
       (lfi_new (env_default\<lparr>LFI_use_shm := False\<rparr>) (sample0\<lparr>sf_in := i\<rparr>))\<lparr>l_comms := [(c, None)]\<rparr>"

definition sample_hello :: "cid \<Rightarrow> u8 list" where
  "sample_hello c = hello (bytes_of_str ''node 10.0.0.1'') c [1, 2] (beat True 4096 \<lparr>shm_key = -1, peer_key = -1\<rparr>)"

lemma sample_side_ok:
  "side sample_os sample_world 4 sf_in sf_out c (bytes_of_str ''node 10.0.0.1'') Peer [1, 2] (sample_side c i)"
  "peer_data sample_world (bytes_of_str ''node 10.0.0.1'') [1, 2] \<lparr>shm_key = -1, peer_key = -1\<rparr> 1 7"
  "LFI_fault_tolerance (l_env (sample_side c i))" "\<not> LFI_use_shm (l_env (sample_side c i))"
  "l_hb_key (sample_side c i) = \<lparr>shm_key = -1, peer_key = -1\<rparr>" "sf_in (l_fab (sample_side c i)) = i"
  "sf_out (l_fab (sample_side c i)) = []"
proof -
  have ep: "ep_addr (ep_of Peer (sample_side c i)) = []" "ep_ep (ep_of Peer (sample_side c i)) = 10"
    by (simp_all add: sample_side_def lfi_new_def upd_ep_def ep_of_def endpoint_new_def)
  have "named sample_world (ep_of Peer (sample_side c i)) [1, 2]"
    unfolding named_def ep by (auto simp: sample_world_def intro!: exI [of _ 2])
  moreover have "off_socket sample_world sf_in sf_out" by (simp add: off_socket_def sample_world_def)
  moreover have "get_host_id sample_os (sample_side c i) = Some (bytes_of_str ''node 10.0.0.1'', sample_side c i)"
    by (simp add: get_host_id_def get_host_ip_def get_host_name_def sample_os_def)
  then have "\<exists>f. get_host_id sample_os (sample_side c i) = Some (bytes_of_str ''node 10.0.0.1'', (sample_side c i)\<lparr>l_fab := f\<rparr>) \<and>
      sf_in f = sf_in (l_fab (sample_side c i)) \<and> sf_out f = sf_out (l_fab (sample_side c i))"
    by (intro exI [of _ "l_fab (sample_side c i)"]) simp
  ultimately show "side sample_os sample_world 4 sf_in sf_out c (bytes_of_str ''node 10.0.0.1'') Peer [1, 2] (sample_side c i)"
    by (simp add: side_def sample_stream) (simp add: sample_side_def lfi_new_def key_ok_def upd_ep_def)
qed (simp_all add: peer_data_def sample_world_def sample_side_def lfi_new_def upd_ep_def key_ok_def env_default_def sample0_def)


subsection \<open>A connection that fails\<close>

text \<open>No other thread makes the communicator ready: only its own connection thread would.\<close>

definition nobody_connects :: "'f world \<Rightarrow> cid \<Rightarrow> bool" where
  "nobody_connects w c \<longleftrightarrow>
     (\<forall>p s t. w_others w p None s = Some t \<longrightarrow> \<not> comm_ready c s \<longrightarrow> \<not> comm_ready c t)"

lemma lookup_hangs:
  assumes "cv_sound w" and "nobody_connects w c" and "map_of (l_comms t) c = Some entry"
    and "\<And>m. entry = Some m \<Longrightarrow> cm_is_ready m = NOT_READY" and "c \<notin> set (l_futs t)"
  shows "get_comm_internal w c t = None"
proof -
  have "\<not> comm_ready c t" using assms(3,4) by (cases entry) (auto simp: comm_ready_def the_comm_def)
  then have "w_others w (comm_ready c) None t = None"
    using assms(1,2) unfolding cv_sound_def nobody_connects_def by (metis not_None_eq)
  then show ?thesis using assms(3-5) by (cases entry) (auto simp: get_comm_internal_def)
qed


text \<open>A peer that resets the connection at once.\<close>

definition reset_os :: "sample os" where
  "reset_os = sample_os\<lparr>os_send := \<lambda>_ _ f. (-1, f)\<rparr>"

lemma reset_server:
  "conn_thread reset_os 4 (init_server d reset_os w 4 c) s = Some (s\<lparr>l_fab := (l_fab s)\<lparr>sf_socks := removeAll 4 (sf_socks (l_fab s))\<rparr>\<rparr>)"
proof -
  have eight: "i32 8 = 8" "call_len 8 = 8" "i32 (-1) = -1" by (simp_all add: i32_def call_len_def)
  have "send_loop reset_os 4 (le_bytes 8 v) 8 f = Some (-1, f)" for v :: u64 and f
    using send_loop.simps [of reset_os 4 "le_bytes 8 v" 8 f] eight by (simp add: reset_os_def)
  then have "sock_send reset_os 4 (le_bytes 8 v) f = Some (-1, f)" for v :: u64 and f
    using eight by (simp add: sock_send_def)
  then show ?thesis
    using eight by (simp add: conn_thread_def init_server_def server_exchange_def server_ids_def get_host_id_def get_host_ip_def
        get_host_name_def ksend_block_def ksend_def sock_close_def) (simp add: reset_os_def sample_os_def)
qed

definition reset_world :: "sample world" where
  "reset_world = sample_world\<lparr>w_future := \<lambda>c. conn_thread reset_os 4 (init_server 1 reset_os sample_world 4 c)\<rparr>"


end
