(* ===== verification/Collectives.thy ===== *)
theory Collectives
  imports Connection
begin

text \<open>
  \<open>src/lfi_coll.cpp\<close>: groups of processes and the collective operations on them. Each collective posts a
  list of sends and receives, waits for all of them and frees the requests; the lists are the plans
  below. Memory that a collective reads is reached through \<open>mem\<close>. The time functions, which work on
  floating point numbers, are left out, and \<open>malloc\<close> succeeds.
\<close>

subsection \<open>Groups\<close>

record lfi_group =
  gr_size :: nat
  gr_ranks :: "int list option"
  gr_rank :: int

definition group_ready :: "lfi_group \<Rightarrow> bool" where
  "group_ready g \<longleftrightarrow> gr_size g \<noteq> 0 \<and> gr_ranks g \<noteq> None"

text \<open>The result and the number stored through the pointer, when one is.\<close>

definition lfi_group_rank :: "lfi_group \<Rightarrow> int \<times> int option" where
  "lfi_group_rank g = (if \<not> group_ready g then (- LFI_GROUP_NO_INIT, None) else (LFI_SUCCESS, Some (gr_rank g)))"

definition lfi_group_size :: "lfi_group \<Rightarrow> int \<times> int option" where
  "lfi_group_size g =
     (if \<not> group_ready g then (- LFI_GROUP_NO_INIT, None) else (LFI_SUCCESS, Some (i32 (int (gr_size g)))))"

text \<open>\<open>group->ranks[i]\<close>; outside of the array, or without one, undefined.\<close>

definition rank_at :: "lfi_group \<Rightarrow> int \<Rightarrow> int option" where
  "rank_at g i =
     do { rs \<leftarrow> gr_ranks g; if 0 \<le> i \<and> nat i < length rs then Some (rs ! nat i) else None }"

fun close_ranks :: "nat \<Rightarrow> 'f world \<Rightarrow> lfi_group \<Rightarrow> nat list \<Rightarrow> int \<Rightarrow> 'f call" where
  "close_ranks d w g [] res s = Some (res, s)"
| "close_ranks d w g (i # is) res s =
     do { c \<leftarrow> rank_at g (int i);
          if c < 0 then close_ranks d w g is res s
          else do { (ret, s1) \<leftarrow> lfi_client_close d w c s;
                    close_ranks d w g is (if ret < 0 then ret else res) s1 } }"

text \<open>The array is freed; the size stays.\<close>

definition lfi_group_close :: "nat \<Rightarrow> 'f world \<Rightarrow> lfi_group \<Rightarrow> 'f lfi \<Rightarrow> ((int \<times> lfi_group) \<times> 'f lfi) option" where
  "lfi_group_close d w g s =
     do { (res, s1) \<leftarrow> close_ranks d w g [0..<gr_size g] 0 s; Some ((res, g\<lparr>gr_ranks := None\<rparr>), s1) }"

subsection \<open>Posting a plan\<close>

text \<open>The member, the memory, its size and the tag.\<close>

datatype coll_post = CSend int ptr u64 u32 | CRecv int ptr u64 u32

fun post_peer :: "coll_post \<Rightarrow> int" where
  "post_peer (CSend i _ _ _) = i" | "post_peer (CRecv i _ _ _) = i"

text \<open>The tags are unsigned constants that the interface takes as \<open>int\<close>.\<close>

fun post_one :: "'f world \<Rightarrow> coll_post \<Rightarrow> rid option \<Rightarrow> 'f call" where
  "post_one w (CSend _ p n tag) req = lfi_tsend_async w req p n (i32 (uint tag))"
| "post_one w (CRecv _ p n tag) req = lfi_trecv_async w req p n (i32 (uint tag))"

fun run_posts ::
    "'f world \<Rightarrow> lfi_group \<Rightarrow> coll_post list \<Rightarrow> rid option list \<Rightarrow> 'f lfi \<Rightarrow> ((int \<times> rid option list) \<times> 'f lfi) option" where
  "run_posts w g [] reqs s = Some ((0, reqs), s)"
| "run_posts w g (p # ps) reqs s =
     do { c \<leftarrow> rank_at g (post_peer p);
          (req, s1) \<leftarrow> lfi_request_create w c s;
          (ret, s2) \<leftarrow> post_one w p req s1;
          if ret < 0 then Some ((ret, reqs @ [req]), s2) else run_posts w g ps (reqs @ [req]) s2 }"

fun coll_cancel_all :: "nat \<Rightarrow> 'f world \<Rightarrow> rid option list \<Rightarrow> 'f lfi \<Rightarrow> 'f lfi option" where
  "coll_cancel_all d w [] s = Some s"
| "coll_cancel_all d w (q # qs) s = do { (_, s1) \<leftarrow> lfi_cancel d w q s; coll_cancel_all d w qs s1 }"

fun free_all :: "nat \<Rightarrow> 'f world \<Rightarrow> rid option list \<Rightarrow> 'f lfi \<Rightarrow> 'f lfi option" where
  "free_all d w [] s = Some s"
| "free_all d w (q # qs) s = do { s1 \<leftarrow> lfi_request_free d w q s; free_all d w qs s1 }"

text \<open>\<open>requests.data()\<close> is null for a vector without elements. What \<open>lfi_wait_all\<close> returns is ignored.\<close>

definition wait_and_free :: "nat \<Rightarrow> 'f world \<Rightarrow> rid option list \<Rightarrow> 'f lfi \<Rightarrow> 'f lfi option" where
  "wait_and_free d w reqs s =
     do { (_, s1) \<leftarrow> lfi_wait_all d w (if reqs = [] then None else Some reqs) s; free_all d w reqs s1 }"

text \<open>The labels \<open>error\<close> and \<open>cleanup\<close>.\<close>

definition coll_end :: "nat \<Rightarrow> 'f world \<Rightarrow> int \<Rightarrow> rid option list \<Rightarrow> 'f call" where
  "coll_end d w ret reqs s =
     do { s1 \<leftarrow> (if ret < 0 then coll_cancel_all d w reqs s else Some s);
          s2 \<leftarrow> wait_and_free d w reqs s1;
          Some (i32 ret, s2) }"

subsection \<open>Barrier and broadcast\<close>

text \<open>All members but one.\<close>

definition others :: "nat \<Rightarrow> int \<Rightarrow> nat list" where
  "others n root = filter (\<lambda>i. int i \<noteq> root) [0..<n]"

definition barrier_plan :: "nat \<Rightarrow> int \<Rightarrow> ptr \<Rightarrow> coll_post list" where
  "barrier_plan n rank dummy =
     (if rank = 0
      then concat (map (\<lambda>i. [CRecv (int i) dummy 0 LFI_TAG_BARRIER, CSend (int i) dummy 0 LFI_TAG_BARRIER]) (others n 0))
      else [CRecv 0 dummy 0 LFI_TAG_BARRIER, CSend 0 dummy 0 LFI_TAG_BARRIER])"

definition lfi_barrier :: "nat \<Rightarrow> 'f os \<Rightarrow> 'f world \<Rightarrow> lfi_group \<Rightarrow> 'f call" where
  "lfi_barrier d os w g s =
     (if gr_size g = 0 then Some (-1, s)
      else do { ((ret, reqs), s1) \<leftarrow> run_posts w g (barrier_plan (gr_size g) (gr_rank g) (Mem (os_buf_addr os))) [] s;
                coll_end d w ret reqs s1 })"

definition broadcast_plan :: "nat \<Rightarrow> int \<Rightarrow> int \<Rightarrow> ptr \<Rightarrow> u64 \<Rightarrow> coll_post list" where
  "broadcast_plan n rank root data len =
     (if rank = root then map (\<lambda>i. CSend (int i) data len LFI_TAG_BROADCAST) (others n root)
      else [CRecv root data len LFI_TAG_BROADCAST])"

definition lfi_broadcast :: "nat \<Rightarrow> 'f world \<Rightarrow> lfi_group \<Rightarrow> int \<Rightarrow> ptr \<Rightarrow> u64 \<Rightarrow> 'f call" where
  "lfi_broadcast d w g root data len s =
     (if gr_size g = 0 then Some (-1, s)
      else do { ((ret, reqs), s1) \<leftarrow> run_posts w g (broadcast_plan (gr_size g) (gr_rank g) root data len) [] s;
                coll_end d w ret reqs s1 })"

subsection \<open>Reduction\<close>

datatype op_type_enum = T_INT | T_UINT32 | T_INT32 | T_UINT64 | T_INT64

datatype op_enum = OP_MIN | OP_MAX | OP_SUM | OP_PROD

definition type_bytes :: "op_type_enum \<Rightarrow> nat" where
  "type_bytes ty = (case ty of T_UINT64 \<Rightarrow> 8 | T_INT64 \<Rightarrow> 8 | _ \<Rightarrow> 4)"

text \<open>A value that is no enumerator has no entry in \<open>type_size\<close>, and \<open>operator[]\<close> makes one with 0.\<close>

definition type_size :: "op_type_enum option \<Rightarrow> nat" where
  "type_size ty = (case ty of None \<Rightarrow> 0 | Some t \<Rightarrow> type_bytes t)"

definition type_signed :: "op_type_enum \<Rightarrow> bool" where
  "type_signed ty \<longleftrightarrow> ty = T_INT \<or> ty = T_INT32 \<or> ty = T_INT64"

text \<open>The number in the first bytes of an object, and back.\<close>

definition val_of :: "op_type_enum \<Rightarrow> u8 list \<Rightarrow> int" where
  "val_of ty bs =
     (let b = take (type_bytes ty) bs
      in if type_bytes ty = 4 then (if type_signed ty then sint (le_word b :: u32) else uint (le_word b :: u32))
         else (if type_signed ty then sint (le_word b :: u64) else uint (le_word b :: u64)))"

definition bytes_of_val :: "op_type_enum \<Rightarrow> int \<Rightarrow> u8 list" where
  "bytes_of_val ty v = le_bytes (type_bytes ty) (word_of_int v :: u64)"

text \<open>Arithmetic in the type: unsigned numbers wrap, the overflow of a signed number is undefined.\<close>

definition in_type :: "op_type_enum \<Rightarrow> int \<Rightarrow> int option" where
  "in_type ty x =
     (let b = 8 * type_bytes ty
      in if type_signed ty then (if - (2 ^ (b - 1)) \<le> x \<and> x < 2 ^ (b - 1) then Some x else None)
         else Some (x mod 2 ^ b))"

fun operate_one :: "op_type_enum \<Rightarrow> op_enum option \<Rightarrow> int \<Rightarrow> int \<Rightarrow> int option" where
  "operate_one ty (Some OP_MIN) result v = Some (if v < result then v else result)"
| "operate_one ty (Some OP_MAX) result v = Some (if v > result then v else result)"
| "operate_one ty (Some OP_SUM) result v = in_type ty (result + v)"
| "operate_one ty (Some OP_PROD) result v = in_type ty (result * v)"
| "operate_one ty None result v = Some result"

fun operate_loop :: "op_type_enum \<Rightarrow> op_enum option \<Rightarrow> int \<Rightarrow> u8 list list \<Rightarrow> int option" where
  "operate_loop ty op result [] = Some result"
| "operate_loop ty op result (buf # bufs) =
     do { r \<leftarrow> operate_one ty op result (val_of ty buf); operate_loop ty op r bufs }"

definition operate :: "op_type_enum \<Rightarrow> op_enum option \<Rightarrow> u8 list \<Rightarrow> u8 list list \<Rightarrow> int option" where
  "operate ty op data bufs = operate_loop ty op (val_of ty data) bufs"

record 'f mem =
  mm_read :: "u64 \<Rightarrow> nat \<Rightarrow> 'f \<Rightarrow> u8 list"
  mm_write :: "u64 \<Rightarrow> u8 list \<Rightarrow> 'f \<Rightarrow> 'f"

text \<open>The two lists of posts. \<open>bufs\<close> is the address of the elements of \<open>gather_buffers\<close>.\<close>

definition gather_plan :: "nat \<Rightarrow> int \<Rightarrow> u64 \<Rightarrow> u64 \<Rightarrow> u64 \<Rightarrow> coll_post list" where
  "gather_plan n rank data bufs len =
     (if rank = 0
      then map (\<lambda>(k, i). CRecv (int i) (Mem (bufs + word_of_nat (8 * k))) len LFI_TAG_ALLREDUCE) (enumerate 0 (others n 0))
      else [CSend 0 (Mem data) len LFI_TAG_ALLREDUCE])"

definition scatter_plan :: "nat \<Rightarrow> int \<Rightarrow> u64 \<Rightarrow> u64 \<Rightarrow> coll_post list" where
  "scatter_plan n rank data len =
     (if rank = 0 then map (\<lambda>i. CSend (int i) (Mem data) len LFI_TAG_ALLREDUCE) (others n 0)
      else [CRecv 0 (Mem data) len LFI_TAG_ALLREDUCE])"

text \<open>The root's computation; a type that is no enumerator gives \<open>-1\<close>.\<close>

definition reduce_root :: "'f mem \<Rightarrow> nat \<Rightarrow> u64 \<Rightarrow> u64 \<Rightarrow> op_type_enum option \<Rightarrow> op_enum option \<Rightarrow> 'f lfi \<Rightarrow> (int \<times> 'f lfi) option" where
  "reduce_root mem n data bufs ty op s =
     (case ty of
        None \<Rightarrow> Some (-1, s)
      | Some t \<Rightarrow>
          do { r \<leftarrow> operate t op (mm_read mem data (type_bytes t) (l_fab s))
                      (map (\<lambda>k. mm_read mem (bufs + word_of_nat (8 * k)) 8 (l_fab s)) [0..<n - 1]);
               Some (0, s\<lparr>l_fab := mm_write mem data (bytes_of_val t r) (l_fab s)\<rparr>) })"

definition lfi_allreduce ::
    "nat \<Rightarrow> 'f world \<Rightarrow> 'f mem \<Rightarrow> u64 \<Rightarrow> lfi_group \<Rightarrow> u64 \<Rightarrow> op_type_enum option \<Rightarrow> op_enum option \<Rightarrow> 'f call" where
  "lfi_allreduce d w mem bufs g data ty op s =
     (let n = gr_size g; len = word_of_nat (type_size ty)
      in if n = 0 then Some (-1, s)
         else do {
           let s0 = (if gr_rank g = 0
                     then s\<lparr>l_fab := mm_write mem bufs (replicate (8 * (n - 1)) 0) (l_fab s)\<rparr> else s);
           ((ret, reqs), s1) \<leftarrow> run_posts w g (gather_plan n (gr_rank g) data bufs len) [] s0;
           if ret < 0 then coll_end d w ret reqs s1
           else do {
             s2 \<leftarrow> wait_and_free d w reqs s1;
             (ret2, s3) \<leftarrow> (if gr_rank g = 0 then reduce_root mem n data bufs ty op s2 else Some (0, s2));
             if ret2 < 0 then coll_end d w ret2 [] s3
             else do {
               ((ret3, reqs3), s4) \<leftarrow> run_posts w g (scatter_plan n (gr_rank g) data len) [] s3;
               coll_end d w ret3 reqs3 s4 } } })"

subsection \<open>Creating a group\<close>

text \<open>\<open>struct rank_info\<close>: 64 bytes for the host name and the port. \<open>strncpy\<close> writes 63 bytes; the last byte
  of the name, and a structure that nothing was received into, hold what was in memory before
  (\<open>junk\<close>).\<close>

definition HOST_NAME_MAX :: nat where "HOST_NAME_MAX = 64"

definition rank_info_bytes :: "u8 list \<Rightarrow> string \<Rightarrow> int \<Rightarrow> u8 list" where
  "rank_info_bytes junk host port =
     take 63 (bytes_of_str host @ replicate 63 0) @ take 1 (drop 63 junk) @ le_bytes 4 (word_of_int port :: u32)"

definition info_port :: "u8 list \<Rightarrow> int" where
  "info_port info = sint (le_word (drop HOST_NAME_MAX info) :: u32)"

text \<open>\<open>std::string(info.host)\<close> reads up to the first zero byte; when the structure has none, beyond it.\<close>

definition info_host :: "u8 list \<Rightarrow> string option" where
  "info_host info = (if 0 \<in> set info then Some (str_of_bytes (takeWhile (\<lambda>b. b \<noteq> 0) info)) else None)"

definition free_slot :: "string list \<Rightarrow> int list \<Rightarrow> string \<Rightarrow> nat option" where
  "free_slot hostnames port_table host =
     find (\<lambda>r. port_table ! r = -1 \<and> host = hostnames ! r) [1..<length hostnames]"

text \<open>One round per worker: \<open>Inl\<close> is the error of a failed \<open>accept\<close>, \<open>Inr\<close> the port table and the
  sockets of the workers. The results of the transfers are ignored.\<close>

fun master_loop ::
    "'f os \<Rightarrow> u8 list \<Rightarrow> string list \<Rightarrow> int \<Rightarrow> nat \<Rightarrow> int list \<Rightarrow> int list \<Rightarrow> 'f \<Rightarrow> ((int + int list \<times> int list) \<times> 'f) option" where
  "master_loop os junk hostnames fd 0 port_table comms f = Some (Inr (port_table, comms), f)"
| "master_loop os junk hostnames fd (Suc k) port_table comms f =
     do { (comm, f1) \<leftarrow> sock_accept os fd 20000 f;
          if comm < 0 then Some (Inl comm, f1)
          else do {
            ((_, info), f2) \<leftarrow> sock_recv os comm junk f1;
            host \<leftarrow> info_host info;
            let (assigned, table) =
              (case free_slot hostnames port_table host of
                 None \<Rightarrow> (-2, port_table) | Some r \<Rightarrow> (int r, port_table[r := info_port info]));
            (_, f3) \<leftarrow> sock_send os comm (le_bytes 4 (word_of_int assigned :: u32)) f2;
            master_loop os junk hostnames fd k table (comms @ [comm]) f3 } }"

definition table_bytes :: "int list \<Rightarrow> u8 list" where
  "table_bytes table = concat (map (\<lambda>p. le_bytes 4 (word_of_int p :: u32)) table)"

fun table_of_bytes :: "nat \<Rightarrow> u8 list \<Rightarrow> int list" where
  "table_of_bytes 0 bs = []"
| "table_of_bytes (Suc n) bs = sint (le_word (take 4 bs) :: u32) # table_of_bytes n (drop 4 bs)"

fun send_tables :: "'f os \<Rightarrow> int list \<Rightarrow> int list \<Rightarrow> 'f \<Rightarrow> 'f option" where
  "send_tables os table [] f = Some f"
| "send_tables os table (comm # comms) f =
     do { (_, f1) \<leftarrow> sock_send os comm (table_bytes table) f;
          send_tables os table comms (snd (sock_close os comm f1)) }"

text \<open>The coordination phase: \<open>Inl\<close> is an early return, after which the mesh server is closed; \<open>Inr\<close> the
  rank and the port table.\<close>

definition group_master ::
    "'f os \<Rightarrow> u8 list \<Rightarrow> string list \<Rightarrow> int \<Rightarrow> int \<Rightarrow> 'f \<Rightarrow> ((int + int \<times> int list) \<times> 'f) option" where
  "group_master os junk hostnames my_port master_fd f =
     do { (out, f1) \<leftarrow> master_loop os junk hostnames master_fd (length hostnames - 1)
                         ((replicate (length hostnames) (-1))[0 := my_port]) [] f;
          case out of
            Inl err \<Rightarrow> Some (Inl err, snd (sock_close os master_fd f1))
          | Inr (table, comms) \<Rightarrow>
              do { f2 \<leftarrow> send_tables os table comms f1;
                   Some (Inr (0, table), snd (sock_close os master_fd f2)) } }"

definition group_worker ::
    "'f os \<Rightarrow> u8 list \<Rightarrow> string list \<Rightarrow> int \<Rightarrow> int \<Rightarrow> string \<Rightarrow> 'f \<Rightarrow> ((int + int \<times> int list) \<times> 'f) option" where
  "group_worker os junk hostnames coord_port my_port my_hostname f =
     do { (comm, f1) \<leftarrow> client_init os (hd hostnames) coord_port 20000 False f;
          if comm < 0 then Some (Inl comm, f1)
          else do {
            (_, f2) \<leftarrow> sock_send os comm (rank_info_bytes junk my_hostname my_port) f1;
            ((_, rank), f3) \<leftarrow> sock_recv os comm (le_bytes 4 (word_of_int (-1) :: u32)) f2;
            let my_rank = sint (le_word rank :: u32);
            if my_rank < 0 then Some (Inl (- LFI_GROUP_NO_SELF), snd (sock_close os comm f3))
            else do {
              ((_, table), f4) \<leftarrow> sock_recv os comm (table_bytes (replicate (length hostnames) (-1))) f3;
              Some (Inr (my_rank, table_of_bytes (length hostnames) table), snd (sock_close os comm f4)) } } }"

definition group_coordinate ::
    "'f os \<Rightarrow> u8 list \<Rightarrow> string list \<Rightarrow> int \<Rightarrow> int \<Rightarrow> 'f \<Rightarrow> ((int + int \<times> int list) \<times> 'f) option" where
  "group_coordinate os junk hostnames coord_port my_port f =
     (let my_hostname = get_host_name os f;
          ((master_fd, _), f1) = (if my_hostname = hd hostnames then server_init os '''' coord_port f else ((-1, 0), f))
      in if master_fd \<ge> 0 then group_master os junk hostnames my_port master_fd f1
         else group_worker os junk hostnames coord_port my_port my_hostname f1)"

text \<open>The mesh: lower ranks are connected to, from higher ranks a connection is accepted. The first
  negative number ends the loop.\<close>

fun group_mesh ::
    "nat \<Rightarrow> 'f os \<Rightarrow> 'f world \<Rightarrow> string list \<Rightarrow> int list \<Rightarrow> int \<Rightarrow> int \<Rightarrow> nat list \<Rightarrow> int list \<Rightarrow> 'f lfi \<Rightarrow>
       ((int \<times> int list) \<times> 'f lfi) option" where
  "group_mesh d os w hostnames table mesh_fd my_rank [] ranks s = Some ((0, ranks), s)"
| "group_mesh d os w hostnames table mesh_fd my_rank (j # js) ranks s =
     (if int j = my_rank then group_mesh d os w hostnames table mesh_fd my_rank js ranks s
      else do {
        (c, s1) \<leftarrow> (if int j < my_rank then lfi_client_create_t d os w (hostnames ! j) (table ! j) 2000 s
                    else lfi_server_accept_t d os w mesh_fd 2000 s);
        if c < 0 then Some ((c, ranks[j := c]), s1)
        else group_mesh d os w hostnames table mesh_fd my_rank js (ranks[j := c]) s1 })"

definition lfi_group_create ::
    "nat \<Rightarrow> 'f os \<Rightarrow> 'f world \<Rightarrow> u8 list \<Rightarrow> string list option \<Rightarrow> 'f lfi \<Rightarrow> ((int \<times> lfi_group) \<times> 'f lfi) option" where
  "lfi_group_create d os w junk hosts s =
     (let g0 = \<lparr>gr_size = 0, gr_ranks = None, gr_rank = -1\<rparr>
      in case hosts of
           None \<Rightarrow> Some ((- LFI_GROUP_INVAL, g0), s)
         | Some hostnames \<Rightarrow>
             if hostnames = [] then Some ((- LFI_GROUP_INVAL, g0), s)
             else do {
               let n = length hostnames;
               let ((mesh_fd, my_port), s1) = lfi_server_create os None 0 s;
               if mesh_fd < 0 then Some ((mesh_fd, g0), s1)
               else do {
                 (out, f2) \<leftarrow> group_coordinate os junk hostnames (LFI_group_port (l_env s1)) my_port (l_fab s1);
                 let s2 = s1\<lparr>l_fab := f2\<rparr>;
                 case out of
                   Inl err \<Rightarrow> Some ((err, g0), snd (lfi_server_close os mesh_fd s2))
                 | Inr (my_rank, table) \<Rightarrow> do {
                     ((err, ranks), s3) \<leftarrow>
                       group_mesh d os w hostnames table mesh_fd my_rank [0..<n] (replicate n (-1)) s2;
                     let g = \<lparr>gr_size = n, gr_ranks = Some ranks, gr_rank = my_rank\<rparr>;
                     let s4 = snd (lfi_server_close os mesh_fd s3);
                     if err < 0 then do { ((_, g1), s5) \<leftarrow> lfi_group_close d w g s4; Some ((err, g1), s5) }
                     else do { (_, s5) \<leftarrow> lfi_barrier d os w g s4; Some ((LFI_SUCCESS, g), s5) } } } })"

subsection \<open>What the root computes\<close>

definition type_range :: "op_type_enum \<Rightarrow> int \<Rightarrow> bool" where
  "type_range ty x \<longleftrightarrow>
     (let b = 8 * type_bytes ty in if type_signed ty then - (2 ^ (b - 1)) \<le> x \<and> x < 2 ^ (b - 1) else 0 \<le> x \<and> x < 2 ^ b)"

text \<open>The reduction of a list of numbers, as mathematics has it: the least, the greatest, the sum, the
  product; modulo the size of an unsigned type, and for a signed type only when no partial result
  leaves the type.\<close>

definition folded :: "op_type_enum \<Rightarrow> (int list \<Rightarrow> int) \<Rightarrow> int list \<Rightarrow> int option" where
  "folded ty f vs =
     (if \<not> type_signed ty then Some (f vs mod 2 ^ (8 * type_bytes ty))
      else if \<forall>k\<in>{1..length vs}. type_range ty (f (take k vs)) then Some (f vs) else None)"

definition reduction :: "op_type_enum \<Rightarrow> op_enum \<Rightarrow> int list \<Rightarrow> int option" where
  "reduction ty op vs =
     (case op of
        OP_MIN \<Rightarrow> Some (Min (set vs))
      | OP_MAX \<Rightarrow> Some (Max (set vs))
      | OP_SUM \<Rightarrow> folded ty sum_list vs
      | OP_PROD \<Rightarrow> folded ty prod_list vs)"

lemma val_of_range: "type_range ty (val_of ty bs)"
  using sint_ge [where 'a = 32] sint_lt [where 'a = 32] sint_ge [where 'a = 64] sint_lt [where 'a = 64]
    uint_lt2p [where 'a = 32] uint_lt2p [where 'a = 64]
  by (cases ty) (auto simp: type_range_def val_of_def type_bytes_def type_signed_def Let_def)

lemma in_type_range:
  "in_type ty x = (if type_signed ty then (if type_range ty x then Some x else None) else Some (x mod 2 ^ (8 * type_bytes ty)))"
  by (simp add: in_type_def type_range_def Let_def)

lemma bytes_of_val_back: "type_range ty v \<Longrightarrow> val_of ty (bytes_of_val ty v) = v"
proof -
  assume v: "type_range ty v"
  have "le_word (le_bytes 4 (word_of_int v :: u64)) = (word_of_int v :: u32)"
  proof -
    have "le_bytes 4 (word_of_int v :: u64) = le_bytes 4 (word_of_int v :: u32)"
      unfolding le_bytes_def
      by (rule map_cong [OF refl], rule bit_word_eqI) (auto simp: bit_simps)
    then show ?thesis by simp
  qed
  then show ?thesis using v
    by (cases ty) (simp_all add: type_range_def val_of_def bytes_of_val_def type_bytes_def type_signed_def Let_def
        signed_of_int unsigned_of_int signed_take_bit_int_eq_self take_bit_int_eq_self)
qed

lemma operate_loop_min: "operate_loop ty (Some OP_MIN) r bufs = Some (Min (set (r # map (val_of ty) bufs)))"
proof (induction bufs arbitrary: r)
  case (Cons b bufs)
  have "Min (insert (min (val_of ty b) r) (val_of ty ` set bufs)) = Min (insert r (insert (val_of ty b) (val_of ty ` set bufs)))"
    by (cases "bufs = []") (auto simp: min.assoc min.commute min.left_commute)
  moreover have "operate_one ty (Some OP_MIN) r (val_of ty b) = Some (min (val_of ty b) r)" by (simp add: min_def)
  ultimately show ?case using Cons [of "min (val_of ty b) r"] by (simp del: operate_one.simps)
qed simp

lemma operate_loop_max: "operate_loop ty (Some OP_MAX) r bufs = Some (Max (set (r # map (val_of ty) bufs)))"
proof (induction bufs arbitrary: r)
  case (Cons b bufs)
  have "Max (insert (max (val_of ty b) r) (val_of ty ` set bufs)) = Max (insert r (insert (val_of ty b) (val_of ty ` set bufs)))"
    by (cases "bufs = []") (auto simp: max.assoc max.commute max.left_commute)
  moreover have "operate_one ty (Some OP_MAX) r (val_of ty b) = Some (max (val_of ty b) r)" by (simp add: max_def)
  ultimately show ?case using Cons [of "max (val_of ty b) r"] by (simp del: operate_one.simps)
qed simp

text \<open>Sum and product go the same way.\<close>

fun arith :: "op_enum \<Rightarrow> int \<Rightarrow> int \<Rightarrow> int" where
  "arith OP_PROD a b = a * b"
| "arith _ a b = a + b"

lemma operate_loop_wrap:
  assumes "op = OP_SUM \<or> op = OP_PROD" and "\<not> type_signed ty"
  shows "operate_loop ty (Some op) (r mod 2 ^ (8 * type_bytes ty)) bufs =
     Some (foldl (arith op) r (map (val_of ty) bufs) mod 2 ^ (8 * type_bytes ty))"
proof (induction bufs arbitrary: r)
  case (Cons b bufs)
  let ?m = "2 ^ (8 * type_bytes ty) :: int"
  have "operate_one ty (Some op) (r mod ?m) (val_of ty b) = Some (arith op r (val_of ty b) mod ?m)"
    using assms by (auto simp: in_type_range mod_add_left_eq mod_mult_left_eq)
  then show ?case using Cons [of "arith op r (val_of ty b)"] by simp
qed simp

lemma operate_loop_exact:
  assumes "op = OP_SUM \<or> op = OP_PROD" and "type_signed ty"
  shows "operate_loop ty (Some op) r bufs =
     (if \<forall>k\<in>{1..length bufs}. type_range ty (foldl (arith op) r (take k (map (val_of ty) bufs)))
      then Some (foldl (arith op) r (map (val_of ty) bufs)) else None)"
proof (induction bufs arbitrary: r)
  case (Cons b bufs)
  let ?r = "arith op r (val_of ty b)"
  have one: "operate_one ty (Some op) r (val_of ty b) = (if type_range ty ?r then Some ?r else None)"
    using assms by (auto simp: in_type_range)
  have "(\<forall>k\<in>{1..length (b # bufs)}. P k) \<longleftrightarrow> P 1 \<and> (\<forall>k\<in>{1..length bufs}. P (Suc k))" for P
    by (auto simp: Ball_def) (metis One_nat_def Suc_le_mono le_zero_eq not0_implies_Suc not_less_eq_eq)
  from this [of "\<lambda>k. type_range ty (foldl (arith op) r (take k (map (val_of ty) (b # bufs))))"]
  show ?case using one Cons [of ?r] by simp
qed simp

lemma foldl_arith:
  "foldl (arith OP_SUM) r vs = sum_list (r # vs)" "foldl (arith OP_PROD) r vs = prod_list (r # vs)"
  by (induction vs arbitrary: r) (simp_all add: ac_simps)

lemma take_vals: "(\<forall>k\<in>{1..length vs}. type_range ty (f (v # take k vs))) \<Longrightarrow> type_range ty (f [v]) \<Longrightarrow>
    \<forall>k\<in>{1..length (v # vs)}. type_range ty (f (take k (v # vs)))"
proof
  fix k assume *: "\<forall>k\<in>{1..length vs}. type_range ty (f (v # take k vs))" "type_range ty (f [v])" "k \<in> {1..length (v # vs)}"
  then show "type_range ty (f (take k (v # vs)))" by (cases k; cases "k = 1") auto
qed

lemma operate_reduction: "operate ty (Some op) data bufs = reduction ty op (val_of ty data # map (val_of ty) bufs)"
proof -
  let ?v = "val_of ty data" and ?vs = "map (val_of ty) bufs"
  have small: "type_range ty ?v" by (rule val_of_range)
  have arith: "operate_loop ty (Some op) ?v bufs = folded ty f (?v # ?vs)"
    if "op = OP_SUM \<and> f = sum_list \<or> op = OP_PROD \<and> f = prod_list" for f
  proof (cases "type_signed ty")
    case True
    have fold: "foldl (arith op) ?v xs = f (?v # xs)" for xs using that foldl_arith by auto
    have "f [?v] = ?v" using that by auto
    then have eq: "(\<forall>k\<in>{1..length bufs}. type_range ty (f (?v # take k ?vs))) \<longleftrightarrow>
        (\<forall>k\<in>{1..length (?v # ?vs)}. type_range ty (f (take k (?v # ?vs))))"
      using take_vals [of ?vs ty f ?v] small by (fastforce simp: Ball_def)
    have op: "op = OP_SUM \<or> op = OP_PROD" using that by auto
    show ?thesis
      unfolding folded_def operate_loop_exact [OF op True] fold by (simp only: eq True not_True_eq_False if_False)
  next
    case False
    then have "?v mod 2 ^ (8 * type_bytes ty) = ?v" using small by (simp add: type_range_def Let_def)
    then show ?thesis
      using operate_loop_wrap [of op ty ?v bufs] that False by (auto simp: folded_def foldl_arith)
  qed
  show ?thesis
    using arith [of sum_list] arith [of prod_list]
    by (cases op) (simp_all add: operate_def reduction_def operate_loop_min operate_loop_max)
qed


text \<open>Memory that keeps what was written to it.\<close>

definition mem_ok :: "'f mem \<Rightarrow> bool" where
  "mem_ok mem \<longleftrightarrow> (\<forall>a bs f. length bs \<le> 8 \<longrightarrow> mm_read mem a (length bs) (mm_write mem a bs f) = bs)"

lemma reduction_range:
  assumes "reduction ty op vs = Some v" and "vs \<noteq> []" and "\<And>x. x \<in> set vs \<Longrightarrow> type_range ty x"
  shows "type_range ty v"
proof -
  have "Min (set vs) \<in> set vs" "Max (set vs) \<in> set vs" using assms(2) by simp_all
  then have ends: "type_range ty (Min (set vs))" "type_range ty (Max (set vs))" using assms(3) by blast+
  have fold: "type_range ty v" if "folded ty f vs = Some v" for f
  proof (cases "type_signed ty")
    case True
    then have all: "\<forall>k\<in>{1..length vs}. type_range ty (f (take k vs))" and v: "v = f vs"
      using that by (auto simp: folded_def split: if_splits)
    have "length vs \<in> {1..length vs}" using assms(2) by (cases vs) auto
    with all have "type_range ty (f (take (length vs) vs))" by blast
    then show ?thesis using v by simp
  next
    case False
    then show ?thesis using that by (auto simp: folded_def type_range_def Let_def)
  qed
  show ?thesis using assms(1) ends fold by (cases op) (auto simp: reduction_def)
qed

text \<open>C23. The reduction at the root is the mathematical one. For every type and every operation the
  root stores, at the place of its own value, the minimum, maximum, sum or product of its value and of
  those in the buffers: modulo the size of the type for unsigned numbers, exact for signed ones; and
  it is undefined exactly when a partial sum or product leaves a signed type.\<close>

theorem reduce_root_value:
  assumes "mem_ok mem"
    and "vs = val_of t (mm_read mem data (type_bytes t) (l_fab s)) #
           map (\<lambda>k. val_of t (mm_read mem (bufs + word_of_nat (8 * k)) 8 (l_fab s))) [0..<n - 1]"
  shows "case reduction t op vs of
       None \<Rightarrow> reduce_root mem n data bufs (Some t) (Some op) s = None
     | Some v \<Rightarrow> (\<exists>s'. reduce_root mem n data bufs (Some t) (Some op) s = Some (0, s') \<and>
                   val_of t (mm_read mem data (type_bytes t) (l_fab s')) = v)"
proof -
  let ?bufs = "map (\<lambda>k. mm_read mem (bufs + word_of_nat (8 * k)) 8 (l_fab s)) [0..<n - 1]"
  have op: "operate t (Some op) (mm_read mem data (type_bytes t) (l_fab s)) ?bufs = reduction t op vs"
    by (simp add: operate_reduction assms(2) comp_def)
  show ?thesis
  proof (cases "reduction t op vs")
    case None
    then show ?thesis using op by (simp add: reduce_root_def)
  next
    case (Some v)
    have "\<And>x. x \<in> set vs \<Longrightarrow> type_range t x" using assms(2) val_of_range by auto
    then have "type_range t v" using reduction_range [OF Some] assms(2) by blast
    moreover have "mm_read mem data (type_bytes t) (mm_write mem data (bytes_of_val t v) (l_fab s)) = bytes_of_val t v"
      using assms(1) [unfolded mem_ok_def, rule_format, of "bytes_of_val t v" data "l_fab s"]
      by (simp add: bytes_of_val_def type_bytes_def split: op_type_enum.splits)
    ultimately show ?thesis using op Some by (simp add: reduce_root_def bytes_of_val_back)
  qed
qed


text \<open>A memory of bytes, in which the root has 5 and a member has sent 7.\<close>

definition byte_mem :: "(u64 \<Rightarrow> u8) mem" where
  "byte_mem =
    \<lparr>mm_read = (\<lambda>a n f. map (\<lambda>i. f (a + word_of_nat i)) [0..<n]),
     mm_write = (\<lambda>a bs f x. if unat (x - a) < length bs then bs ! unat (x - a) else f x)\<rparr>"

lemma byte_mem_ok: "mem_ok byte_mem"
proof -
  have "mm_read byte_mem a (length bs) (mm_write byte_mem a bs f) = bs" if "length bs \<le> 8" for a bs f
  proof (rule nth_equalityI)
    fix i assume "i < length (mm_read byte_mem a (length bs) (mm_write byte_mem a bs f))"
    then have "unat (word_of_nat i :: u64) = i" "i < length bs"
      using that by (simp_all add: byte_mem_def unat_of_nat take_bit_nat_eq_self)
    then show "mm_read byte_mem a (length bs) (mm_write byte_mem a bs f) ! i = bs ! i" by (simp add: byte_mem_def)
  qed (simp add: byte_mem_def)
  then show ?thesis by (simp add: mem_ok_def)
qed

theorem reduce_root_value_witness:
  "\<exists>s s' :: (u64 \<Rightarrow> u8) lfi. reduce_root byte_mem 2 100 200 (Some T_UINT32) (Some OP_SUM) s = Some (0, s') \<and>
     val_of T_UINT32 (mm_read byte_mem 100 4 (l_fab s')) = 12"
proof -
  let ?s = "lfi_new env_default (\<lambda>x :: u64. if x = 100 then 5 else if x = 200 then 7 else 0 :: u8)"
  have vs: "[5, 7] = val_of T_UINT32 (mm_read byte_mem 100 (type_bytes T_UINT32) (l_fab ?s)) #
      map (\<lambda>k. val_of T_UINT32 (mm_read byte_mem (200 + word_of_nat (8 * k)) 8 (l_fab ?s))) [0..<2 - 1]"
    by (simp add: byte_mem_def val_of_def type_bytes_def type_signed_def le_word_def lfi_new_def upt_rec)
  have "reduction T_UINT32 OP_SUM [5, 7] = Some 12" "type_bytes T_UINT32 = 4"
    by (simp_all add: reduction_def folded_def type_bytes_def type_signed_def)
  then show ?thesis using reduce_root_value [OF byte_mem_ok vs, of OP_SUM] by auto
qed

subsection \<open>Plans of a whole group\<close>

text \<open>Sizes and tags of what a member sends to another one, and of what it expects from it.\<close>

definition sends_to :: "nat \<Rightarrow> coll_post list \<Rightarrow> (u64 \<times> u32) list" where
  "sends_to j ps = List.map_filter (\<lambda>p. case p of CSend i _ n tag \<Rightarrow> if i = int j then Some (n, tag) else None | _ \<Rightarrow> None) ps"

definition recvs_from :: "nat \<Rightarrow> coll_post list \<Rightarrow> (u64 \<times> u32) list" where
  "recvs_from i ps = List.map_filter (\<lambda>p. case p of CRecv k _ n tag \<Rightarrow> if k = int i then Some (n, tag) else None | _ \<Rightarrow> None) ps"

lemma map_filter_append [simp]: "List.map_filter f (xs @ ys) = List.map_filter f xs @ List.map_filter f ys"
  by (simp add: List.map_filter_def)

lemma posts_simps [simp]:
  "sends_to j [] = []" "recvs_from j [] = []"
  "sends_to j (CSend i p n t # ps) = (if i = int j then (n, t) # sends_to j ps else sends_to j ps)"
  "sends_to j (CRecv i p n t # ps) = sends_to j ps"
  "recvs_from j (CRecv i p n t # ps) = (if i = int j then (n, t) # recvs_from j ps else recvs_from j ps)"
  "recvs_from j (CSend i p n t # ps) = recvs_from j ps"
  by (simp_all add: sends_to_def recvs_from_def List.map_filter_def)

text \<open>A plan with the same posts for each of several members.\<close>

lemma posts_each:
  assumes "distinct is"
  shows "sends_to j (map (\<lambda>i. CSend (int i) p n t) is) = (if j \<in> set is then [(n, t)] else [])"
    and "recvs_from j (map (\<lambda>i. CSend (int i) p n t) is) = []"
    and "sends_to j (concat (map (\<lambda>i. [CRecv (int i) p n t, CSend (int i) p n t]) is)) = (if j \<in> set is then [(n, t)] else [])"
    and "recvs_from j (concat (map (\<lambda>i. [CRecv (int i) p n t, CSend (int i) p n t]) is)) = (if j \<in> set is then [(n, t)] else [])"
  using assms by (induction "is") auto

lemma posts_gather:
  assumes "distinct is"
  shows "sends_to j (map (\<lambda>(k, i). CRecv (int i) (q k) n t) (enumerate m is)) = []"
    and "recvs_from j (map (\<lambda>(k, i). CRecv (int i) (q k) n t) (enumerate m is)) = (if j \<in> set is then [(n, t)] else [])"
  using assms by (induction "is" arbitrary: m) auto

lemma others_set [simp]: "set (others n root) = {i. i < n \<and> int i \<noteq> root}" "distinct (others n root)"
  by (auto simp: others_def)

text \<open>C25. The plans of a collective fit together. In a group of any size, what one member sends to
  another in a barrier, a broadcast (with the same root) or either half of a reduction is, in number,
  size and tag, what the other one expects from it: no message is without a receive and no receive
  waits for a message that nobody sends.\<close>

theorem coll_plans_match:
  assumes "i < n" and "j < n" and "i \<noteq> j"
  shows "sends_to j (barrier_plan n (int i) p) = recvs_from i (barrier_plan n (int j) q) \<and>
     sends_to j (broadcast_plan n (int i) root p len) = recvs_from i (broadcast_plan n (int j) root q len) \<and>
     sends_to j (gather_plan n (int i) a b len) = recvs_from i (gather_plan n (int j) a' b' len) \<and>
     sends_to j (scatter_plan n (int i) a len) = recvs_from i (scatter_plan n (int j) a' len)"
  using assms
  by (simp add: barrier_plan_def broadcast_plan_def gather_plan_def scatter_plan_def posts_each posts_gather)

theorem coll_plans_match_witness:
  "sends_to 2 (broadcast_plan 4 1 1 (Mem 0) 64) = [(64, LFI_TAG_BROADCAST)] \<and>
   sends_to 2 (broadcast_plan 4 1 1 (Mem 0) 64) = recvs_from 1 (broadcast_plan 4 2 1 (Mem 8) 64)"
  using coll_plans_match [of 1 4 2 "Mem 0" "Mem 8" 1 64]
  by (simp add: broadcast_plan_def posts_each others_def)

subsection \<open>Synchronisation by a barrier\<close>

text \<open>
  Members enter the barrier, which posts their plan, and leave it. A receive completes when the member
  it names has sent, that is, has entered; a send of no bytes needs no partner. The sets are the
  members that have entered and those that have left.
\<close>

definition may_leave :: "nat \<Rightarrow> nat set \<Rightarrow> nat \<Rightarrow> bool" where
  "may_leave n entered i \<longleftrightarrow>
     (\<forall>p\<in>set (barrier_plan n (int i) (Mem 0)). case p of CRecv j _ _ _ \<Rightarrow> nat j \<in> entered | CSend _ _ _ _ \<Rightarrow> True)"

inductive barrier_run :: "nat \<Rightarrow> nat set \<Rightarrow> nat set \<Rightarrow> bool" for n where
  br_start: "barrier_run n {} {}"
| br_enter: "barrier_run n E L \<Longrightarrow> i < n \<Longrightarrow> barrier_run n (insert i E) L"
| br_leave: "barrier_run n E L \<Longrightarrow> i \<in> E \<Longrightarrow> may_leave n E i \<Longrightarrow> barrier_run n E (insert i L)"

lemma may_leave_iff: "may_leave n E i \<longleftrightarrow> (if i = 0 then {1..<n} \<subseteq> E else 0 \<in> E)"
  by (auto simp: may_leave_def barrier_plan_def)

lemma barrier_root_last: "barrier_run n E L \<Longrightarrow> E \<subseteq> {..<n} \<and> L \<subseteq> E \<and> (0 \<in> L \<longrightarrow> E = {..<n})"
proof (induction rule: barrier_run.induct)
  case (br_leave E L i)
  have "0 \<in> E \<Longrightarrow> {1..<n} \<subseteq> E \<Longrightarrow> E = {..<n}" if "E \<subseteq> {..<n}"
    using that by (auto simp: subset_iff) (metis Suc_leI atLeastLessThan_iff gr0I)
  then show ?case using br_leave by (auto simp: may_leave_iff split: if_splits)
qed auto

text \<open>C37. The barrier holds back only the root. The root leaves after every member has entered; but the
  root posts its answers together with its receives, so every other member leaves as soon as it and the
  root have entered. In every group of three or more, member 1 can pass the barrier before member 2
  has reached it.\<close>

theorem barrier_not_a_barrier:
  "(\<forall>E L. barrier_run n E L \<longrightarrow> 0 \<in> L \<longrightarrow> E = {..<n}) \<and>
   (3 \<le> n \<longrightarrow> (\<exists>E L. barrier_run n E L \<and> 1 \<in> L \<and> 2 \<notin> E))"
proof -
  have "barrier_run n {1, 0} {1}" if "3 \<le> n"
  proof -
    have "barrier_run n {1, 0} {}" using that by (intro br_enter br_start) simp_all
    then show ?thesis by (rule br_leave) (simp_all add: may_leave_iff)
  qed
  then have "3 \<le> n \<Longrightarrow> \<exists>E L. barrier_run n E L \<and> 1 \<in> L \<and> 2 \<notin> E"
    by (intro exI [of _ "{1, 0}"] exI [of _ "{1}"]) simp
  then show ?thesis using barrier_root_last by blast
qed

theorem barrier_not_a_barrier_witness: "\<exists>E L. barrier_run 3 E L \<and> 1 \<in> L \<and> 2 \<notin> E"
  using barrier_not_a_barrier [of 3] by simp

subsection \<open>Members that are gone\<close>

lemma those_None: "None \<in> set qs \<Longrightarrow> those qs = None"
  by (induction qs) (auto split: option.splits)

lemma coll_end_null: "None \<in> set reqs \<Longrightarrow> coll_end d w ret reqs s = None"
proof -
  assume null: "None \<in> set reqs"
  then have "wait_and_free d w reqs t = None" for t
    by (auto simp: wait_and_free_def lfi_wait_all_def lfi_wait_wrapper_def those_None)
  then show ?thesis by (cases "if ret < 0 then coll_cancel_all d w reqs s else Some s") (simp_all add: coll_end_def)
qed

lemma run_posts_null:
  assumes "rank_at g (post_peer p) = Some c" and "lfi_request_create w c s = Some (None, s1)"
  shows "run_posts w g (p # ps) reqs s = Some ((- LFI_NULL_REQUEST, reqs @ [None]), s1)"
proof -
  have "post_one w p None s1 = Some (- LFI_NULL_REQUEST, s1)"
    by (cases p) (simp_all add: lfi_tsend_async_def lfi_trecv_async_def on_request_def)
  then show ?thesis using assms by (simp add: lfi_errors)
qed

text \<open>A collective on a member that has been closed dereferences a null pointer. When a request for a
  member cannot be created, the post fails and the collective goes to its error path, which cancels
  the requests and then waits for all of them, the null one included: no collective that meets such a
  member returns.\<close>

theorem coll_null_request:
  assumes "2 \<le> gr_size g" and "peer = (if gr_rank g = 0 then 1 else 0)" and "rank_at g peer = Some c"
    and "lfi_request_create w c s = Some (None, s1)"
  shows "lfi_barrier d os w g s = None \<and> lfi_broadcast d w g 0 data len s = None"
proof -
  have "others (gr_size g) 0 = [1..<gr_size g]"
    using assms(1) by (simp add: others_def upt_conv_Cons)
  then have first: "others (gr_size g) 0 = 1 # [2..<gr_size g]" using assms(1) by (simp add: upt_conv_Cons numeral_2_eq_2)
  have "\<exists>b ps. barrier_plan (gr_size g) (gr_rank g) (Mem (os_buf_addr os)) = b # ps \<and> post_peer b = peer"
    "\<exists>b ps. broadcast_plan (gr_size g) (gr_rank g) 0 data len = b # ps \<and> post_peer b = peer"
    using assms(2) first by (simp_all add: barrier_plan_def broadcast_plan_def)
  then obtain b ps b' ps' where plans: "barrier_plan (gr_size g) (gr_rank g) (Mem (os_buf_addr os)) = b # ps" "post_peer b = peer"
    "broadcast_plan (gr_size g) (gr_rank g) 0 data len = b' # ps'" "post_peer b' = peer" by blast
  note null = run_posts_null [where g = g and reqs = "[]", OF _ assms(4)]
  show ?thesis
    using assms(1,3) plans null [of b ps] null [of b' ps']
    by (simp add: lfi_barrier_def lfi_broadcast_def coll_end_null)
qed

text \<open>Member 0 of the group has the number 5, which the library does not know.\<close>

theorem coll_null_request_witness:
  "lfi_barrier 1 sample_os sample_world \<lparr>gr_size = 2, gr_ranks = Some [5, -1], gr_rank = 1\<rparr> sample_lfi = None"
proof -
  let ?g = "\<lparr>gr_size = 2, gr_ranks = Some [5, -1], gr_rank = 1\<rparr>"
  have "lfi_request_create sample_world 5 sample_lfi = Some (None, sample_lfi)"
    by (simp add: lfi_request_create_def get_comm_simps get_comm_internal_def u32_of_def sample_lfi_def upd_ep_def set_comm_def lfi_new_def)
  then show ?thesis using coll_null_request [of ?g 0 5 sample_world sample_lfi sample_lfi 1 sample_os] by (simp add: rank_at_def)
qed

text \<open>Closing a group leaves its size, so that a second call reads the array that was freed.\<close>

lemma group_close_twice:
  assumes "lfi_group_close d w g s = Some ((ret, g'), s')" and "gr_size g \<noteq> 0"
  shows "lfi_group_close d w g' s' = None \<and> lfi_group_size g' = (- LFI_GROUP_NO_INIT, None)"
proof -
  have g': "g' = g\<lparr>gr_ranks := None\<rparr>" using assms(1) by (auto simp: lfi_group_close_def split: bind_splits)
  have "[0..<gr_size g'] = 0 # [1..<gr_size g']" using g' assms(2) by (simp add: upt_conv_Cons)
  then show ?thesis using g' by (simp add: lfi_group_close_def rank_at_def lfi_group_size_def group_ready_def)
qed

subsection \<open>Who is who in a new group\<close>

text \<open>A listening socket on which connections keep arriving, from whomever.\<close>

definition arrivals :: "'f os \<Rightarrow> int \<Rightarrow> bool" where
  "arrivals os fd \<longleftrightarrow> (\<forall>f. \<exists>sk f'. sock_accept os fd 2000 f = Some (sk, f') \<and> 0 \<le> sk)"

lemma accept_next:
  assumes "arrivals os fd" and "LFI_async_connection (l_env s)" and "l_rank_counter s = word_of_nat c" and "c < 2 ^ 31"
  obtains t where "lfi_server_accept_t d os w fd 2000 s = Some (int c, t)" "LFI_async_connection (l_env t)"
    "l_rank_counter t = word_of_nat (Suc c)"
proof -
  obtain sk f where f: "sock_accept os fd 2000 (l_fab s) = Some (sk, f)" "0 \<le> sk" using assms(1) unfolding arrivals_def by blast
  have "uint (word_of_nat c :: u32) = int c" using assms(4) by (simp add: unsigned_of_nat take_bit_nat_eq_self)
  moreover have "i32 (int c) = int c" using assms(4) by (intro i32_small) simp_all
  ultimately have "i32 (uint (l_rank_counter s)) = int c" using assms(3) by simp
  then show ?thesis
    using that f assms(2,3) by (simp add: lfi_server_accept_t_def start_connection_def reserve_comm_def Let_def)
qed

lemma mesh_accepts:
  assumes "arrivals os fd"
  shows "0 < j \<Longrightarrow> j \<le> n \<Longrightarrow> length ranks = n \<Longrightarrow> LFI_async_connection (l_env s) \<Longrightarrow> l_rank_counter s = word_of_nat c \<Longrightarrow>
     c + (n - j) < 2 ^ 31 \<Longrightarrow>
     \<exists>t. group_mesh d os w hostnames table fd 0 [j..<n] ranks s = Some ((0, take j ranks @ map int [c..<c + (n - j)]), t)"
proof (induction "n - j" arbitrary: j ranks s c)
  case 0
  then show ?case by simp
next
  case (Suc k)
  then have less: "j < n" by simp
  obtain s1 where s1: "lfi_server_accept_t d os w fd 2000 s = Some (int c, s1)" "LFI_async_connection (l_env s1)"
    "l_rank_counter s1 = word_of_nat (Suc c)"
    by (rule accept_next [OF assms Suc.prems(4,5)]) (use Suc.prems(6) in auto)
  have "\<exists>t. group_mesh d os w hostnames table fd 0 [Suc j..<n] (ranks[j := int c]) s1 =
      Some ((0, take (Suc j) (ranks[j := int c]) @ map int [Suc c..<Suc c + (n - Suc j)]), t)"
    using Suc.hyps(2) Suc.prems less s1 by (intro Suc.hyps(1)) auto
  moreover have "take (Suc j) (ranks[j := int c]) = take j ranks @ [int c]"
    using less Suc.prems(3) by (simp add: take_Suc_conv_app_nth)
  moreover have "c + (n - j) = Suc c + (n - Suc j)" using less by simp
  then have "[c..<c + (n - j)] = c # [Suc c..<Suc c + (n - Suc j)]" by (simp add: upt_conv_Cons del: upt_Suc)
  ultimately show ?case using less Suc.prems(1) s1(1) by (auto simp: upt_conv_Cons)
qed

text \<open>Ranks follow the order of arrival. With asynchronous connections, the member of rank 0 fills the
  slots of the others with the connections in the order in which they arrive, whoever they come from:
  the table is the same for every order of arrival, so slot \<open>j\<close> need not be the process of rank \<open>j\<close>.\<close>

theorem mesh_by_arrival:
  assumes "arrivals os fd" and "LFI_async_connection (l_env s)" and "l_rank_counter s = word_of_nat c"
    and "c + n < 2 ^ 31" and "0 < n"
  shows "\<exists>t. group_mesh d os w hostnames table fd 0 [0..<n] (replicate n (-1)) s =
     Some ((0, -1 # map int [c..<c + (n - 1)]), t)"
proof -
  have "\<exists>t. group_mesh d os w hostnames table fd 0 [1..<n] (replicate n (-1)) s =
      Some ((0, take 1 (replicate n (-1)) @ map int [c..<c + (n - 1)]), t)"
    using assms by (intro mesh_accepts) auto
  moreover have "take 1 (replicate n (-1 :: int)) = [-1]" using assms(5) by (simp add: take_replicate)
  moreover have "[0..<n] = 0 # [1..<n]" using assms(5) by (simp add: upt_conv_Cons)
  ultimately show ?thesis by simp
qed

theorem mesh_by_arrival_witness:
  "\<exists>t. group_mesh 1 sample_os sample_world [] [] 3 0 [0..<3] [-1, -1, -1] (sample_side 8 []) = Some ((0, [-1, 0, 1]), t)"
proof -
  have "arrivals sample_os 3"
    unfolding arrivals_def
    by (simp add: sock_accept_def accept_timeout_def sample_os_def sf_socket_def accept_loop.simps)
  moreover have "LFI_async_connection (l_env (sample_side 8 []))" "l_rank_counter (sample_side 8 []) = word_of_nat 0"
    by (simp_all add: sample_side_def lfi_new_def upd_ep_def env_default_def)
  ultimately have "\<exists>t. group_mesh 1 sample_os sample_world [] [] 3 0 [0..<3] (replicate 3 (-1)) (sample_side 8 []) =
      Some ((0, -1 # map int [0..<0 + (3 - 1)]), t)"
    by (rule mesh_by_arrival) simp_all
  then show ?thesis by (simp add: numeral_3_eq_3 upt_rec)
qed

end
