(* ===== verification/Reachable.thy ===== *)
theory Reachable
  imports Collectives
begin

text \<open>
  The states that a run of the library goes through, from the construction of the \<open>LFI\<close> object on, and
  the invariant that holds in all of them: the pool of contexts, the lists of monitored requests and
  the queues of pending operations are consistent, and a request's two ways of naming its communicator
  agree. The steps are the operations of the earlier theories, in any order.
\<close>

subsection \<open>The invariant\<close>

definition queues_ok :: "'f lfi \<Rightarrow> bool" where
  "queues_ok s \<longleftrightarrow> (\<forall>e b. vq_inv (queue_of b (ep_of e s)))"

definition names_ok :: "'f lfi \<Rightarrow> bool" where
  "names_ok s \<longleftrightarrow> (\<forall>r q. l_reqs s r = Some q \<longrightarrow> rq_comm q = rq_comm_id q) \<and>
     (\<forall>c m. the_comm c s = Some m \<longrightarrow> cm_rank_peer m = c)"

definition api_inv :: "'f lfi \<Rightarrow> bool" where
  "api_inv s \<longleftrightarrow> lfi_inv s \<and> queues_ok s \<and> names_ok s"

text \<open>A context that libfabric may still report: it was made and has not been returned.\<close>

definition outstanding :: "ctx \<Rightarrow> 'f lfi \<Rightarrow> bool" where
  "outstanding k s \<longleftrightarrow> k < l_next_ctx s \<and> k \<notin> set (l_free s)"

definition idle :: "rid \<Rightarrow> 'f lfi \<Rightarrow> bool" where
  "idle r s \<longleftrightarrow> (case l_reqs s r of None \<Rightarrow> False |
     Some q \<Rightarrow> rq_wait_context q = None \<and>
       (case the_comm (rq_comm_id q) s of None \<Rightarrow> False | Some m \<Rightarrow> cm_is_ready m \<noteq> NOT_READY))"

subsection \<open>Steps\<close>

text \<open>
  Connections: an identifier is reserved, its communicator created, its state changed. Requests: created
  on a communicator that is ready, given a callback, posted when idle, completed through a context that
  is outstanding, cancelled by the thread that drives the endpoint, freed when completed. Queued
  operations are handed to the fabric (injected sends apart, which complete on the spot). The
  fabric changes by itself, and so does everything of an endpoint but its queues: handles are opened,
  the leadership is taken and given up, callbacks are called.
\<close>

inductive api_step :: "'f world \<Rightarrow> 'f lfi \<Rightarrow> 'f lfi \<Rightarrow> bool" for w where
  st_reserve: "api_step w s (snd (reserve_comm s))"
| st_init: "init_comm w is_shm c s = Some (c', t) \<Longrightarrow> api_step w s t"
| st_ready: "api_step w s (set_ready c st s)"
| st_create: "the_comm (u32_of idn) s = Some m \<Longrightarrow> cm_is_ready m \<noteq> NOT_READY \<Longrightarrow>
     lfi_request_create w idn s = Some (req, t) \<Longrightarrow> api_step w s t"
| st_callback: "api_step w s (lfi_request_set_callback req func context s)"
| st_send: "idle r s \<Longrightarrow> async_send_internal w p n ty tag r b s = Some (ret, t) \<Longrightarrow> api_step w s t"
| st_recv: "idle r s \<Longrightarrow> async_recv_internal w p n ty' tag r b s = Some (ret, t) \<Longrightarrow> api_step w s t"
| st_rma: "idle r s \<Longrightarrow> async_rma ot pt w p n addr key r b s = Some (ret, t) \<Longrightarrow> api_step w s t"
| st_entry: "outstanding (cqe_context ent) s \<Longrightarrow> lookup_now (source_of (cqe_tag ent)) s \<Longrightarrow>
     (\<And>r q. get_request (cqe_context ent) s = Some r \<Longrightarrow> l_reqs s r = Some q \<Longrightarrow> lookup_now (rq_source q) s) \<Longrightarrow>
     cq_entry_step w ent s = Some t \<Longrightarrow> api_step w s t"
| st_error: "outstanding (cqr_context (fst (w_cq_readerr w (ep_cq (ep_of e s)) (l_fab s)))) s \<Longrightarrow>
     cq_error w e s = Some t \<Longrightarrow> api_step w s t"
| st_cancel: "l_reqs s r = Some q \<Longrightarrow> rq_wait_context q \<noteq> None \<Longrightarrow> cancel_ready s q \<Longrightarrow>
     lfi_cancel (Suc d) w (Some r) s = Some (ret, t) \<Longrightarrow> api_step w s t"
| st_free: "is_completed r s \<Longrightarrow> lfi_request_free d w (Some r) s = Some t \<Longrightarrow> api_step w s t"
| st_post: "\<forall>op\<in>set (vq_list (queue_of b (ep_of e s))). po_type op \<noteq> PInject \<Longrightarrow>
     process_queue w e b s = Some (done, t) \<Longrightarrow> api_step w s t"
| st_fabric: "api_step w s (s\<lparr>l_fab := f\<rparr>)"
| st_endpoint: "\<forall>x b. queue_of b (g x) = queue_of b x \<Longrightarrow> api_step w s (upd_ep e g s)"

inductive reach :: "'f world \<Rightarrow> env_cfg \<Rightarrow> 'f lfi \<Rightarrow> bool" for w cfg where
  reach_new: "reach w cfg (lfi_new cfg f)"
| reach_step: "reach w cfg s \<Longrightarrow> api_step w s t \<Longrightarrow> reach w cfg t"

subsection \<open>Preservation\<close>

lemma quiet_names:
  assumes "quiet s t" and "names_ok s" and "\<And>r q. l_reqs t r = Some q \<Longrightarrow> rq_comm q = rq_comm_id q"
  shows "names_ok t"
proof -
  have "cm_rank_peer m = c" if m: "the_comm c t = Some m" for c m
  proof -
    obtain m' where "the_comm c s = Some m'" "comm_core m' = comm_core m"
      using quiet_comm [OF assms(1), of c] m by (cases "the_comm c s") auto
    then show ?thesis using assms(2) comm_core_eqD(4) [of m' m] by (simp add: names_ok_def)
  qed
  then show ?thesis using assms(3) by (auto simp: names_ok_def)
qed

lemma quiet_queues: "quiet s t \<Longrightarrow> queues_ok s \<Longrightarrow> queues_ok t"
  by (simp add: queues_ok_def quiet_queue)

text \<open>A step that is quiet and keeps the names of the requests.\<close>

lemma quiet_api:
  assumes "api_inv s" and "quiet s t" and "lfi_inv t"
    and "\<And>r q. l_reqs t r = Some q \<Longrightarrow> \<exists>q'. l_reqs s r = Some q' \<and> rq_comm q = rq_comm q' \<and> rq_comm_id q = rq_comm_id q'"
  shows "api_inv t"
proof -
  have "rq_comm q = rq_comm_id q" if "l_reqs t r = Some q" for r q
    using assms(1) assms(4) [OF that] by (auto simp: api_inv_def names_ok_def)
  then show ?thesis
    using assms quiet_names [OF assms(2)] quiet_queues [OF assms(2)] by (auto simp: api_inv_def)
qed

lemma complete_api:
  assumes inv: "api_inv s" and q: "l_reqs s r = Some q"
    and now: "err \<noteq> LFI_SUCCESS \<or> lookup_now (rq_source q) s"
    and run: "complete w r err s = Some t"
  shows "api_inv t" and "l_free t = l_free s" and "l_next_ctx t = l_next_ctx s"
    and "rq_wait_context q = Some k \<Longrightarrow> l_ctxs t k = None"
proof -
  have li: "lfi_inv s" using inv by (simp add: api_inv_def)
  obtain t' where t': "complete w r err s = Some t'" "lfi_inv t'" "quiet s t'"
    "l_reqs t' = (if rq_wait_context q = None then l_reqs s
                  else (l_reqs s)(r \<mapsto> q\<lparr>rq_error := err, rq_wait_context := None\<rparr>))"
    by (rule complete_ok [OF li q, of err w]) (use now in auto)
  then have [simp]: "t' = t" using run by simp
  show "api_inv t" by (rule quiet_api [OF inv t'(3) [simplified] t'(2) [simplified]]) (use t'(4) q in \<open>auto split: if_splits\<close>)
  show "l_free t = l_free s" "l_next_ctx t = l_next_ctx s" using t'(3) by (simp_all add: quiet_def)
  assume k: "rq_wait_context q = Some k"
  have cx: "ctx_inv s" "ctx_inv t" using li t'(2) by (simp_all add: lfi_inv_def)
  have "l_ctxs s k = Some r" using ctx_assigned [OF cx(1), of k r] q k by (simp add: holds_ctx_def)
  then have "\<not> holds_ctx s r' k" if "r' \<noteq> r" for r' using ctx_assigned [OF cx(1), of k r'] that by simp
  then have "\<not> holds_ctx t r' k" for r' using t'(4) k by (cases "r' = r") (auto simp: holds_ctx_def)
  then show "l_ctxs t k = None" using ctx_assigned [OF cx(2), of k] by (cases "l_ctxs t k") auto
qed

lemma ctx_destroy_api:
  assumes "api_inv s" and "l_ctxs s k = None" and "outstanding k s"
  shows "api_inv (ctx_destroy k s)"
  using assms lfi_inv_destroy [of s k] by (simp add: api_inv_def queues_ok_def names_ok_def outstanding_def)

lemma unheld: "lfi_inv s \<Longrightarrow> get_request k s = None \<Longrightarrow> l_ctxs s k = None"
  by (simp add: get_request_def)

lemma names_okD: "names_ok s \<Longrightarrow> l_reqs s r = Some q \<Longrightarrow> rq_comm q = rq_comm_id q"
  by (simp add: names_ok_def)

subsection \<open>Connections\<close>

lemma reserve_api: "api_inv s \<Longrightarrow> api_inv (snd (reserve_comm s))"
proof -
  assume inv: "api_inv s"
  let ?t = "snd (reserve_comm s)"
  have comms: "the_comm c ?t = the_comm c s" for c
    by (simp add: reserve_comm_def Let_def the_comm_def map_of_emplace)
  have "lfi_inv ?t"
    by (rule lfi_inv_cong [of s]) (use inv comms in \<open>simp_all add: api_inv_def reserve_comm_def Let_def\<close>)
  moreover have "ep_of e ?t = ep_of e s" "l_reqs ?t = l_reqs s" for e by (simp_all add: reserve_comm_def Let_def)
  ultimately show ?thesis using inv comms by (simp add: api_inv_def queues_ok_def names_ok_def)
qed

text \<open>A new communicator has no requests, and no request names one that is not there.\<close>

lemma lfi_inv_new_comm:
  assumes inv: "lfi_inv s" and none: "the_comm c s = None"
  shows "lfi_inv (set_comm c (comm_new e c now) s)"
proof -
  let ?t = "set_comm c (comm_new e c now) s"
  have fl: "in_flight ?t k r = in_flight s k r" for k r by (simp add: in_flight_def)
  have "ft_inv ?t" if ft: "ft_inv s" "comms_alive s"
  proof -
    obtain L where rep: "ft_rep s L" and sync: "ft_sync s L" using ft(1) by (auto simp: ft_inv_def)
    have "r \<notin> set (L c)" for r using sync ft(2) none by (auto simp: ft_sync_def comms_alive_def)
    then have empty: "L c = []" by (cases "L c") auto
    have "dll_rep (cm_requests m, l_rlinks ?t) (L k)" if "the_comm k ?t = Some m" for k m
      using that rep empty by (cases "k = c") (auto simp: ft_rep_def comm_new_def)
    then have "ft_rep ?t L" using rep unfolding ft_rep_def by simp
    moreover have "ft_sync ?t L" using sync by (simp add: ft_sync_def fl)
    ultimately show ?thesis by (auto simp: ft_inv_def)
  qed
  moreover have "ctx_inv ?t" using inv by (simp add: lfi_inv_def ctx_inv_def holds_ctx_def)
  moreover have "rid_inv ?t" using inv by (simp add: lfi_inv_def rid_inv_def set_comm_def)
  moreover have "comms_alive s \<Longrightarrow> comms_alive ?t" by (simp add: comms_alive_def fl)
  ultimately show ?thesis using inv by (simp add: lfi_inv_def)
qed

lemma init_comm_api:
  assumes inv: "api_inv s" and run: "init_comm w shm c s = Some (c', t)"
  shows "api_inv t"
proof -
  obtain e where e: "init_comm_ep w e c s = Some (c', t)" using run by (auto simp: init_comm_def split: if_splits)
  obtain f now where t: "t = set_comm c (comm_new e c now) (s\<lparr>l_fab := f\<rparr>)" and none: "the_comm c s = None"
    using e by (auto simp: init_comm_ep_def clock_now_def fab_def the_comm_def Let_def split: option.splits prod.splits)
  have "lfi_inv t" unfolding t using inv none by (intro lfi_inv_new_comm) (simp_all add: api_inv_def)
  then show ?thesis using inv by (simp add: api_inv_def queues_ok_def names_ok_def t comm_new_def)
qed

lemma set_ready_api: "api_inv s \<Longrightarrow> api_inv (set_ready c st s)"
  by (simp add: api_inv_def set_ready_def lfi_inv_upd_comm queues_ok_def names_ok_def) auto

subsection \<open>Requests\<close>

lemma create_api:
  assumes inv: "api_inv s" and m: "the_comm (u32_of idn) s = Some m" "cm_is_ready m \<noteq> NOT_READY"
    and run: "lfi_request_create w idn s = Some (req, t)"
  shows "api_inv t"
proof -
  let ?c = "u32_of idn"
  have li: "lfi_inv s" and peer: "cm_rank_peer m = ?c" using inv m(1) by (simp_all add: api_inv_def names_ok_def)
  have new: "new_request (cm_endpoint m) ?c s = Some (the req, t) \<and> req \<noteq> None"
    using run get_comm_ready [OF m, of w] m(1)
    by (auto simp: lfi_request_create_def get_comm_and_mutex_def split: bind_splits)
  obtain t' q where t': "new_request (cm_endpoint m) ?c s = Some (l_next_rid s, t')" "lfi_inv t'"
    "l_reqs t' = (l_reqs s)(l_next_rid s \<mapsto> q)" "rq_comm q = ?c" "rq_comm_id q = cm_rank_peer m"
    by (rule new_request_inv [OF li m(1)]) blast
  then have "t' = t" using new by simp
  have "ep_of e t = ep_of e s" "the_comm c t = the_comm c s" for e c
    using new m(1) by (auto simp: new_request_def Let_def the_comm_def ep_of_def split: ep_id.splits)
  then show ?thesis using inv t' \<open>t' = t\<close> peer by (auto simp: api_inv_def queues_ok_def names_ok_def)
qed

lemma callback_api: "api_inv s \<Longrightarrow> api_inv (lfi_request_set_callback req func context s)"
  by (auto simp: lfi_request_set_callback_def api_inv_def queues_ok_def names_ok_def lfi_inv_upd_req
      split: option.splits if_splits)

lemma free_api:
  assumes inv: "api_inv s" and fin: "is_completed r s" and run: "lfi_request_free d w (Some r) s = Some t"
  shows "api_inv t"
proof -
  have t: "t = s\<lparr>l_reqs := (l_reqs s)(r := None)\<rparr>" using fin run by (simp add: lfi_request_free_def destroy_request_def)
  have "lfi_inv t" unfolding t
    by (rule lfi_inv_delete) (use inv fin in \<open>auto simp: api_inv_def in_flight_def is_completed_def\<close>)
  then show ?thesis using inv by (simp add: api_inv_def queues_ok_def names_ok_def t)
qed

subsection \<open>Posting\<close>

lemma submit_api:
  assumes inv: "api_inv s" and q: "l_reqs s r = Some q" "rq_wait_context q = None"
    and m: "the_comm (rq_comm_id q) s = Some m" and run: "submit r (rq_comm_id q) e b op s = Some (ret, t)"
  shows "api_inv t"
proof -
  have li: "lfi_inv s" and c: "rq_comm q = rq_comm_id q" using inv q names_okD by (auto simp: api_inv_def)
  obtain k s1 where new: "store_new_context r s = (k, s1)" by (metis prod.exhaust)
  let ?s2 = "queue_op e b (op k) s1" and ?q = "q\<lparr>rq_wait_context := Some k\<rparr>"
  have s1: "l_reqs s1 = (l_reqs s)(r \<mapsto> ?q)" "\<And>e. ep_of e s1 = ep_of e s" "\<And>c. the_comm c s1 = the_comm c s"
    using store_new_context_reqs [of r s] store_new_context_frame [where r = r and s = s] q new by simp_all
  have "submitting r s1" using submit_start [OF li q] m c new by simp
  then have sub: "submitting r ?s2" unfolding queue_op_def by (rule submitting_upd_ep)
  have "l_reqs ?s2 r = Some ?q" "rq_wait_context ?q \<noteq> None" "the_comm (rq_comm ?q) ?s2 = Some m"
    using m c by (simp_all add: queue_op_def s1)
  from submit_end [OF sub this] obtain t' where t': "register_request r (rq_comm ?q) ?s2 = Some t'" "lfi_inv t'"
    "quiet ?s2 t'" "l_reqs t' = l_reqs ?s2" by blast
  have "t' = t" using run new t'(1) c by (simp add: submit_def)
  have names: "names_ok ?s2" using inv c q by (auto simp: api_inv_def names_ok_def queue_op_def s1)
  have "vq_inv (queue_of b' (ep_of e' ?s2))" for b' e'
    using inv vq_push_correct(1) [of "queue_of b (ep_of e s)" po_null "op k"]
    by (cases "b' = b") (auto simp: api_inv_def queues_ok_def queue_op_def s1)
  then have "queues_ok ?s2" by (simp add: queues_ok_def)
  then show ?thesis
    using t' \<open>t' = t\<close> quiet_names [OF t'(3) names] quiet_queues [OF t'(3)] names_okD [OF names] by (simp add: api_inv_def)
qed

lemma post_tail_api:
  assumes inv: "api_inv s" and q: "l_reqs s r = Some q" "rq_wait_context q = None"
    and m: "the_comm (rq_comm_id q) s = Some m" and reset: "request_reset r s = Some s2"
    and run: "submit r (rq_comm_id q) e b op (upd_req r g s2) = Some (ret, t)"
    and g: "\<And>q. rq_wait_context (g q) = rq_wait_context q \<and> rq_comm (g q) = rq_comm q \<and> rq_comm_id (g q) = rq_comm_id q"
  shows "api_inv t"
proof -
  have li: "lfi_inv s" using inv by (simp add: api_inv_def)
  obtain s2' q2 where s2': "request_reset r s = Some s2'" "lfi_inv s2'" "l_reqs s2' = (l_reqs s)(r \<mapsto> q2)"
    "rq_wait_context q2 = None" "rq_comm q2 = rq_comm q" "rq_comm_id q2 = rq_comm_id q"
    "\<And>e. ep_of e s2' = ep_of e s" "\<And>c. the_comm c s2' = the_comm c s"
    by (rule request_reset_inv [OF li q]) blast
  have [simp]: "s2' = s2" using s2'(1) reset by simp
  let ?s3 = "upd_req r g s2"
  have "lfi_inv ?s3" using s2'(2) g by (intro lfi_inv_upd_req) simp_all
  then have "api_inv ?s3"
    using inv s2' g names_okD [of s r q] q by (auto simp: api_inv_def queues_ok_def names_ok_def)
  moreover have "l_reqs ?s3 r = Some (g q2)" "rq_wait_context (g q2) = None" "rq_comm_id (g q2) = rq_comm_id q"
    "the_comm (rq_comm_id q) ?s3 = Some m" using s2' g m by simp_all
  ultimately show ?thesis using submit_api [of ?s3 r "g q2" m e b op ret t] run by simp
qed

lemma idleE:
  assumes "idle r s"
  obtains q m where "l_reqs s r = Some q" and "rq_wait_context q = None" and "the_comm (rq_comm_id q) s = Some m"
    and "cm_is_ready m \<noteq> NOT_READY" and "\<And>w. get_comm_and_mutex w (rq_comm_id q) s = Some (Some (rq_comm_id q), s)"
proof -
  obtain q m where "l_reqs s r = Some q" "rq_wait_context q = None" "the_comm (rq_comm_id q) s = Some m"
    "cm_is_ready m \<noteq> NOT_READY"
    using assms by (auto simp: idle_def split: option.splits)
  then show ?thesis using that [of q m] async_found [of s r q m] by simp
qed

lemma send_api:
  assumes inv: "api_inv s" and "idle r s" and run: "async_send_internal w p n ty tag r b s = Some (ret, t)"
  shows "api_inv t"
proof -
  obtain q m where q: "l_reqs s r = Some q" "rq_wait_context q = None" "the_comm (rq_comm_id q) s = Some m"
    "\<And>w. get_comm_and_mutex w (rq_comm_id q) s = Some (Some (rq_comm_id q), s)" by (rule idleE [OF assms(2)]) blast
  show ?thesis
    using run q inv by (auto simp: async_send_internal_def Let_def split: if_splits bind_splits)
      (erule (1) post_tail_api [OF inv q(1-3)], simp)+
qed

lemma recv_api:
  assumes inv: "api_inv s" and "idle r s" and run: "async_recv_internal w p n ty tag r b s = Some (ret, t)"
  shows "api_inv t"
proof -
  obtain q m where q: "l_reqs s r = Some q" "rq_wait_context q = None" "the_comm (rq_comm_id q) s = Some m"
    "\<And>w. get_comm_and_mutex w (rq_comm_id q) s = Some (Some (rq_comm_id q), s)" by (rule idleE [OF assms(2)]) blast
  show ?thesis
    using run q inv by (auto simp: async_recv_internal_def Let_def split: if_splits bind_splits)
      (erule (1) post_tail_api [OF inv q(1-3)], simp)+
qed

lemma rma_api:
  assumes inv: "api_inv s" and "idle r s" and run: "async_rma ot pt w p n addr key r b s = Some (ret, t)"
  shows "api_inv t"
proof -
  obtain q m where q: "l_reqs s r = Some q" "rq_wait_context q = None" "the_comm (rq_comm_id q) s = Some m"
    "\<And>w. get_comm_and_mutex w (rq_comm_id q) s = Some (Some (rq_comm_id q), s)" by (rule idleE [OF assms(2)]) blast
  show ?thesis
    using run q inv by (auto simp: async_rma_def Let_def split: if_splits bind_splits)
      (erule (1) post_tail_api [OF inv q(1-3)], simp)+
qed

subsection \<open>Completion\<close>

lemma fill_recv_frame [simp]:
  "rq_wait_context (fill_recv ent q) = rq_wait_context q" "rq_comm (fill_recv ent q) = rq_comm q"
  "rq_comm_id (fill_recv ent q) = rq_comm_id q"
  by (simp_all add: fill_recv_def)

lemma fill_recv_source: "rq_source (fill_recv ent q) = rq_source q \<or> rq_source (fill_recv ent q) = source_of (cqe_tag ent)"
  by (simp add: fill_recv_def)

lemma complete_ctx_api:
  assumes inv: "api_inv s" and out: "outstanding k s"
    and now: "\<And>r q. err = LFI_SUCCESS \<Longrightarrow> l_ctxs s k = Some r \<Longrightarrow> l_reqs s r = Some q \<Longrightarrow> lookup_now (rq_source q) s"
    and run: "complete_ctx w k err s = Some s1"
  shows "api_inv (ctx_destroy k s1)"
proof (cases "get_request k s")
  case None
  then show ?thesis using inv out run ctx_destroy_api [OF inv unheld out] by (simp add: api_inv_def complete_ctx_def)
next
  case (Some r)
  have li: "lfi_inv s" using inv by (simp add: api_inv_def)
  obtain q where q: "l_reqs s r = Some q" "rq_wait_context q = Some k" by (rule get_request_flight [OF li Some]) blast
  have c: "complete w r err s = Some s1" using run Some by (simp add: complete_ctx_def)
  have "l_ctxs s k = Some r" using Some by (simp add: get_request_def)
  then have "err \<noteq> LFI_SUCCESS \<or> lookup_now (rq_source q) s" using now q by blast
  note fin = complete_api [OF inv q(1) this c]
  show ?thesis
    by (rule ctx_destroy_api [OF fin(1) fin(4) [OF q(2)]]) (use fin(2,3) out in \<open>simp add: outstanding_def\<close>)
qed

lemma entry_api:
  assumes inv: "api_inv s" and out: "outstanding (cqe_context ent) s" and tag: "lookup_now (source_of (cqe_tag ent)) s"
    and src: "\<And>r q. get_request (cqe_context ent) s = Some r \<Longrightarrow> l_reqs s r = Some q \<Longrightarrow> lookup_now (rq_source q) s"
    and run: "cq_entry_step w ent s = Some t"
  shows "api_inv t"
proof (cases "get_request (cqe_context ent) s")
  case None
  then show ?thesis
    using inv out run ctx_destroy_api [OF inv unheld out] by (simp add: api_inv_def cq_entry_step_def)
next
  case (Some r)
  let ?s0 = "upd_req r (fill_recv ent) s"
  have li: "lfi_inv s" using inv by (simp add: api_inv_def)
  obtain q where q: "l_reqs s r = Some q" "rq_wait_context q = Some (cqe_context ent)"
    by (rule get_request_flight [OF li Some]) blast
  obtain s1 where s1: "complete w r LFI_SUCCESS ?s0 = Some s1" "t = ctx_destroy (cqe_context ent) s1"
    using run Some by (auto simp: cq_entry_step_def split: bind_splits)
  have "lfi_inv ?s0" using li by (intro lfi_inv_upd_req) simp_all
  then have inv0: "api_inv ?s0" using inv by (auto simp: api_inv_def queues_ok_def names_ok_def)
  have q0: "l_reqs ?s0 r = Some (fill_recv ent q)" using q by simp
  have "LFI_SUCCESS \<noteq> LFI_SUCCESS \<or> lookup_now (rq_source (fill_recv ent q)) ?s0"
    using fill_recv_source [of ent q] tag src [OF Some q(1)] by (auto simp: lookup_now_def)
  note fin = complete_api [OF inv0 q0 this s1(1)]
  show ?thesis unfolding s1(2)
    by (rule ctx_destroy_api [OF fin(1) fin(4)]) (use fin(2,3) out q(2) in \<open>simp_all add: outstanding_def\<close>)
qed

lemma error_api:
  assumes inv: "api_inv s" and out: "outstanding (cqr_context (fst (w_cq_readerr w (ep_cq (ep_of e s)) (l_fab s)))) s"
    and run: "cq_error w e s = Some t"
  shows "api_inv t"
proof -
  obtain er f where er: "w_cq_readerr w (ep_cq (ep_of e s)) (l_fab s) = (er, f)" by (metis prod.exhaust)
  let ?s0 = "s\<lparr>l_fab := f\<rparr>"
  obtain s1 where s1: "complete_ctx w (cqr_context er) (cq_error_code (cqr_err er)) ?s0 = Some s1"
    "t = ctx_destroy (cqr_context er) s1"
    using run er by (auto simp: cq_error_def fab_def Let_def split: bind_splits)
  have "api_inv ?s0" using inv by (simp add: api_inv_def queues_ok_def names_ok_def)
  moreover have "outstanding (cqr_context er) ?s0" using out er by (simp add: outstanding_def)
  moreover have "cq_error_code (cqr_err er) \<noteq> LFI_SUCCESS" by (simp add: cq_error_code_def lfi_errors)
  ultimately show ?thesis unfolding s1(2) using s1(1) by (intro complete_ctx_api) auto
qed

subsection \<open>Cancelling\<close>

lemma tame_names:
  assumes "tame s t" and "names_ok s" and "\<And>r q. l_reqs t r = Some q \<Longrightarrow> rq_comm q = rq_comm_id q"
  shows "names_ok t"
proof -
  have "cm_rank_peer m = c" if m: "the_comm c t = Some m" for c m
  proof (rule tame_entry [OF assms(1), of c])
    fix x y assume "map_of (l_comms t) c = Some (Some x)" "map_of (l_comms s) c = Some (Some y)" "comm_core x = comm_core y"
    then show ?thesis using m assms(2) comm_core_eqD(4) [of x y] by (auto simp: the_comm_def names_ok_def)
  qed (use m in \<open>simp_all add: the_comm_def\<close>)
  then show ?thesis using assms(3) by (auto simp: names_ok_def)
qed

lemma cancel_api:
  assumes inv: "api_inv s" and q: "l_reqs s r = Some q" and k: "rq_wait_context q \<noteq> None" and ready: "cancel_ready s q"
    and run: "lfi_cancel (Suc d) w (Some r) s = Some (ret, t)"
  shows "api_inv t"
proof -
  obtain k' where k': "rq_wait_context q = Some k'" using k by blast
  have li: "lfi_inv s" using inv by (simp add: api_inv_def)
  obtain t' where t': "cancel (Suc d) w r s = Some t'" "lfi_inv t'" "tame s t'"
    "l_reqs t' = (l_reqs s)(r \<mapsto> q\<lparr>rq_error := cancel_code s q, rq_wait_context := None\<rparr>)"
    and mine: "\<And>b. queue_of b (ep_of (rq_endpoint q) t') = queue_of b (drop_pending k' (ep_of (rq_endpoint q) s))"
    and other: "\<And>b e'. e' \<noteq> rq_endpoint q \<Longrightarrow> queue_of b (ep_of e' t') = queue_of b (ep_of e' s)"
    by (rule cancel_ok [OF li q k' ready, of d w]) blast
  have "t' = t" using run t'(1) by (simp add: lfi_cancel_def on_request_def)
  have drop: "vq_inv (queue_of b (drop_pending k' x))" if "vq_inv (queue_of b x)" for b x
    using that vq_erase_if_correct(1) by (cases b) (simp_all add: queue_of_def drop_pending_def)
  have "queues_ok t'"
    unfolding queues_ok_def
  proof (intro allI)
    fix e b show "vq_inv (queue_of b (ep_of e t'))"
      using inv drop mine other [of e b] by (cases "e = rq_endpoint q") (simp_all add: api_inv_def queues_ok_def)
  qed
  moreover have "names_ok t'"
    by (rule tame_names [OF t'(3)]) (use inv t'(4) names_okD [of s r q] q in \<open>auto simp: api_inv_def names_ok_def split: if_splits\<close>)
  ultimately show ?thesis using t'(2) \<open>t' = t\<close> by (simp add: api_inv_def)
qed

subsection \<open>Handing over\<close>

lemma pop_api: "api_inv s \<Longrightarrow> api_inv (upd_ep e (upd_queue b vq_pop) s)"
proof -
  assume inv: "api_inv s"
  have "vq_inv (queue_of b' (ep_of e' (upd_ep e (upd_queue b vq_pop) s)))" for b' e'
    using inv vq_pop_correct(1) [of "queue_of b (ep_of e s)"]
    by (cases "b' = b") (auto simp: api_inv_def queues_ok_def vq_pop_def)
  then show ?thesis using inv by (simp add: api_inv_def queues_ok_def names_ok_def)
qed

lemma post_result_api:
  assumes "api_inv s" and "po_type op \<noteq> PInject" and "post_result w op ret s = Some t"
  shows "api_inv t"
proof (cases "po_context op")
  case None
  then show ?thesis using assms by (simp add: post_result_def)
next
  case (Some c)
  show ?thesis
  proof (cases "ret = 0 \<or> get_request c s = None")
    case True
    then show ?thesis using assms Some by (auto simp: post_result_def complete_ctx_def split: if_splits)
  next
    case False
    then obtain r where r: "get_request c s = Some r" "complete w r (- LFI_LIBFABRIC_ERROR) s = Some t"
      using assms Some by (auto simp: post_result_def complete_ctx_def)
    have "lfi_inv s" using assms(1) by (simp add: api_inv_def)
    then obtain q where "l_reqs s r = Some q" using r(1) by (rule get_request_flight)
    then show ?thesis using complete_api(1) [OF assms(1) _ _ r(2)] LIBFABRIC_not_SUCCESS by blast
  qed
qed

lemma process_queue_api:
  assumes "api_inv s" and "\<forall>op\<in>set (vq_list (queue_of b (ep_of e s))). po_type op \<noteq> PInject"
    and "process_queue w e b s = Some (done, t)"
  shows "api_inv t"
  using assms
proof (induction "length (vq_list (queue_of b (ep_of e s)))" arbitrary: s)
  case 0
  have "vq_list (queue_of b (ep_of e s)) = []" using 0(1) by (metis length_0_conv)
  then have "vq_empty (queue_of b (ep_of e s))" using 0 by (simp add: vq_empty_correct api_inv_def queues_ok_def)
  then show ?case using 0 by (subst (asm) process_queue.simps) (simp add: Let_def)
next
  case (Suc n)
  let ?q = "queue_of b (ep_of e s)"
  have vq: "vq_inv ?q" using Suc.prems(1) by (simp add: api_inv_def queues_ok_def)
  obtain op ops where ops: "vq_list ?q = op # ops" using Suc.hyps(2) by (cases "vq_list ?q") auto
  have front: "vq_front ?q = op" "\<not> vq_empty ?q" using ops vq by (simp_all add: vq_front_correct vq_empty_correct)
  obtain ret f where post: "post_op w op (l_fab s) = (ret, f)" by (metis prod.exhaust)
  have fabeq: "fab (post_op w op) s = (ret, s\<lparr>l_fab := f\<rparr>)" using post by (simp add: fab_def)
  have inv1: "api_inv (s\<lparr>l_fab := f\<rparr>)" using Suc.prems(1) by (simp add: api_inv_def queues_ok_def names_ok_def)
  show ?case
  proof (cases "ret = - FI_EAGAIN")
    case True
    then have "t = s\<lparr>l_fab := f\<rparr>" using Suc.prems(3) front fabeq by (subst (asm) process_queue.simps) (simp add: Let_def)
    then show ?thesis using inv1 by simp
  next
    case False
    then obtain s2 where s2: "post_result w op ret (s\<lparr>l_fab := f\<rparr>) = Some s2"
      and rest: "process_queue w e b (upd_ep e (upd_queue b vq_pop) s2) = Some (done, t)"
      using Suc.prems(3) front fabeq by (subst (asm) process_queue.simps) (auto simp: Let_def split: bind_splits)
    have noinj: "po_type op \<noteq> PInject" using Suc.prems(2) ops by simp
    have inv2: "api_inv s2" by (rule post_result_api [OF inv1 noinj s2])
    obtain s2' where "post_result w op ret (s\<lparr>l_fab := f\<rparr>) = Some s2'" "quiet (s\<lparr>l_fab := f\<rparr>) s2'"
      using post_result_ok [of "s\<lparr>l_fab := f\<rparr>" op w ret] inv1 noinj by (auto simp: api_inv_def)
    then have "queue_of b (ep_of e s2) = ?q" using quiet_queue [of "s\<lparr>l_fab := f\<rparr>" s2 b e] s2 by simp
    then have tl: "vq_list (queue_of b (ep_of e (upd_ep e (upd_queue b vq_pop) s2))) = ops"
      using vq_pop_correct [OF vq] ops by simp
    show ?thesis
      by (rule Suc.hyps(1) [OF _ pop_api [OF inv2] _ rest]) (use tl Suc.hyps(2) Suc.prems(2) ops in simp_all)
  qed
qed

subsection \<open>Every reachable state\<close>

lemma api_inv_new: "api_inv (lfi_new cfg f)"
proof -
  have "queues_ok (lfi_new cfg f)" "names_ok (lfi_new cfg f)"
    by (auto simp: queues_ok_def names_ok_def lfi_new_def ep_of_def endpoint_new_def queue_of_def vq_new_inv the_comm_def
        split: ep_id.splits)
  then show ?thesis by (simp add: api_inv_def lfi_inv_new)
qed

lemma api_step_inv: "api_step w s t \<Longrightarrow> api_inv s \<Longrightarrow> api_inv t"
proof (induction rule: api_step.induct)
  case (st_fabric s f)
  then show ?case by (simp add: api_inv_def queues_ok_def names_ok_def)
next
  case (st_endpoint g s e)
  then show ?case by (simp add: api_inv_def queues_ok_def names_ok_def)
qed (blast intro: reserve_api init_comm_api set_ready_api create_api callback_api send_api recv_api rma_api
    entry_api error_api cancel_api free_api process_queue_api)+

lemma reach_inv: "reach w cfg s \<Longrightarrow> api_inv s"
  by (induction rule: reach.induct) (auto intro: api_inv_new api_step_inv)


text \<open>A connection, a request and a receive; then the first context is held by request 0.\<close>

definition sample_run :: "sample lfi option" where
  "sample_run =
     do { (c, t) \<leftarrow> init_comm sample_world False 0 (snd (reserve_comm (lfi_new env_default sample0)));
          (req, u) \<leftarrow> lfi_request_create sample_world 0 (set_ready c READY t);
          (ret, v) \<leftarrow> async_recv_internal sample_world (Mem 64) 8 RECV 5 0 False u;
          Some v }"

lemma sample_run_held: "map_option (\<lambda>s. map_option rq_wait_context (l_reqs s 0)) sample_run = Some (Some (Some 0))"
  by code_simp

lemma sample_run_ready:
  "map_option (\<lambda>(c, t). (c, map_option cm_is_ready (the_comm 0 (set_ready c READY t))))
     (init_comm sample_world False 0 (snd (reserve_comm (lfi_new env_default sample0)))) = Some (0, Some READY)"
  by code_simp

lemma sample_run_idle:
  "map_option (\<lambda>(req, u). idle 0 u)
     (do { (c, t) \<leftarrow> init_comm sample_world False 0 (snd (reserve_comm (lfi_new env_default sample0)));
           lfi_request_create sample_world 0 (set_ready c READY t) }) = Some True"
  by code_simp


end
