(* ===== verification/Preload_State.thy ===== *)
theory Preload_State
  imports Reachable
begin

text \<open>
  \<open>src/ld_preload/ld_preload.hpp\<close> and the first part of \<open>ld_preload.cpp\<close>: the library that takes the place of
  the socket calls of a process. Class \<open>ld_preload\<close> keeps, for each stream socket, the communicator that
  carries its data, an eventfd that is readable while data waits, and the data itself. The functions that
  are replaced stay reachable through \<open>dlsym(RTLD_NEXT, ...)\<close>, the macro \<open>PROXY\<close>: they are the fields of
  \<open>posix\<close>.
\<close>

subsection \<open>The functions that are replaced\<close>

text \<open>An array of \<open>iovec\<close> is the list of its elements, and its count the length of the list.\<close>

record iovec =
  iov_base :: u64
  iov_len :: u64

text \<open>The part of \<open>msghdr\<close> that the code uses, and the address of the structure.\<close>

record msghdr =
  msg_addr :: u64
  msg_iov :: "iovec list"

record pollfd =
  pf_fd :: int
  pf_events :: "16 word"
  pf_revents :: "16 word"

text \<open>
  Pointers that are only passed on are numbers. \<open>px_backtrace\<close> gives the symbols of the callers, or \<open>None\<close>
  for a null result. \<open>px_alloc\<close> is where a container puts an array of so many bytes, \<open>px_local\<close> the address of
  an eight byte local variable.
\<close>

record 'f posix =
  px_backtrace :: "'f \<Rightarrow> string list option"
  px_socket :: "int \<Rightarrow> int \<Rightarrow> int \<Rightarrow> 'f \<Rightarrow> int \<times> 'f"
  px_connect :: "int \<Rightarrow> u64 \<Rightarrow> u32 \<Rightarrow> 'f \<Rightarrow> int \<times> 'f"
  px_accept4 :: "int \<Rightarrow> u64 \<Rightarrow> u64 \<Rightarrow> int \<Rightarrow> 'f \<Rightarrow> int \<times> 'f"
  px_close :: "int \<Rightarrow> 'f \<Rightarrow> int \<times> 'f"
  px_write :: "int \<Rightarrow> u64 \<Rightarrow> u64 \<Rightarrow> 'f \<Rightarrow> int \<times> 'f"
  px_writev :: "int \<Rightarrow> iovec list \<Rightarrow> 'f \<Rightarrow> int \<times> 'f"
  px_read :: "int \<Rightarrow> u64 \<Rightarrow> u64 \<Rightarrow> 'f \<Rightarrow> int \<times> 'f"
  px_readv :: "int \<Rightarrow> iovec list \<Rightarrow> 'f \<Rightarrow> int \<times> 'f"
  px_bind :: "int \<Rightarrow> u64 \<Rightarrow> u32 \<Rightarrow> 'f \<Rightarrow> int \<times> 'f"
  px_listen :: "int \<Rightarrow> int \<Rightarrow> 'f \<Rightarrow> int \<times> 'f"
  px_recv :: "int \<Rightarrow> u64 \<Rightarrow> u64 \<Rightarrow> int \<Rightarrow> 'f \<Rightarrow> int \<times> 'f"
  px_recvfrom :: "int \<Rightarrow> u64 \<Rightarrow> u64 \<Rightarrow> int \<Rightarrow> u64 \<Rightarrow> u64 \<Rightarrow> 'f \<Rightarrow> int \<times> 'f"
  px_recvmsg :: "int \<Rightarrow> msghdr \<Rightarrow> int \<Rightarrow> 'f \<Rightarrow> int \<times> 'f"
  px_send :: "int \<Rightarrow> u64 \<Rightarrow> u64 \<Rightarrow> int \<Rightarrow> 'f \<Rightarrow> int \<times> 'f"
  px_sendto :: "int \<Rightarrow> u64 \<Rightarrow> u64 \<Rightarrow> int \<Rightarrow> u64 \<Rightarrow> u32 \<Rightarrow> 'f \<Rightarrow> int \<times> 'f"
  px_sendmsg :: "int \<Rightarrow> msghdr \<Rightarrow> int \<Rightarrow> 'f \<Rightarrow> int \<times> 'f"
  px_shutdown :: "int \<Rightarrow> int \<Rightarrow> 'f \<Rightarrow> int \<times> 'f"
  px_getpeername :: "int \<Rightarrow> u64 \<Rightarrow> u64 \<Rightarrow> 'f \<Rightarrow> int \<times> 'f"
  px_getsockopt :: "int \<Rightarrow> int \<Rightarrow> int \<Rightarrow> u64 \<Rightarrow> u64 \<Rightarrow> 'f \<Rightarrow> int \<times> 'f"
  px_setsockopt :: "int \<Rightarrow> int \<Rightarrow> int \<Rightarrow> u64 \<Rightarrow> u32 \<Rightarrow> 'f \<Rightarrow> int \<times> 'f"
  px_epoll_create :: "int \<Rightarrow> 'f \<Rightarrow> int \<times> 'f"
  px_epoll_create1 :: "int \<Rightarrow> 'f \<Rightarrow> int \<times> 'f"
  px_epoll_ctl :: "int \<Rightarrow> int \<Rightarrow> int \<Rightarrow> u64 \<Rightarrow> 'f \<Rightarrow> int \<times> 'f"
  px_epoll_wait :: "int \<Rightarrow> u64 \<Rightarrow> int \<Rightarrow> int \<Rightarrow> 'f \<Rightarrow> int \<times> 'f"
  px_poll :: "pollfd list \<Rightarrow> int \<Rightarrow> 'f \<Rightarrow> (int \<times> pollfd list) \<times> 'f"
  px_ppoll :: "pollfd list \<Rightarrow> u64 \<Rightarrow> u64 \<Rightarrow> 'f \<Rightarrow> (int \<times> pollfd list) \<times> 'f"
  px_select :: "int \<Rightarrow> u64 \<Rightarrow> u64 \<Rightarrow> u64 \<Rightarrow> u64 \<Rightarrow> 'f \<Rightarrow> int \<times> 'f"
  px_eventfd :: "int \<Rightarrow> int \<Rightarrow> 'f \<Rightarrow> int \<times> 'f"
  px_set_errno :: "int \<Rightarrow> 'f \<Rightarrow> 'f"
  px_alloc :: "nat \<Rightarrow> 'f \<Rightarrow> u64 \<times> 'f"
  px_local :: u64
  px_mem :: "'f mem"

subsection \<open>The state\<close>

text \<open>\<open>lfi_socket::buffered\<close>: what one notification announced, and how much of it has been read.\<close>

record buffered =
  bf_buffer :: "u8 list"
  bf_consumed :: u64

record lfi_socket =
  sk_lfi_id :: int
  sk_eventfd :: int
  sk_buffers :: "buffered list"

definition lfi_socket_new :: lfi_socket where
  "lfi_socket_new = \<lparr>sk_lfi_id = -1, sk_eventfd = -1, sk_buffers = []\<rparr>"

record noti_buff =
  nb_size :: u32
  nb_tag :: u32

text \<open>The members of \<open>ld_preload\<close>, \<open>pl_threads\<close> being the length of \<open>m_thread_eventfd\<close>; \<open>pl_counter\<close> is the
  \<open>static_counter\<close> of \<open>internal_sendmsg\<close>.\<close>

record 'f preload =
  pl_lfi :: "'f lfi"
  pl_socks :: "int \<Rightarrow> lfi_socket option"
  pl_map :: "int \<Rightarrow> int option"
  pl_threads :: nat
  pl_shm :: "rid option list"
  pl_peer :: "rid option list"
  pl_running :: bool
  pl_counter :: int

definition preload_new :: "'f lfi \<Rightarrow> 'f preload" where
  "preload_new l =
    \<lparr>pl_lfi = l, pl_socks = (\<lambda>_. None), pl_map = (\<lambda>_. None), pl_threads = 0, pl_shm = [], pl_peer = [],
     pl_running = False, pl_counter = 0\<rparr>"

text \<open>A call of the operating system, and an operation of the library.\<close>

definition proxy :: "('f \<Rightarrow> 'a \<times> 'f) \<Rightarrow> 'f preload \<Rightarrow> 'a \<times> 'f preload" where
  "proxy call s = (let (r, l) = fab call (pl_lfi s) in (r, s\<lparr>pl_lfi := l\<rparr>))"

definition on_lfi :: "('f lfi \<Rightarrow> ('a \<times> 'f lfi) option) \<Rightarrow> 'f preload \<Rightarrow> ('a \<times> 'f preload) option" where
  "on_lfi call s = do { (r, l) \<leftarrow> call (pl_lfi s); Some (r, s\<lparr>pl_lfi := l\<rparr>) }"

definition in_lfi :: "('f lfi \<Rightarrow> 'f lfi option) \<Rightarrow> 'f preload \<Rightarrow> 'f preload option" where
  "in_lfi call s = do { l \<leftarrow> call (pl_lfi s); Some (s\<lparr>pl_lfi := l\<rparr>) }"

definition set_sock :: "int \<Rightarrow> lfi_socket \<Rightarrow> 'f preload \<Rightarrow> 'f preload" where
  "set_sock fd sk s = s\<lparr>pl_socks := (pl_socks s)(fd \<mapsto> sk)\<rparr>"

text \<open>\<open>emplace\<close> on an unordered map.\<close>

definition map_emplace :: "'k \<Rightarrow> 'v \<Rightarrow> ('k \<Rightarrow> 'v option) \<Rightarrow> 'k \<Rightarrow> 'v option" where
  "map_emplace k v m = (case m k of None \<Rightarrow> m(k \<mapsto> v) | Some _ \<Rightarrow> m)"

definition mem_read :: "'f posix \<Rightarrow> u64 \<Rightarrow> u64 \<Rightarrow> 'f preload \<Rightarrow> u8 list" where
  "mem_read px a n s = mm_read (px_mem px) a (unat n) (l_fab (pl_lfi s))"

definition mem_write :: "'f posix \<Rightarrow> u64 \<Rightarrow> u8 list \<Rightarrow> 'f preload \<Rightarrow> 'f preload" where
  "mem_write px a bs s = s\<lparr>pl_lfi := (pl_lfi s)\<lparr>l_fab := mm_write (px_mem px) a bs (l_fab (pl_lfi s))\<rparr>\<rparr>"

text \<open>An array of so many zero bytes.\<close>

definition new_array :: "'f posix \<Rightarrow> nat \<Rightarrow> 'f preload \<Rightarrow> u64 \<times> 'f preload" where
  "new_array px n s = (let (a, s1) = proxy (px_alloc px n) s in (a, mem_write px a (replicate n 0) s1))"

subsection \<open>Who calls\<close>

text \<open>Libraries below LFI must reach the real sockets. A null result of \<open>backtrace_symbols\<close> ends the process.\<close>

definition is_caller_libfabric :: "'f posix \<Rightarrow> 'f preload \<Rightarrow> bool option" where
  "is_caller_libfabric px s =
     do { symbols \<leftarrow> px_backtrace px (l_fab (pl_lfi s));
          Some (list_ex (\<lambda>t. contains ''libpsm2.so'' t \<or> contains ''libfabric.so'' t \<or> contains ''libpmix.so'' t) symbols) }"

text \<open>The beginning of every replaced function.\<close>

definition unless_libfabric ::
    "'f posix \<Rightarrow> ('f \<Rightarrow> 'a \<times> 'f) \<Rightarrow> ('f preload \<Rightarrow> ('a \<times> 'f preload) option) \<Rightarrow> 'f preload \<Rightarrow> ('a \<times> 'f preload) option" where
  "unless_libfabric px call body s =
     do { inside \<leftarrow> is_caller_libfabric px s; if inside then Some (proxy call s) else body s }"

subsection \<open>The eventfd of a socket\<close>

definition EFD_FLAGS :: int where "EFD_FLAGS = 0x80000 + 1 + 0x800"

definition create_eventfd :: "'f posix \<Rightarrow> int \<Rightarrow> 'f preload \<Rightarrow> (int \<times> 'f preload) option" where
  "create_eventfd px fd s =
     do { sk \<leftarrow> pl_socks s fd;
          let (new_eventfd, s1) = proxy (px_eventfd px 0 EFD_FLAGS) s;
          Some (new_eventfd, if new_eventfd < 0 then s1 else set_sock fd (sk\<lparr>sk_eventfd := new_eventfd\<rparr>) s1) }"

definition destroy_eventfd :: "'f posix \<Rightarrow> int \<Rightarrow> 'f preload \<Rightarrow> (int \<times> 'f preload) option" where
  "destroy_eventfd px fd s =
     do { sk \<leftarrow> pl_socks s fd;
          if sk_eventfd sk < 0 then Some (0, s)
          else Some (0, set_sock fd (sk\<lparr>sk_eventfd := -1\<rparr>) (snd (proxy (px_close px (sk_eventfd sk)) s))) }"

text \<open>Writing an eight byte number to an eventfd, and reading one, through a local variable.\<close>

definition eventfd_write :: "'f posix \<Rightarrow> int \<Rightarrow> u64 \<Rightarrow> 'f preload \<Rightarrow> int \<times> 'f preload" where
  "eventfd_write px fd v s = proxy (px_write px fd (px_local px) 8) (mem_write px (px_local px) (le_bytes 8 v) s)"

definition eventfd_read :: "'f posix \<Rightarrow> int \<Rightarrow> 'f preload \<Rightarrow> int \<times> 'f preload" where
  "eventfd_read px fd s = proxy (px_read px fd (px_local px) 8) (mem_write px (px_local px) (le_bytes 8 (0 :: u64)) s)"

end
