(* ===== verification/Preload_Send.thy ===== *)
theory Preload_Send
  imports Preload_State
begin

text \<open>
  \<open>ld_preload::internal_sendmsg\<close>: what the application writes to a socket becomes one notification, which
  announces messages with their sizes and tags, and those messages. Small pieces are copied together
  up to the limit \<open>LFI_ld_preload_buffered\<close>.
\<close>

subsection \<open>Groups of pieces\<close>

record buff_groups =
  bg_size :: u64
  bg_list :: "nat list"

definition buff_group_new :: buff_groups where
  "buff_group_new = \<lparr>bg_size = 0, bg_list = []\<rparr>"

text \<open>The current group is the last one; a piece that does not fit opens another.\<close>

definition group_step :: "u64 \<Rightarrow> iovec list \<Rightarrow> buff_groups list \<Rightarrow> nat \<Rightarrow> buff_groups list" where
  "group_step limit iov groups i =
     (let len = iov_len (iov ! i);
          groups1 = (if bg_size (last groups) \<noteq> 0 \<and> bg_size (last groups) + len > limit
                     then groups @ [buff_group_new] else groups);
          g = last groups1
      in butlast groups1 @ [g\<lparr>bg_list := bg_list g @ [i], bg_size := bg_size g + len\<rparr>])"

definition make_groups :: "u64 \<Rightarrow> iovec list \<Rightarrow> buff_groups list" where
  "make_groups limit iov = foldl (group_step limit iov) [buff_group_new] [0..<length iov]"

text \<open>Only groups of several pieces are copied.\<close>

definition size_to_buffer :: "buff_groups list \<Rightarrow> u64" where
  "size_to_buffer groups = foldl (\<lambda>n g. if length (bg_list g) \<noteq> 1 then n + bg_size g else n) 0 groups"

text \<open>Copying the pieces of a group behind what has been copied, \<open>actual\<close>.\<close>

fun copy_pieces :: "'f mem \<Rightarrow> u64 \<Rightarrow> iovec list \<Rightarrow> nat list \<Rightarrow> u64 \<Rightarrow> 'f \<Rightarrow> u64 \<times> 'f" where
  "copy_pieces mem buffered iov [] actual f = (actual, f)"
| "copy_pieces mem buffered iov (i # is) actual f =
     copy_pieces mem buffered iov is (actual + iov_len (iov ! i))
       (mm_write mem (buffered + actual) (mm_read mem (iov_base (iov ! i)) (unat (iov_len (iov ! i))) f) f)"

fun build_iov :: "'f mem \<Rightarrow> u64 \<Rightarrow> iovec list \<Rightarrow> buff_groups list \<Rightarrow> u64 \<Rightarrow> 'f \<Rightarrow> iovec list \<times> 'f" where
  "build_iov mem buffered iov [] actual f = ([], f)"
| "build_iov mem buffered iov (g # gs) actual f =
     (if length (bg_list g) = 1
      then (let (v, f1) = build_iov mem buffered iov gs actual f in (iov ! hd (bg_list g) # v, f1))
      else (let (actual1, f1) = copy_pieces mem buffered iov (bg_list g) actual f;
                (v, f2) = build_iov mem buffered iov gs actual1 f1
            in (\<lparr>iov_base = buffered + actual, iov_len = bg_size g\<rparr> # v, f2)))"

subsection \<open>Notifications\<close>

text \<open>\<open>fetch_add\<close> returns the old value; the counter is an \<open>int\<close> and wraps, the sum is converted to \<open>uint32_t\<close>.\<close>

definition tag_of_count :: "int \<Rightarrow> u32" where
  "tag_of_count n = word_of_int (uint LFI_TAG_BUFFERED_LD_PRELOAD + n smod 1000001)"

definition next_tag :: "'f preload \<Rightarrow> u32 \<times> 'f preload" where
  "next_tag s = (tag_of_count (pl_counter s), s\<lparr>pl_counter := i32 (pl_counter s + 1)\<rparr>)"

text \<open>One request and one entry per message; \<open>size\<close> is narrowed.\<close>

fun announce :: "cid \<Rightarrow> iovec list \<Rightarrow> 'f preload \<Rightarrow> ((rid list \<times> noti_buff list) \<times> 'f preload) option" where
  "announce c [] s = Some (([], []), s)"
| "announce c (v # vs) s =
     do { m \<leftarrow> the_comm c (pl_lfi s);
          (r, s1) \<leftarrow> on_lfi (new_request (cm_endpoint m) c) s;
          let (tag, s2) = next_tag s1;
          ((rs, ns), s3) \<leftarrow> announce c vs s2;
          Some ((r # rs, \<lparr>nb_size = ucast (iov_len v), nb_tag = tag\<rparr> # ns), s3) }"

definition noti_bytes :: "noti_buff list \<Rightarrow> u8 list" where
  "noti_bytes ns = concat (map (\<lambda>n. le_bytes 4 (nb_size n) @ le_bytes 4 (nb_tag n)) ns)"

fun send_all :: "'f world \<Rightarrow> iovec list \<Rightarrow> noti_buff list \<Rightarrow> rid list \<Rightarrow> 'f lfi \<Rightarrow> (int \<times> 'f lfi) option" where
  "send_all w (v # vs) (n # ns) (r # rs) s =
     do { (ret, s1) \<leftarrow> async_send_internal w (Mem (iov_base v)) (iov_len v) SEND (nb_tag n) r False s;
          if ret < 0 then Some (ret, s1) else send_all w vs ns rs s1 }"
| "send_all w _ _ _ s = Some (0, s)"

text \<open>The vector of requests is destroyed at every return.\<close>

definition drop_requests :: "nat \<Rightarrow> 'f world \<Rightarrow> rid list \<Rightarrow> 'f preload \<Rightarrow> 'f preload option" where
  "drop_requests d w rs = in_lfi (free_all d w (map Some rs))"

definition internal_sendmsg ::
    "nat \<Rightarrow> 'f world \<Rightarrow> 'f posix \<Rightarrow> int \<Rightarrow> iovec list \<Rightarrow> 'f preload \<Rightarrow> (int \<times> 'f preload) option" where
  "internal_sendmsg d w px fd iov s =
     (if iov = [] then Some (0, s)
      else do {
        sk \<leftarrow> pl_socks s fd;
        let comm_id = sk_lfi_id sk;
        if comm_id = -1 then Some (-1, s)
        else do {
          (comm, s1) \<leftarrow> on_lfi (get_comm w (u32_of comm_id)) s;
          case comm of
            None \<Rightarrow> Some (-1, s1)
          | Some c \<Rightarrow> do {
              let groups = make_groups (LFI_ld_preload_buffered (l_env (pl_lfi s1))) iov;
              let (buffered, s2) = new_array px (unat (size_to_buffer groups)) s1;
              let (v_iov, s3) = proxy (build_iov (px_mem px) buffered iov groups 0) s2;
              ((rs, ns), s4) \<leftarrow> announce c v_iov s3;
              let (noti, s5) = proxy (px_alloc px (8 * length ns)) s4;
              let s6 = mem_write px noti (noti_bytes ns) s5;
              (msg_not, s7) \<leftarrow> on_lfi (send_internal d w (u32_of comm_id) (Mem noti) (word_of_nat (8 * length ns)) SEND
                                       LFI_TAG_RECV_LD_PRELOAD) s6;
              if msg_not < 0 then do { s8 \<leftarrow> drop_requests d w rs s7; Some (msg_not, s8) }
              else do {
                (ret, s8) \<leftarrow> on_lfi (send_all w v_iov ns rs) s7;
                if ret < 0 then do { s9 \<leftarrow> drop_requests d w rs s8; Some (ret, s9) }
                else do {
                  (ret2, s9) \<leftarrow> on_lfi (wait_num d w rs (int (length rs)) (-1)) s8;
                  s10 \<leftarrow> drop_requests d w rs s9;
                  Some (if ret2 < 0 then ret2 else i64 (sum_list (map iov_len v_iov)), s10) } } } } })"

end
