(* ===== verification/Preload_Recv.thy ===== *)
theory Preload_Recv
  imports Preload_Send
begin

text \<open>
  The receiving half of the socket replacement: \<open>ld_preload::internal_recvmsg\<close>, which hands the application
  what has arrived, and the threads that wait for notifications, receive what they announce and make the
  socket's eventfd readable (\<open>thread_eventfd_start\<close>, \<open>thread_eventfd_loop\<close>, \<open>thread_eventfd_end\<close>).
\<close>

subsection \<open>Reading\<close>

text \<open>The pieces of the application are filled from the first buffer until it is used up.\<close>

fun fill_iov :: "'f posix \<Rightarrow> iovec list \<Rightarrow> buffered \<Rightarrow> u64 \<Rightarrow> 'f preload \<Rightarrow> (buffered \<times> u64) \<times> 'f preload" where
  "fill_iov px [] buff ret s = ((buff, ret), s)"
| "fill_iov px (v # vs) buff ret s =
     (let size' = word_of_nat (length (bf_buffer buff))
      in if size' = bf_consumed buff then ((buff, ret), s)
         else (let to_copy = min (iov_len v) (size' - bf_consumed buff);
                   data = take (unat to_copy) (drop (unat (bf_consumed buff)) (bf_buffer buff))
               in fill_iov px vs (buff\<lparr>bf_consumed := bf_consumed buff + to_copy\<rparr>) (ret + to_copy)
                    (mem_write px (iov_base v) data s)))"

definition internal_recvmsg ::
    "'f world \<Rightarrow> 'f posix \<Rightarrow> int \<Rightarrow> iovec list \<Rightarrow> 'f preload \<Rightarrow> (int \<times> 'f preload) option" where
  "internal_recvmsg w px fd iov s =
     do { sk0 \<leftarrow> pl_socks s fd;
          if sk_lfi_id sk0 = -1 then Some (-1, s)
          else do {
            (comm, s1) \<leftarrow> on_lfi (get_comm w (u32_of (sk_lfi_id sk0))) s;
            if comm = None then Some (-1, s1)
            else do {
              sk \<leftarrow> pl_socks s1 fd;
              case sk_buffers sk of
                [] \<Rightarrow> Some (-1, snd (proxy (\<lambda>f. ((), px_set_errno px EAGAIN f)) s1))
              | front # rest \<Rightarrow>
                  (let ((buff, ret), s2) = fill_iov px iov front 0 s1
                   in if word_of_nat (length (bf_buffer buff)) = bf_consumed buff
                      then Some (i64 ret, snd (eventfd_read px (sk_eventfd sk) (set_sock fd (sk\<lparr>sk_buffers := rest\<rparr>) s2)))
                      else Some (i64 ret, set_sock fd (sk\<lparr>sk_buffers := buff # rest\<rparr>) s2)) } } }"

subsection \<open>The thread's buffers\<close>

text \<open>The local variables of \<open>thread_eventfd_loop\<close>: the addresses of the three arrays of 1024 notifications and
  the requests of the last round.\<close>

record notifier =
  nt_noti :: u64
  nt_shm :: u64
  nt_peer :: u64
  nt_reqs :: "rid list"

definition NOTI_COUNT :: nat where "NOTI_COUNT = 1024"

definition noti_at :: "'f posix \<Rightarrow> u64 \<Rightarrow> nat \<Rightarrow> 'f preload \<Rightarrow> noti_buff" where
  "noti_at px a i s =
     (let bs = mem_read px (a + word_of_nat (8 * i)) 8 s
      in \<lparr>nb_size = le_word (take 4 bs), nb_tag = le_word (drop 4 bs)\<rparr>)"

text \<open>\<open>any_recv\<close>: 0 or -1.\<close>

definition any_recv :: "'f world \<Rightarrow> notifier \<Rightarrow> bool \<Rightarrow> rid \<Rightarrow> 'f preload \<Rightarrow> (int \<times> 'f preload) option" where
  "any_recv w nt is_shm r s =
     do { (ret, s1) \<leftarrow> on_lfi (async_recv_internal w (Mem (if is_shm then nt_shm nt else nt_peer nt))
                               (word_of_nat (8 * NOTI_COUNT)) RECV LFI_TAG_RECV_LD_PRELOAD r False) s;
          Some (if i32 ret < 0 then -1 else 0, s1) }"

text \<open>The slot of a thread in \<open>m_shm_request\<close> or \<open>m_peer_request\<close>; indexing past the end is undefined.\<close>

definition slot :: "bool \<Rightarrow> nat \<Rightarrow> 'f preload \<Rightarrow> rid option option" where
  "slot is_shm tid s =
     (let rs = (if is_shm then pl_shm s else pl_peer s) in if tid < length rs then Some (rs ! tid) else None)"

definition set_slot :: "bool \<Rightarrow> nat \<Rightarrow> rid \<Rightarrow> 'f preload \<Rightarrow> 'f preload" where
  "set_slot is_shm tid r s =
     (if is_shm then s\<lparr>pl_shm := (pl_shm s)[tid := Some r]\<rparr> else s\<lparr>pl_peer := (pl_peer s)[tid := Some r]\<rparr>)"

text \<open>The request on an any communicator, made when it is missing. False is \<open>continue\<close>.\<close>

definition ensure_any :: "'f world \<Rightarrow> notifier \<Rightarrow> bool \<Rightarrow> nat \<Rightarrow> 'f preload \<Rightarrow> (bool \<times> 'f preload) option" where
  "ensure_any w nt is_shm tid s =
     do { req \<leftarrow> slot is_shm tid s;
          if req \<noteq> None then Some (True, s)
          else do {
            (comm, s1) \<leftarrow> on_lfi (get_comm w (if is_shm then LFI_ANY_COMM_SHM else LFI_ANY_COMM_PEER)) s;
            case comm of
              None \<Rightarrow> Some (False, s1)
            | Some c \<Rightarrow> do {
                m \<leftarrow> the_comm c (pl_lfi s1);
                (r, s2) \<leftarrow> on_lfi (new_request (cm_endpoint m) c) s1;
                (_, s3) \<leftarrow> any_recv w nt is_shm r (set_slot is_shm tid r s2);
                Some (True, s3) } } }"

text \<open>\<open>std::vector::swap\<close> of the notifications with the array that was received into.\<close>

definition swap_noti :: "bool \<Rightarrow> notifier \<Rightarrow> notifier" where
  "swap_noti is_shm nt =
     (if is_shm then nt\<lparr>nt_noti := nt_shm nt, nt_shm := nt_noti nt\<rparr>
      else nt\<lparr>nt_noti := nt_peer nt, nt_peer := nt_noti nt\<rparr>)"

subsection \<open>One notification\<close>

text \<open>Source and number of entries of the completed request, which is posted again. The two branches of the
  conditional have the types \<open>int\<close> and \<open>uint32_t\<close>; the result is an \<open>int\<close> again.\<close>

definition take_notification ::
    "'f world \<Rightarrow> notifier \<Rightarrow> bool \<Rightarrow> rid \<Rightarrow> 'f preload \<Rightarrow> ((int \<times> u64) \<times> notifier \<times> 'f preload) option" where
  "take_notification w nt is_shm r s =
     do { q \<leftarrow> l_reqs (pl_lfi s) r;
          let source = (if rq_error q < 0 then rq_error q else i32 (uint (rq_source q)));
          let nt1 = swap_noti is_shm nt;
          (_, s1) \<leftarrow> any_recv w nt1 is_shm r s;
          Some ((source, rq_size q div 8), nt1, s1) }"

text \<open>\<open>wait_num\<close> on the two requests: \<open>None\<close> is \<open>continue\<close>.\<close>

definition next_notification ::
    "nat \<Rightarrow> 'f world \<Rightarrow> nat \<Rightarrow> notifier \<Rightarrow> 'f preload \<Rightarrow> ((int \<times> u64) option \<times> notifier \<times> 'f preload) option" where
  "next_notification d w tid nt s =
     do { (shm, s1) \<leftarrow> ensure_any w nt True tid s;
          if \<not> shm then Some (None, nt, s1)
          else do {
            (peer, s2) \<leftarrow> ensure_any w nt False tid s1;
            if \<not> peer then Some (None, nt, s2)
            else do {
              rs \<leftarrow> Option.bind (slot True tid s2) (\<lambda>x. x);
              rp \<leftarrow> Option.bind (slot False tid s2) (\<lambda>x. x);
              (completed, s3) \<leftarrow> on_lfi (wait_num d w [rs, rp] 1 (-1)) s2;
              if completed = 0 \<or> completed = 1
              then do { ((source, n), nt1, s4) \<leftarrow> take_notification w nt (completed = 0) (if completed = 0 then rs else rp) s3;
                        Some (if source < 0 then None else Some (source, n), nt1, s4) }
              else Some (None, nt, s3) } } }"

text \<open>Which socket the source belongs to, and its communicator.\<close>

definition find_target :: "'f world \<Rightarrow> int \<Rightarrow> 'f preload \<Rightarrow> ((int \<times> cid) option \<times> 'f preload) option" where
  "find_target w source s =
     (case pl_map s source of
        None \<Rightarrow> Some (None, s)
      | Some fd \<Rightarrow>
          (case pl_socks s fd of
             None \<Rightarrow> Some (None, s)
           | Some sk \<Rightarrow> do { (comm, s1) \<leftarrow> on_lfi (get_comm w (u32_of (sk_lfi_id sk))) s;
                            Some (map_option (\<lambda>c. (fd, c)) comm, s1) }))"

fun new_requests :: "cid \<Rightarrow> nat \<Rightarrow> 'f preload \<Rightarrow> (rid list \<times> 'f preload) option" where
  "new_requests c 0 s = Some ([], s)"
| "new_requests c (Suc n) s =
     do { m \<leftarrow> the_comm c (pl_lfi s);
          (r, s1) \<leftarrow> on_lfi (new_request (cm_endpoint m) c) s;
          (rs, s2) \<leftarrow> new_requests c n s1;
          Some (r # rs, s2) }"

text \<open>The receives, one behind the other in the new buffer: true when all were accepted.\<close>

fun recv_all :: "'f world \<Rightarrow> u64 \<Rightarrow> noti_buff list \<Rightarrow> rid list \<Rightarrow> u64 \<Rightarrow> 'f lfi \<Rightarrow> (bool \<times> 'f lfi) option" where
  "recv_all w a (n # ns) (r # rs) already s =
     do { (ret, s1) \<leftarrow> async_recv_internal w (Mem (a + already)) (ucast (nb_size n)) RECV (nb_tag n) r False s;
          if ret < 0 then Some (False, s1) else recv_all w a ns rs (already + ucast (nb_size n)) s1 }"
| "recv_all w a _ _ already s = Some (True, s)"

text \<open>The messages that were announced: \<open>None\<close> is \<open>continue\<close>. More entries than the array holds is undefined.\<close>

definition fetch_messages ::
    "nat \<Rightarrow> 'f world \<Rightarrow> 'f posix \<Rightarrow> cid \<Rightarrow> u64 \<Rightarrow> notifier \<Rightarrow> 'f preload \<Rightarrow> (u8 list option \<times> notifier \<times> 'f preload) option" where
  "fetch_messages d w px c how_many nt s =
     (let n = unat how_many
      in if NOTI_COUNT < n then None
         else do {
           s1 \<leftarrow> drop_requests d w (nt_reqs nt) s;
           (rs, s2) \<leftarrow> new_requests c n s1;
           let nt1 = nt\<lparr>nt_reqs := rs\<rparr>;
           let ns = map (\<lambda>i. noti_at px (nt_noti nt) i s2) [0..<n];
           let buff_size = (\<Sum>n\<leftarrow>ns. ucast (nb_size n));
           let (a, s3) = new_array px (unat buff_size) s2;
           (ok, s4) \<leftarrow> on_lfi (recv_all w a ns rs 0) s3;
           if \<not> ok then Some (None, nt1, s4)
           else do {
             (ret, s5) \<leftarrow> on_lfi (wait_num d w rs (int (length rs)) (-1)) s4;
             Some (if ret < 0 then None else Some (mem_read px a buff_size s5), nt1, s5) } })"

text \<open>The end of the round. The pointer to the socket was taken before the messages were received; when the
  application has closed the socket since, it dangles.\<close>

definition push_buffer :: "'f posix \<Rightarrow> int \<Rightarrow> u8 list \<Rightarrow> 'f preload \<Rightarrow> 'f preload option" where
  "push_buffer px fd data s =
     do { sk \<leftarrow> pl_socks s fd;
          let s1 = set_sock fd (sk\<lparr>sk_buffers := sk_buffers sk @ [\<lparr>bf_buffer = data, bf_consumed = 0\<rparr>]\<rparr>) s;
          Some (snd (eventfd_write px (sk_eventfd sk) 1 s1)) }"

text \<open>A round up to the point where the socket's mutex is taken.\<close>

definition fetch_round ::
    "nat \<Rightarrow> 'f world \<Rightarrow> 'f posix \<Rightarrow> nat \<Rightarrow> notifier \<Rightarrow> 'f preload \<Rightarrow> ((int \<times> u8 list) option \<times> notifier \<times> 'f preload) option" where
  "fetch_round d w px tid nt s =
     do { (noti, nt1, s1) \<leftarrow> next_notification d w tid nt s;
          case noti of
            None \<Rightarrow> Some (None, nt1, s1)
          | Some (source, how_many) \<Rightarrow> do {
              (target, s2) \<leftarrow> find_target w source s1;
              case target of
                None \<Rightarrow> Some (None, nt1, s2)
              | Some (fd, c) \<Rightarrow> do {
                  (data, nt2, s3) \<leftarrow> fetch_messages d w px c how_many nt1 s2;
                  Some (map_option (\<lambda>bs. (fd, bs)) data, nt2, s3) } } }"

definition notifier_round ::
    "nat \<Rightarrow> 'f world \<Rightarrow> 'f posix \<Rightarrow> nat \<Rightarrow> notifier \<Rightarrow> 'f preload \<Rightarrow> (notifier \<times> 'f preload) option" where
  "notifier_round d w px tid nt s =
     do { (data, nt1, s1) \<leftarrow> fetch_round d w px tid nt s;
          case data of
            None \<Rightarrow> Some (nt1, s1)
          | Some (fd, bs) \<Rightarrow> do { s2 \<leftarrow> push_buffer px fd bs s1; Some (nt1, s2) } }"

text \<open>\<open>sched\<close> is what the other threads do between two rounds; the requests are destroyed at the end.\<close>

partial_function (option) notifier_loop ::
    "nat \<Rightarrow> 'f world \<Rightarrow> 'f posix \<Rightarrow> ('f preload \<Rightarrow> 'f preload) \<Rightarrow> nat \<Rightarrow> notifier \<Rightarrow> 'f preload \<Rightarrow> 'f preload option" where
  "notifier_loop d w px sched tid nt s =
     (if \<not> pl_running s then drop_requests d w (nt_reqs nt) s
      else do { (nt1, s1) \<leftarrow> notifier_round d w px tid nt s; notifier_loop d w px sched tid nt1 (sched s1) })"

declare notifier_loop.simps [code]

definition thread_eventfd_loop ::
    "nat \<Rightarrow> 'f world \<Rightarrow> 'f posix \<Rightarrow> ('f preload \<Rightarrow> 'f preload) \<Rightarrow> nat \<Rightarrow> 'f preload \<Rightarrow> 'f preload option" where
  "thread_eventfd_loop d w px sched tid s =
     (let (a, s1) = new_array px (8 * NOTI_COUNT) s;
          (b, s2) = new_array px (8 * NOTI_COUNT) s1;
          (c, s3) = new_array px (8 * NOTI_COUNT) s2
      in notifier_loop d w px sched tid \<lparr>nt_noti = a, nt_shm = b, nt_peer = c, nt_reqs = []\<rparr> s3)"

subsection \<open>Starting and stopping the threads\<close>

text \<open>Starting one thread: the thread runs from its construction on, before its slots exist. What it does
  until then is \<open>early\<close>.\<close>

definition start_thread :: "(nat \<Rightarrow> 'f preload \<Rightarrow> 'f preload option) \<Rightarrow> nat \<Rightarrow> 'f preload \<Rightarrow> 'f preload option" where
  "start_thread early i s =
     do { s1 \<leftarrow> early i s;
          Some (s1\<lparr>pl_threads := Suc (pl_threads s1), pl_shm := pl_shm s1 @ [None], pl_peer := pl_peer s1 @ [None]\<rparr>) }"

fun start_threads :: "(nat \<Rightarrow> 'f preload \<Rightarrow> 'f preload option) \<Rightarrow> nat list \<Rightarrow> 'f preload \<Rightarrow> 'f preload option" where
  "start_threads early [] s = Some s"
| "start_threads early (i # is) s = do { s1 \<leftarrow> start_thread early i s; start_threads early is s1 }"

definition thread_eventfd_start :: "(nat \<Rightarrow> 'f preload \<Rightarrow> 'f preload option) \<Rightarrow> 'f preload \<Rightarrow> 'f preload option" where
  "thread_eventfd_start early s =
     (if pl_running s then Some s
      else start_threads early [0..<unat (LFI_ld_preload_threads (l_env (pl_lfi s)))] (s\<lparr>pl_running := True\<rparr>))"

text \<open>\<open>m_shm_request[i]->cancel()\<close>: a null pointer when the thread has not made its request.\<close>

definition cancel_slot :: "nat \<Rightarrow> 'f world \<Rightarrow> bool \<Rightarrow> nat \<Rightarrow> 'f preload \<Rightarrow> 'f preload option" where
  "cancel_slot d w is_shm i s =
     do { req \<leftarrow> slot is_shm i s; r \<leftarrow> req; in_lfi (cancel d w r) s }"

fun cancel_slots :: "nat \<Rightarrow> 'f world \<Rightarrow> nat list \<Rightarrow> 'f preload \<Rightarrow> 'f preload option" where
  "cancel_slots d w [] s = Some s"
| "cancel_slots d w (i # is) s =
     do { s1 \<leftarrow> cancel_slot d w True i s; s2 \<leftarrow> cancel_slot d w False i s1; cancel_slots d w is s2 }"

text \<open>\<open>join\<close> waits for the end of the threads, which \<open>join\<close> gives.\<close>

definition thread_eventfd_end :: "nat \<Rightarrow> 'f world \<Rightarrow> ('f preload \<Rightarrow> 'f preload option) \<Rightarrow> 'f preload \<Rightarrow> 'f preload option" where
  "thread_eventfd_end d w join s =
     (if \<not> pl_running s then Some s
      else do { s1 \<leftarrow> cancel_slots d w [0..<unat (LFI_ld_preload_threads (l_env (pl_lfi s)))] (s\<lparr>pl_running := False\<rparr>);
                join s1 })"

text \<open>The constructor and the destructor. An exception of the constructor of \<open>LFI\<close> leaves it: \<open>Inl\<close>.\<close>

definition preload_ctor ::
    "'f world \<Rightarrow> 'f provider \<Rightarrow> (nat \<Rightarrow> 'f preload \<Rightarrow> 'f preload option) \<Rightarrow> 'f lfi \<Rightarrow> (string + 'f preload) option" where
  "preload_ctor w pv early l =
     do { (thrown, l1) \<leftarrow> lfi_ctor w pv l;
          case thrown of
            Some e \<Rightarrow> Some (Inl e)
          | None \<Rightarrow> map_option Inr (thread_eventfd_start early (preload_new l1)) }"

fun reset_slots :: "nat \<Rightarrow> 'f world \<Rightarrow> nat list \<Rightarrow> 'f preload \<Rightarrow> 'f preload option" where
  "reset_slots d w [] s = Some s"
| "reset_slots d w (i # is) s =
     do { rs \<leftarrow> slot True i s;
          s1 \<leftarrow> in_lfi (lfi_request_free d w rs) s;
          rp \<leftarrow> slot False i s1;
          s2 \<leftarrow> in_lfi (lfi_request_free d w rp) s1;
          reset_slots d w is s2 }"

definition preload_dtor :: "nat \<Rightarrow> 'f world \<Rightarrow> ('f preload \<Rightarrow> 'f preload option) \<Rightarrow> 'f preload \<Rightarrow> 'f lfi option" where
  "preload_dtor d w join s =
     do { s1 \<leftarrow> thread_eventfd_end d w join s;
          s2 \<leftarrow> reset_slots d w [0..<unat (LFI_ld_preload_threads (l_env (pl_lfi s1)))] s1;
          lfi_dtor d w (pl_lfi s2) }"

end
