(* ===== verification/Preload_Calls.thy ===== *)
theory Preload_Calls
  imports Preload_Recv
begin

text \<open>
  The functions of the C library that \<open>ld_preload.cpp\<close> replaces. Those that carry data go to the communicator
  of the socket when it has an entry in \<open>socket_ids\<close>; connecting and accepting make the communicator; waiting
  is redirected to the eventfd; the others call the original.
\<close>

subsection \<open>Sockets\<close>

definition SOCK_STREAM :: int where "SOCK_STREAM = 1"
definition EINPROGRESS :: int where "EINPROGRESS = 115"

definition pre_socket :: "'f posix \<Rightarrow> int \<Rightarrow> int \<Rightarrow> int \<Rightarrow> 'f preload \<Rightarrow> (int \<times> 'f preload) option" where
  "pre_socket px domain type' protocol =
     unless_libfabric px (px_socket px domain type' protocol)
       (\<lambda>s. let (ret, s1) = proxy (px_socket px domain type' protocol) s
            in Some (ret, if ret < 0 then s1
                          else if type' = SOCK_STREAM
                          then s1\<lparr>pl_socks := map_emplace ret lfi_socket_new (pl_socks s1)\<rparr> else s1))"

text \<open>The loops around \<open>recv_str\<close> and \<open>send_str\<close>.\<close>

partial_function (option) recv_str_again :: "'f os \<Rightarrow> int \<Rightarrow> string \<Rightarrow> 'f \<Rightarrow> ((int \<times> string) \<times> 'f) option" where
  "recv_str_again os fd str f =
     do { ((ret, str1), f1) \<leftarrow> recv_str os fd str f;
          if i32 ret < 0 \<and> os_errno os f1 = EAGAIN then recv_str_again os fd str1 f1 else Some ((ret, str1), f1) }"

partial_function (option) send_str_again :: "'f os \<Rightarrow> int \<Rightarrow> string \<Rightarrow> 'f \<Rightarrow> (int \<times> 'f) option" where
  "send_str_again os fd str f =
     do { (ret, f1) \<leftarrow> send_str os fd str f;
          if i32 ret < 0 \<and> os_errno os f1 = EAGAIN then send_str_again os fd str f1 else Some (ret, f1) }"

declare recv_str_again.simps [code] send_str_again.simps [code]

definition on_fab :: "('f \<Rightarrow> ('a \<times> 'f) option) \<Rightarrow> 'f preload \<Rightarrow> ('a \<times> 'f preload) option" where
  "on_fab call s =
     do { (r, f) \<leftarrow> call (l_fab (pl_lfi s)); Some (r, s\<lparr>pl_lfi := (pl_lfi s)\<lparr>l_fab := f\<rparr>\<rparr>) }"

text \<open>The entry of a socket is written through \<open>socket_ids[fd]\<close>; one that is missing is a null pointer.\<close>

definition set_lfi_id :: "int \<Rightarrow> int \<Rightarrow> 'f preload \<Rightarrow> 'f preload option" where
  "set_lfi_id fd c s = do { sk \<leftarrow> pl_socks s fd; Some (set_sock fd (sk\<lparr>sk_lfi_id := c\<rparr>) s) }"

text \<open>Ten messages in each direction, whose errors are only printed. The client sends first.\<close>

fun hello_rounds :: "nat \<Rightarrow> 'f world \<Rightarrow> ptr \<Rightarrow> bool \<Rightarrow> cid \<Rightarrow> nat \<Rightarrow> 'f lfi \<Rightarrow> 'f lfi option" where
  "hello_rounds d w p client c 0 s = Some s"
| "hello_rounds d w p client c (Suc n) s =
     do { (_, s1) \<leftarrow> (if client then send_internal d w c p 1024 SEND 1 s else recv_internal d w c p 1024 RECV 1 s);
          (_, s2) \<leftarrow> (if client then recv_internal d w c p 1024 RECV 1 s1 else send_internal d w c p 1024 SEND 1 s1);
          hello_rounds d w p client c n s2 }"

text \<open>\<open>client_init(server_addr, LFI_port, true)\<close>: the third parameter is the time-out, 1 ms, and the address is taken
  for a name. A negative socket is only reported.\<close>

definition connect_lfi ::
    "nat \<Rightarrow> 'f os \<Rightarrow> 'f world \<Rightarrow> 'f posix \<Rightarrow> int \<Rightarrow> int \<Rightarrow> int \<Rightarrow> string \<Rightarrow> 'f preload \<Rightarrow> (int \<times> 'f preload) option" where
  "connect_lfi d os w px sockfd ret save_errno server_addr s =
     do { (client_socket, s1) \<leftarrow> on_fab (client_init os server_addr (LFI_port (l_env (pl_lfi s))) 1 False) s;
          (new_fd, s2) \<leftarrow> on_lfi (\<lambda>l. Some (reserve_comm l)) s1;
          (ret_init, s3) \<leftarrow> on_lfi (init_client d os w client_socket new_fd) s2;
          let (_, s4) = proxy (sock_close os client_socket) s3;
          s5 \<leftarrow> set_lfi_id sockfd (i32 (uint new_fd)) s4;
          if ret_init < 0 then Some (ret_init, s5)
          else do {
            let s6 = s5\<lparr>pl_map := map_emplace (i32 (uint new_fd)) sockfd (pl_map s5)\<rparr>;
            (_, s7) \<leftarrow> create_eventfd px sockfd s6;
            let (_, s8) = proxy (\<lambda>f. ((), px_set_errno px save_errno f)) s7;
            s9 \<leftarrow> in_lfi (hello_rounds d w (Mem (os_buf_addr os)) True new_fd 10) s8;
            Some (ret, s9) } }"

definition pre_connect ::
    "nat \<Rightarrow> 'f os \<Rightarrow> 'f world \<Rightarrow> 'f posix \<Rightarrow> int \<Rightarrow> u64 \<Rightarrow> u32 \<Rightarrow> 'f preload \<Rightarrow> (int \<times> 'f preload) option" where
  "pre_connect d os w px sockfd addr addrlen =
     unless_libfabric px (px_connect px sockfd addr addrlen)
       (\<lambda>s. let (ret, s1) = proxy (px_connect px sockfd addr addrlen) s;
                save_errno = os_errno os (l_fab (pl_lfi s1))
            in if ret = -1 \<and> save_errno \<noteq> EINPROGRESS then Some (ret, s1)
               else if pl_socks s1 sockfd = None then Some (ret, s1)
               else do {
                 (_, s2) \<leftarrow> on_fab (send_again os sockfd (le_bytes 8 (123 :: u64))) s1;
                 (_, s3) \<leftarrow> on_fab (recv_again os sockfd (le_bytes 8 (123 :: u64))) s2;
                 ((_, server_addr), s4) \<leftarrow> on_fab (recv_str_again os sockfd '''') s3;
                 connect_lfi d os w px sockfd ret save_errno server_addr s4 })"

text \<open>\<open>server_init\<close> takes the port by reference and writes it back to the settings.\<close>

definition accept_lfi ::
    "nat \<Rightarrow> 'f os \<Rightarrow> 'f world \<Rightarrow> 'f posix \<Rightarrow> int \<Rightarrow> int \<Rightarrow> 'f preload \<Rightarrow> (int \<times> 'f preload) option" where
  "accept_lfi d os w px ret server_socket s =
     do { (client_socket, s1) \<leftarrow> on_fab (sock_accept os server_socket 0) s;
          (new_fd, s2) \<leftarrow> on_lfi (\<lambda>l. Some (reserve_comm l)) s1;
          (ret_init, s3) \<leftarrow> on_lfi (init_server d os w client_socket new_fd) s2;
          let (_, s4) = proxy (sock_close os client_socket) s3;
          let (_, s5) = proxy (sock_close os server_socket) s4;
          if ret_init < 0 then Some (ret_init, s5)
          else do {
            let s6 = s5\<lparr>pl_socks := map_emplace ret lfi_socket_new (pl_socks s5)\<rparr>;
            s7 \<leftarrow> set_lfi_id ret (i32 (uint new_fd)) s6;
            (_, s8) \<leftarrow> create_eventfd px ret s7;
            let s9 = s8\<lparr>pl_map := map_emplace (i32 (uint new_fd)) ret (pl_map s8)\<rparr>;
            s10 \<leftarrow> in_lfi (hello_rounds d w (Mem (os_buf_addr os)) False new_fd 10) s9;
            Some (ret, s10) } }"

definition pre_accept4 ::
    "nat \<Rightarrow> 'f os \<Rightarrow> 'f world \<Rightarrow> 'f posix \<Rightarrow> int \<Rightarrow> u64 \<Rightarrow> u64 \<Rightarrow> int \<Rightarrow> 'f preload \<Rightarrow> (int \<times> 'f preload) option" where
  "pre_accept4 d os w px sockfd addr addrlen flags =
     unless_libfabric px (px_accept4 px sockfd addr addrlen flags)
       (\<lambda>s. let (ret, s1) = proxy (px_accept4 px sockfd addr addrlen flags) s
            in if ret < 0 then Some (ret, s1)
               else if pl_socks s1 sockfd = None then Some (ret, s1)
               else do {
                 (host_ip, s2) \<leftarrow> on_fab (get_host_ip os '''') s1;
                 let ((server_socket, port), s3) = proxy (server_init os '''' (LFI_port (l_env (pl_lfi s2)))) s2;
                 let s4 = s3\<lparr>pl_lfi := (pl_lfi s3)\<lparr>l_env := (l_env (pl_lfi s3))\<lparr>LFI_port := port\<rparr>\<rparr>\<rparr>;
                 if server_socket < 0 then Some (server_socket, s4)
                 else do {
                   ((_, buff), s5) \<leftarrow> on_fab (recv_again os ret (le_bytes 8 (123 :: u64))) s4;
                   (_, s6) \<leftarrow> on_fab (send_again os ret buff) s5;
                   (_, s7) \<leftarrow> on_fab (send_str_again os ret host_ip) s6;
                   accept_lfi d os w px ret server_socket s7 } })"

definition pre_accept ::
    "nat \<Rightarrow> 'f os \<Rightarrow> 'f world \<Rightarrow> 'f posix \<Rightarrow> int \<Rightarrow> u64 \<Rightarrow> u64 \<Rightarrow> 'f preload \<Rightarrow> (int \<times> 'f preload) option" where
  "pre_accept d os w px sockfd addr addrlen s =
     do { _ \<leftarrow> is_caller_libfabric px s; pre_accept4 d os w px sockfd addr addrlen 0 s }"

definition pre_close :: "nat \<Rightarrow> 'f world \<Rightarrow> 'f posix \<Rightarrow> int \<Rightarrow> 'f preload \<Rightarrow> (int \<times> 'f preload) option" where
  "pre_close d w px fd =
     unless_libfabric px (px_close px fd)
       (\<lambda>s. let (ret, s1) = proxy (px_close px fd) s
            in case pl_socks s1 fd of
                 None \<Rightarrow> Some (ret, s1)
               | Some sk \<Rightarrow> do {
                   (ret1, s2) \<leftarrow> (if sk_lfi_id sk \<noteq> -1 then on_lfi (close_comm d w (u32_of (sk_lfi_id sk))) s1
                                  else Some (ret, s1));
                   let s3 = s2\<lparr>pl_map := (pl_map s2)(sk_lfi_id sk := None)\<rparr>;
                   (_, s4) \<leftarrow> destroy_eventfd px fd s3;
                   Some (i32 ret1, s4\<lparr>pl_socks := (pl_socks s4)(fd := None)\<rparr>) })"

subsection \<open>Data\<close>

text \<open>The common form: the original for a descriptor without an entry.\<close>

definition on_socket ::
    "'f posix \<Rightarrow> int \<Rightarrow> ('f \<Rightarrow> int \<times> 'f) \<Rightarrow> ('f preload \<Rightarrow> (int \<times> 'f preload) option) \<Rightarrow> 'f preload \<Rightarrow> (int \<times> 'f preload) option" where
  "on_socket px fd call body =
     unless_libfabric px call (\<lambda>s. if pl_socks s fd = None then Some (proxy call s) else body s)"

definition pre_write ::
    "nat \<Rightarrow> 'f world \<Rightarrow> 'f posix \<Rightarrow> int \<Rightarrow> u64 \<Rightarrow> u64 \<Rightarrow> 'f preload \<Rightarrow> (int \<times> 'f preload) option" where
  "pre_write d w px fd buf count =
     on_socket px fd (px_write px fd buf count) (internal_sendmsg d w px fd [\<lparr>iov_base = buf, iov_len = count\<rparr>])"

definition pre_writev ::
    "nat \<Rightarrow> 'f world \<Rightarrow> 'f posix \<Rightarrow> int \<Rightarrow> iovec list \<Rightarrow> 'f preload \<Rightarrow> (int \<times> 'f preload) option" where
  "pre_writev d w px fd iov = on_socket px fd (px_writev px fd iov) (internal_sendmsg d w px fd iov)"

definition pre_read :: "'f world \<Rightarrow> 'f posix \<Rightarrow> int \<Rightarrow> u64 \<Rightarrow> u64 \<Rightarrow> 'f preload \<Rightarrow> (int \<times> 'f preload) option" where
  "pre_read w px fd buf count =
     on_socket px fd (px_read px fd buf count) (internal_recvmsg w px fd [\<lparr>iov_base = buf, iov_len = count\<rparr>])"

definition pre_readv :: "'f world \<Rightarrow> 'f posix \<Rightarrow> int \<Rightarrow> iovec list \<Rightarrow> 'f preload \<Rightarrow> (int \<times> 'f preload) option" where
  "pre_readv w px fd iov = on_socket px fd (px_readv px fd iov) (internal_recvmsg w px fd iov)"

text \<open>The flags only reach the original.\<close>

definition pre_recv :: "'f world \<Rightarrow> 'f posix \<Rightarrow> int \<Rightarrow> u64 \<Rightarrow> u64 \<Rightarrow> int \<Rightarrow> 'f preload \<Rightarrow> (int \<times> 'f preload) option" where
  "pre_recv w px fd buf len flags =
     on_socket px fd (px_recv px fd buf len flags) (internal_recvmsg w px fd [\<lparr>iov_base = buf, iov_len = len\<rparr>])"

definition pre_recvmsg :: "'f world \<Rightarrow> 'f posix \<Rightarrow> int \<Rightarrow> msghdr \<Rightarrow> int \<Rightarrow> 'f preload \<Rightarrow> (int \<times> 'f preload) option" where
  "pre_recvmsg w px fd msg flags =
     on_socket px fd (px_recvmsg px fd msg flags) (internal_recvmsg w px fd (msg_iov msg))"

definition pre_send ::
    "nat \<Rightarrow> 'f world \<Rightarrow> 'f posix \<Rightarrow> int \<Rightarrow> u64 \<Rightarrow> u64 \<Rightarrow> int \<Rightarrow> 'f preload \<Rightarrow> (int \<times> 'f preload) option" where
  "pre_send d w px fd buf len flags =
     on_socket px fd (px_send px fd buf len flags) (internal_sendmsg d w px fd [\<lparr>iov_base = buf, iov_len = len\<rparr>])"

definition pre_sendmsg ::
    "nat \<Rightarrow> 'f world \<Rightarrow> 'f posix \<Rightarrow> int \<Rightarrow> msghdr \<Rightarrow> int \<Rightarrow> 'f preload \<Rightarrow> (int \<times> 'f preload) option" where
  "pre_sendmsg d w px fd msg flags =
     on_socket px fd (px_sendmsg px fd msg flags) (internal_sendmsg d w px fd (msg_iov msg))"

subsection \<open>Waiting\<close>

definition pre_epoll_ctl ::
    "'f posix \<Rightarrow> int \<Rightarrow> int \<Rightarrow> int \<Rightarrow> u64 \<Rightarrow> 'f preload \<Rightarrow> (int \<times> 'f preload) option" where
  "pre_epoll_ctl px epfd op fd event =
     unless_libfabric px (px_epoll_ctl px epfd op fd event)
       (\<lambda>s. case pl_socks s fd of
              Some sk \<Rightarrow> Some (proxy (px_epoll_ctl px epfd op (if sk_eventfd sk \<noteq> -1 then sk_eventfd sk else fd) event) s)
            | None \<Rightarrow> Some (proxy (px_epoll_ctl px epfd op fd event) s))"

text \<open>The descriptors that are replaced, with their places; then the array as it is passed on.\<close>

fun replace_fds :: "(int \<Rightarrow> lfi_socket option) \<Rightarrow> nat \<Rightarrow> pollfd list \<Rightarrow> (nat \<times> int) list \<times> pollfd list" where
  "replace_fds socks i [] = ([], [])"
| "replace_fds socks i (p # ps) =
     (let (repl, ps1) = replace_fds socks (Suc i) ps
      in case socks (pf_fd p) of
           None \<Rightarrow> (repl, p # ps1)
         | Some sk \<Rightarrow>
             (if sk_eventfd sk \<noteq> -1 then ((i, pf_fd p) # repl, p\<lparr>pf_fd := sk_eventfd sk\<rparr> # ps1) else (repl, p # ps1)))"

definition restore_fds :: "(nat \<times> int) list \<Rightarrow> pollfd list \<Rightarrow> pollfd list" where
  "restore_fds repl fds = foldl (\<lambda>ps (i, fd). ps[i := (ps ! i)\<lparr>pf_fd := fd\<rparr>]) fds repl"

definition pre_poll ::
    "'f posix \<Rightarrow> pollfd list \<Rightarrow> int \<Rightarrow> 'f preload \<Rightarrow> ((int \<times> pollfd list) \<times> 'f preload) option" where
  "pre_poll px fds timeout =
     unless_libfabric px (px_poll px fds timeout)
       (\<lambda>s. let (replaced_fds, fds1) = replace_fds (pl_socks s) 0 fds;
                ((ret, fds2), s1) = proxy (px_poll px fds1 timeout) s
            in Some ((ret, if ret < 0 then fds2 else restore_fds replaced_fds fds2), s1))"

subsection \<open>Functions that only pass on\<close>

definition pre_bind :: "'f posix \<Rightarrow> int \<Rightarrow> u64 \<Rightarrow> u32 \<Rightarrow> 'f preload \<Rightarrow> (int \<times> 'f preload) option" where
  "pre_bind px fd addr len = unless_libfabric px (px_bind px fd addr len) (\<lambda>s. Some (proxy (px_bind px fd addr len) s))"

definition pre_listen :: "'f posix \<Rightarrow> int \<Rightarrow> int \<Rightarrow> 'f preload \<Rightarrow> (int \<times> 'f preload) option" where
  "pre_listen px fd backlog = unless_libfabric px (px_listen px fd backlog) (\<lambda>s. Some (proxy (px_listen px fd backlog) s))"

definition pre_recvfrom :: "'f posix \<Rightarrow> int \<Rightarrow> u64 \<Rightarrow> u64 \<Rightarrow> int \<Rightarrow> u64 \<Rightarrow> u64 \<Rightarrow> 'f preload \<Rightarrow> (int \<times> 'f preload) option" where
  "pre_recvfrom px fd buf len flags addr addrlen =
     unless_libfabric px (px_recvfrom px fd buf len flags addr addrlen)
       (\<lambda>s. Some (proxy (px_recvfrom px fd buf len flags addr addrlen) s))"

definition pre_sendto :: "'f posix \<Rightarrow> int \<Rightarrow> u64 \<Rightarrow> u64 \<Rightarrow> int \<Rightarrow> u64 \<Rightarrow> u32 \<Rightarrow> 'f preload \<Rightarrow> (int \<times> 'f preload) option" where
  "pre_sendto px fd buf len flags addr addrlen =
     unless_libfabric px (px_sendto px fd buf len flags addr addrlen)
       (\<lambda>s. Some (proxy (px_sendto px fd buf len flags addr addrlen) s))"

definition pre_shutdown :: "'f posix \<Rightarrow> int \<Rightarrow> int \<Rightarrow> 'f preload \<Rightarrow> (int \<times> 'f preload) option" where
  "pre_shutdown px fd how = unless_libfabric px (px_shutdown px fd how) (\<lambda>s. Some (proxy (px_shutdown px fd how) s))"

definition pre_getpeername :: "'f posix \<Rightarrow> int \<Rightarrow> u64 \<Rightarrow> u64 \<Rightarrow> 'f preload \<Rightarrow> (int \<times> 'f preload) option" where
  "pre_getpeername px fd addr len =
     unless_libfabric px (px_getpeername px fd addr len) (\<lambda>s. Some (proxy (px_getpeername px fd addr len) s))"

definition pre_getsockopt :: "'f posix \<Rightarrow> int \<Rightarrow> int \<Rightarrow> int \<Rightarrow> u64 \<Rightarrow> u64 \<Rightarrow> 'f preload \<Rightarrow> (int \<times> 'f preload) option" where
  "pre_getsockopt px fd level opt val len =
     unless_libfabric px (px_getsockopt px fd level opt val len)
       (\<lambda>s. Some (proxy (px_getsockopt px fd level opt val len) s))"

definition pre_setsockopt :: "'f posix \<Rightarrow> int \<Rightarrow> int \<Rightarrow> int \<Rightarrow> u64 \<Rightarrow> u32 \<Rightarrow> 'f preload \<Rightarrow> (int \<times> 'f preload) option" where
  "pre_setsockopt px fd level opt val len =
     unless_libfabric px (px_setsockopt px fd level opt val len)
       (\<lambda>s. Some (proxy (px_setsockopt px fd level opt val len) s))"

definition pre_epoll_create :: "'f posix \<Rightarrow> int \<Rightarrow> 'f preload \<Rightarrow> (int \<times> 'f preload) option" where
  "pre_epoll_create px n = unless_libfabric px (px_epoll_create px n) (\<lambda>s. Some (proxy (px_epoll_create px n) s))"

definition pre_epoll_create1 :: "'f posix \<Rightarrow> int \<Rightarrow> 'f preload \<Rightarrow> (int \<times> 'f preload) option" where
  "pre_epoll_create1 px flags =
     unless_libfabric px (px_epoll_create1 px flags) (\<lambda>s. Some (proxy (px_epoll_create1 px flags) s))"

definition pre_epoll_wait :: "'f posix \<Rightarrow> int \<Rightarrow> u64 \<Rightarrow> int \<Rightarrow> int \<Rightarrow> 'f preload \<Rightarrow> (int \<times> 'f preload) option" where
  "pre_epoll_wait px epfd events n timeout =
     unless_libfabric px (px_epoll_wait px epfd events n timeout)
       (\<lambda>s. Some (proxy (px_epoll_wait px epfd events n timeout) s))"

definition pre_ppoll ::
    "'f posix \<Rightarrow> pollfd list \<Rightarrow> u64 \<Rightarrow> u64 \<Rightarrow> 'f preload \<Rightarrow> ((int \<times> pollfd list) \<times> 'f preload) option" where
  "pre_ppoll px fds tmo sigmask =
     unless_libfabric px (px_ppoll px fds tmo sigmask) (\<lambda>s. Some (proxy (px_ppoll px fds tmo sigmask) s))"

definition pre_select :: "'f posix \<Rightarrow> int \<Rightarrow> u64 \<Rightarrow> u64 \<Rightarrow> u64 \<Rightarrow> u64 \<Rightarrow> 'f preload \<Rightarrow> (int \<times> 'f preload) option" where
  "pre_select px n rd wr ex tmo =
     unless_libfabric px (px_select px n rd wr ex tmo) (\<lambda>s. Some (proxy (px_select px n rd wr ex tmo) s))"

end
