(* ===== verification/Preload_Memory.thy ===== *)
theory Preload_Memory
  imports Preload_Calls
begin

text \<open>
  What the statements on the socket replacement use of the operating system: memory is an array of bytes, an
  eventfd that was created as a semaphore is a counter. Both are documented behaviour of code that is not
  part of the program. A small desk top world, which satisfies them, serves the examples.
\<close>

lemma unat_add_exact: "unat x + unat y < 2 ^ 64 \<Longrightarrow> unat (x + y) = unat x + unat (y :: u64)"
  by (simp add: unat_word_ariths)

subsection \<open>Memory as an array of bytes\<close>

definition flat_memory :: "'f mem \<Rightarrow> (u64 \<Rightarrow> 'f \<Rightarrow> u8) \<Rightarrow> bool" where
  "flat_memory mem cell \<longleftrightarrow>
     (\<forall>a n f. mm_read mem a n f = map (\<lambda>i. cell (a + word_of_nat i) f) [0..<n]) \<and>
     (\<forall>a bs b f. length bs < 2 ^ 64 \<longrightarrow>
        cell b (mm_write mem a bs f) = (if unat (b - a) < length bs then bs ! unat (b - a) else cell b f))"

lemma flat_read: "flat_memory mem cell \<Longrightarrow> mm_read mem a n f = map (\<lambda>i. cell (a + word_of_nat i) f) [0..<n]"
  by (simp add: flat_memory_def)

lemma flat_write:
  "flat_memory mem cell \<Longrightarrow> length bs < 2 ^ 64 \<Longrightarrow>
     cell b (mm_write mem a bs f) = (if unat (b - a) < length bs then bs ! unat (b - a) else cell b f)"
  by (simp add: flat_memory_def)

lemma flat_length [simp]: "flat_memory mem cell \<Longrightarrow> length (mm_read mem a n f) = n"
  by (simp add: flat_read)

lemma small_of_nat: "i < 2 ^ 64 \<Longrightarrow> unat (word_of_nat i :: u64) = i"
  by (simp add: unat_of_nat take_bit_nat_eq_self)

lemma flat_read_add:
  "flat_memory mem cell \<Longrightarrow> mm_read mem a (m + n) f = mm_read mem a m f @ mm_read mem (a + word_of_nat m) n f"
  by (rule nth_equalityI) (auto simp: flat_read nth_append algebra_simps simp flip: of_nat_add)

text \<open>Writes and reads of the same place, and of a part of it.\<close>

lemma flat_read_write_part:
  assumes flat: "flat_memory mem cell" and "length bs < 2 ^ 64" and "i + n \<le> length bs"
  shows "mm_read mem (a + word_of_nat i) n (mm_write mem a bs f) = take n (drop i bs)"
proof (rule nth_equalityI)
  fix j assume "j < length (mm_read mem (a + word_of_nat i) n (mm_write mem a bs f))"
  then have j: "j < n" using flat by simp
  have "unat (word_of_nat (i + j) :: u64) = i + j" using j assms(2, 3) by (intro small_of_nat) simp
  moreover have "a + word_of_nat i + word_of_nat j - a = word_of_nat (i + j)" by (simp add: add.assoc)
  ultimately have "unat (a + word_of_nat i + word_of_nat j - a) = i + j" by (simp only:)
  then show "mm_read mem (a + word_of_nat i) n (mm_write mem a bs f) ! j = take n (drop i bs) ! j"
    using j assms(2, 3) by (simp add: flat_read [OF flat] flat_write [OF flat])
qed (use assms in simp)

lemma flat_read_write: "flat_memory mem cell \<Longrightarrow> length bs < 2 ^ 64 \<Longrightarrow> mm_read mem a (length bs) (mm_write mem a bs f) = bs"
  using flat_read_write_part [of mem cell bs 0 "length bs" a f] by simp

text \<open>Two states with the same bytes in a range.\<close>

lemma flat_read_cong:
  "flat_memory mem cell \<Longrightarrow> (\<And>i. i < n \<Longrightarrow> cell (a + word_of_nat i) f = cell (a + word_of_nat i) f') \<Longrightarrow>
     mm_read mem a n f = mm_read mem a n f'"
  by (simp add: flat_read)

text \<open>A piece that has no byte in the \<open>n\<close> bytes from \<open>a\<close> on.\<close>

definition clear_of :: "u64 \<Rightarrow> nat \<Rightarrow> iovec \<Rightarrow> bool" where
  "clear_of a n v \<longleftrightarrow> (\<forall>i<unat (iov_len v). n \<le> unat (iov_base v + word_of_nat i - a))"

lemma clear_of_above:
  assumes "unat a + n \<le> unat (iov_base v)" and "unat (iov_base v) + unat (iov_len v) < 2 ^ 64"
  shows "clear_of a n v"
proof (unfold clear_of_def, intro allI impI)
  fix i assume i: "i < unat (iov_len v)"
  have "unat (word_of_nat i :: u64) = i" using i assms(2) by (intro small_of_nat) simp
  then have "unat (iov_base v + word_of_nat i) = unat (iov_base v) + i"
    using unat_add_exact [of "iov_base v" "word_of_nat i"] i assms(2) by simp
  moreover from this have "unat (iov_base v + word_of_nat i - a) = unat (iov_base v + word_of_nat i) - unat a"
    using assms(1) by (intro unat_sub) (simp add: word_le_nat_alt)
  ultimately show "n \<le> unat (iov_base v + word_of_nat i - a)" using assms(1) by simp
qed

abbreviation piece_bytes :: "'f mem \<Rightarrow> 'f \<Rightarrow> iovec \<Rightarrow> u8 list" where
  "piece_bytes mem f v \<equiv> mm_read mem (iov_base v) (unat (iov_len v)) f"

subsection \<open>The eventfd\<close>

text \<open>\<open>count e f\<close> is the number that the eventfd \<open>e\<close> holds. Writing the number one adds one to it, reading takes one
  away, or fails on zero; neither touches memory beyond the variable that is read into, and memory and
  \<open>errno\<close> are no part of it.\<close>

definition eventfd_law :: "'f posix \<Rightarrow> (u64 \<Rightarrow> 'f \<Rightarrow> u8) \<Rightarrow> (int \<Rightarrow> 'f \<Rightarrow> nat) \<Rightarrow> bool" where
  "eventfd_law px cell count \<longleftrightarrow>
     (\<forall>e a bs f. count e (mm_write (px_mem px) a bs f) = count e f) \<and>
     (\<forall>e n f. count e (px_set_errno px n f) = count e f) \<and>
     (\<forall>b n f. cell b (px_set_errno px n f) = cell b f) \<and>
     (\<forall>e f. mm_read (px_mem px) (px_local px) 8 f = le_bytes 8 (1 :: u64) \<longrightarrow> count e f < 2 ^ 64 - 2 \<longrightarrow>
        count e (snd (px_write px e (px_local px) 8 f)) = Suc (count e f)) \<and>
     (\<forall>e b f. cell b (snd (px_write px e (px_local px) 8 f)) = cell b f) \<and>
     (\<forall>e f. count e (snd (px_read px e (px_local px) 8 f)) = count e f - 1) \<and>
     (\<forall>e b f. 8 \<le> unat (b - px_local px) \<longrightarrow> cell b (snd (px_read px e (px_local px) 8 f)) = cell b f)"

subsection \<open>A desk top world\<close>

record desk =
  dk_mem :: "u64 \<Rightarrow> u8"
  dk_count :: "int \<Rightarrow> nat"
  dk_errno :: int
  dk_callers :: "string list"
  dk_poll :: int              \<comment> \<open>what the next \<open>poll\<close> returns\<close>

definition desk0 :: desk where
  "desk0 = \<lparr>dk_mem = (\<lambda>_. 0), dk_count = (\<lambda>_. 0), dk_errno = 0, dk_callers = [''app''], dk_poll = 1\<rparr>"

definition desk_write :: "u64 \<Rightarrow> u8 list \<Rightarrow> desk \<Rightarrow> desk" where
  "desk_write a bs f = f\<lparr>dk_mem := (\<lambda>b. if unat (b - a) < length bs then bs ! unat (b - a) else dk_mem f b)\<rparr>"

definition desk_mem :: "desk mem" where
  "desk_mem = \<lparr>mm_read = (\<lambda>a n f. map (\<lambda>i. dk_mem f (a + word_of_nat i)) [0..<n]), mm_write = desk_write\<rparr>"

text \<open>Every call succeeds with 0, a new descriptor is 5; the descriptors that are written and read are eventfds.\<close>

definition desk_posix :: "desk posix" where
  "desk_posix =
    \<lparr>px_backtrace = (\<lambda>f. Some (dk_callers f)),
     px_socket = (\<lambda>_ _ _ f. (5, f)), px_connect = (\<lambda>_ _ _ f. (0, f)), px_accept4 = (\<lambda>_ _ _ _ f. (6, f)),
     px_close = (\<lambda>_ f. (0, f)),
     px_write = (\<lambda>e a _ f. (8, f\<lparr>dk_count := (dk_count f)(e := dk_count f e + unat (le_word (mm_read desk_mem a 8 f) :: u64))\<rparr>)),
     px_writev = (\<lambda>_ _ f. (0, f)),
     px_read = (\<lambda>e a _ f. if dk_count f e = 0 then (-1, f\<lparr>dk_errno := EAGAIN\<rparr>)
                          else (8, desk_write a (le_bytes 8 (1 :: u64)) (f\<lparr>dk_count := (dk_count f)(e := dk_count f e - 1)\<rparr>))),
     px_readv = (\<lambda>_ _ f. (0, f)),
     px_bind = (\<lambda>_ _ _ f. (0, f)), px_listen = (\<lambda>_ _ f. (0, f)),
     px_recv = (\<lambda>_ _ _ _ f. (0, f)), px_recvfrom = (\<lambda>_ _ _ _ _ _ f. (0, f)), px_recvmsg = (\<lambda>_ _ _ f. (0, f)),
     px_send = (\<lambda>_ _ _ _ f. (0, f)), px_sendto = (\<lambda>_ _ _ _ _ _ f. (0, f)), px_sendmsg = (\<lambda>_ _ _ f. (0, f)),
     px_shutdown = (\<lambda>_ _ f. (0, f)), px_getpeername = (\<lambda>_ _ _ f. (0, f)),
     px_getsockopt = (\<lambda>_ _ _ _ _ f. (0, f)), px_setsockopt = (\<lambda>_ _ _ _ _ f. (0, f)),
     px_epoll_create = (\<lambda>_ f. (0, f)), px_epoll_create1 = (\<lambda>_ f. (0, f)), px_epoll_ctl = (\<lambda>_ _ _ _ f. (0, f)),
     px_epoll_wait = (\<lambda>_ _ _ _ f. (0, f)),
     px_poll = (\<lambda>ps _ f. ((dk_poll f, map (\<lambda>p. p\<lparr>pf_revents := pf_events p\<rparr>) ps), f)),
     px_ppoll = (\<lambda>ps _ _ f. ((0, ps), f)), px_select = (\<lambda>_ _ _ _ _ f. (0, f)),
     px_eventfd = (\<lambda>_ _ f. (20, f)), px_set_errno = (\<lambda>e f. f\<lparr>dk_errno := e\<rparr>),
     px_alloc = (\<lambda>_ f. (100, f)), px_local = 40, px_mem = desk_mem\<rparr>"

lemma desk_flat: "flat_memory desk_mem (\<lambda>a f. dk_mem f a)"
  by (simp add: flat_memory_def desk_mem_def desk_write_def)

lemma desk_eventfd: "eventfd_law desk_posix (\<lambda>a f. dk_mem f a) (\<lambda>e f. dk_count f e)"
proof -
  have "le_word (mm_read desk_mem 40 8 f) = (1 :: u64)" if "mm_read desk_mem 40 8 f = le_bytes 8 (1 :: u64)" for f
    using that by simp
  then show ?thesis by (simp add: eventfd_law_def desk_posix_def) (simp add: desk_mem_def desk_write_def)
qed

text \<open>Descriptor 5 is connected over communicator 7, and its eventfd is 20.\<close>

definition desk_preload :: "desk preload" where
  "desk_preload =
     (preload_new (set_comm 7 sample_comm (lfi_new env_default desk0)))
       \<lparr>pl_socks := [5 \<mapsto> \<lparr>sk_lfi_id = 7, sk_eventfd = 20, sk_buffers = []\<rparr>], pl_map := [7 \<mapsto> 5]\<rparr>"

end
