(* ===== verification/Preload_Bundle.thy ===== *)
theory Preload_Bundle
  imports Preload_Memory
begin

text \<open>
  What the sender of the socket replacement announces: the groups of pieces are a partition of the
  message in order, small and few; copying a group keeps its bytes; the tags stay in their range as
  long as the counter does.
\<close>

subsection \<open>Groups\<close>

abbreviation piece_len :: "iovec list \<Rightarrow> nat \<Rightarrow> nat" where
  "piece_len iov i \<equiv> unat (iov_len (iov ! i))"

definition total_len :: "iovec list \<Rightarrow> nat" where
  "total_len iov = (\<Sum>v\<leftarrow>iov. unat (iov_len v))"

lemma total_len_upt: "(\<Sum>i\<leftarrow>[0..<length iov]. piece_len iov i) = total_len iov"
proof -
  have "map (piece_len iov) [0..<length iov] = map (\<lambda>v. unat (iov_len v)) iov" by (rule nth_equalityI) simp_all
  then show ?thesis by (simp add: total_len_def)
qed

definition group_len :: "iovec list \<Rightarrow> buff_groups \<Rightarrow> nat" where
  "group_len iov g = (\<Sum>i\<leftarrow>bg_list g. piece_len iov i)"

text \<open>A group within the limit, or with a single piece that is not empty, the last.\<close>

definition group_fits :: "u64 \<Rightarrow> iovec list \<Rightarrow> buff_groups \<Rightarrow> bool" where
  "group_fits limit iov g \<longleftrightarrow>
     bg_size g \<le> limit \<or> (\<exists>is i. bg_list g = is @ [i] \<and> (\<forall>j\<in>set is. iov_len (iov ! j) = 0))"

text \<open>Two neighbours together exceed the limit.\<close>

fun tight :: "nat \<Rightarrow> nat list \<Rightarrow> bool" where
  "tight limit (x # y # xs) = (limit < x + y \<and> tight limit (y # xs))"
| "tight limit _ = True"

definition groups_inv :: "u64 \<Rightarrow> iovec list \<Rightarrow> nat \<Rightarrow> buff_groups list \<Rightarrow> bool" where
  "groups_inv limit iov n gs \<longleftrightarrow> gs \<noteq> [] \<and> concat (map bg_list gs) = [0..<n] \<and>
     (\<forall>g\<in>set gs. unat (bg_size g) = group_len iov g \<and> group_fits limit iov g \<and> (0 < n \<longrightarrow> bg_list g \<noteq> [])) \<and>
     tight (unat limit) (map (group_len iov) gs)"

lemma tight_snoc: "tight l (xs @ [x, y]) \<longleftrightarrow> tight l (xs @ [x]) \<and> l < x + y"
  by (induction l xs rule: tight.induct) auto

lemma tight_grow: "tight l (xs @ [x]) \<Longrightarrow> x \<le> y \<Longrightarrow> tight l (xs @ [y])"
  by (induction l xs rule: tight.induct) auto

lemma tight_count: "tight l xs \<Longrightarrow> length xs div 2 * Suc l \<le> sum_list xs"
proof (induction xs rule: induct_list012)
  case (3 x y zs)
  have "tight l zs" using "3.prems" by (cases zs) auto
  then show ?case using 3 by simp
qed simp_all

lemma groups_partial:
  assumes "concat (map bg_list gs) = [0..<n]" and "n < length iov"
  shows "(\<Sum>g\<leftarrow>gs. group_len iov g) + piece_len iov n \<le> total_len iov"
proof -
  have "(\<Sum>g\<leftarrow>gs. group_len iov g) = (\<Sum>i\<leftarrow>concat (map bg_list gs). piece_len iov i)"
    by (induction gs) (simp_all add: group_len_def)
  then have "(\<Sum>g\<leftarrow>gs. group_len iov g) + piece_len iov n = (\<Sum>i\<leftarrow>[0..<Suc n]. piece_len iov i)"
    using assms(1) by simp
  also have "\<dots> = sum (piece_len iov) {0..<Suc n}" by (simp only: interv_sum_list_conv_sum_set_nat set_upt)
  also have "\<dots> \<le> sum (piece_len iov) {0..<length iov}" using assms(2) by (intro sum_mono2) auto
  also have "\<dots> = (\<Sum>i\<leftarrow>[0..<length iov]. piece_len iov i)" by (simp only: interv_sum_list_conv_sum_set_nat set_upt)
  finally show ?thesis by (simp add: total_len_upt)
qed

lemma group_step_inv:
  assumes inv: "groups_inv limit iov n gs" and n: "n < length iov" and total: "total_len iov < 2 ^ 64"
  shows "groups_inv limit iov (Suc n) (group_step limit iov gs n)"
proof -
  let ?len = "iov_len (iov ! n)"
  obtain hs g where gs: "gs = hs @ [g]" using inv by (cases gs rule: rev_cases) (auto simp: groups_inv_def)
  have g: "unat (bg_size g) = group_len iov g" "group_fits limit iov g" and parts: "concat (map bg_list gs) = [0..<n]"
    and old: "\<forall>h\<in>set hs. unat (bg_size h) = group_len iov h \<and> group_fits limit iov h \<and> (0 < n \<longrightarrow> bg_list h \<noteq> [])"
    and tg: "tight (unat limit) (map (group_len iov) hs @ [group_len iov g])"
    using inv by (auto simp: groups_inv_def gs)
  have n0: "n = 0 \<Longrightarrow> hs = [] \<or> (\<forall>h\<in>set hs. bg_list h = [])" using parts by (auto simp: gs)
  have "(\<Sum>g\<leftarrow>gs. group_len iov g) + unat ?len \<le> total_len iov" by (rule groups_partial [OF parts n])
  then have small: "unat (bg_size g) + unat ?len < 2 ^ 64" using total g(1) by (simp add: gs)
  have sum: "unat (bg_size g + ?len) = group_len iov g + unat ?len" using unat_add_exact [OF small] g(1) by simp
  let ?over = "bg_size g \<noteq> 0 \<and> bg_size g + ?len > limit"
  have hs_ok: "\<forall>h\<in>set hs. bg_list h \<noteq> []"
  proof (cases n)
    case 0
    have "hs = []"
    proof (rule ccontr)
      assume "hs \<noteq> []"
      then obtain h hs' where hs: "hs = h # hs'" by (cases hs) auto
      have "group_len iov h = 0" "\<forall>k\<in>set (hs' @ [g]). group_len iov k = 0"
        using n0 0 parts by (auto simp: hs gs group_len_def)
      then show False using tg by (cases hs') (auto simp: hs)
    qed
    then show ?thesis by simp
  qed (use old in auto)
  show ?thesis
  proof (cases ?over)
    case True
    let ?new = "\<lparr>bg_size = ?len, bg_list = [n]\<rparr>"
    have step: "group_step limit iov (hs @ [g]) n = hs @ [g, ?new]"
      using True by (simp add: group_step_def buff_group_new_def butlast_append)
    have "unat limit < group_len iov g + unat ?len" using True sum by (simp add: word_less_nat_alt)
    moreover have "bg_list g \<noteq> []" using True g(1) by (auto simp: group_len_def unat_eq_zero)
    moreover have "group_fits limit iov ?new" by (simp add: group_fits_def)
    ultimately show ?thesis
      using old g hs_ok tg parts
      by (auto simp: groups_inv_def step gs group_len_def tight_snoc)
  next
    case False
    let ?g = "g\<lparr>bg_list := bg_list g @ [n], bg_size := bg_size g + ?len\<rparr>"
    have step: "group_step limit iov (hs @ [g]) n = hs @ [?g]" using False by (auto simp: group_step_def Let_def)
    have len: "group_len iov ?g = group_len iov g + unat ?len" by (simp add: group_len_def)
    have fits: "group_fits limit iov ?g"
    proof (cases "bg_size g = 0")
      case True
      then have "\<forall>j\<in>set (bg_list g). iov_len (iov ! j) = 0"
        using g(1) by (simp add: group_len_def sum_list_eq_0_iff unat_eq_zero)
      then show ?thesis by (auto simp: group_fits_def)
    qed (use False in \<open>simp add: group_fits_def not_less\<close>)
    have "tight (unat limit) (map (group_len iov) hs @ [group_len iov ?g])"
      by (rule tight_grow [OF tg]) (simp add: len)
    then show ?thesis using old hs_ok fits parts sum len by (auto simp: groups_inv_def step gs)
  qed
qed

lemma make_groups_inv:
  assumes "total_len iov < 2 ^ 64"
  shows "groups_inv limit iov (length iov) (make_groups limit iov)"
proof -
  have "n \<le> length iov \<Longrightarrow> groups_inv limit iov n (foldl (group_step limit iov) [buff_group_new] [0..<n])" for n
  proof (induction n)
    case 0
    show ?case by (simp add: groups_inv_def buff_group_new_def group_len_def group_fits_def)
  next
    case (Suc n)
    then show ?case using group_step_inv [OF Suc.IH _ assms] by simp
  qed
  then show ?thesis by (simp add: make_groups_def)
qed


lemma make_groups_lens:
  assumes "total_len iov < 2 ^ 64" and "g \<in> set (make_groups limit iov)"
  shows "unat (bg_size g) = group_len iov g" and "\<forall>i\<in>set (bg_list g). i < length iov"
proof -
  have inv: "groups_inv limit iov (length iov) (make_groups limit iov)" by (rule make_groups_inv [OF assms(1)])
  then show "unat (bg_size g) = group_len iov g" using assms(2) by (simp add: groups_inv_def)
  have "set (bg_list g) \<subseteq> set (concat (map bg_list (make_groups limit iov)))" using assms(2) by auto
  also have "\<dots> = {0..<length iov}" using inv unfolding groups_inv_def by (metis set_upt)
  finally show "\<forall>i\<in>set (bg_list g). i < length iov" by auto
qed

lemma make_groups_total:
  assumes "total_len iov < 2 ^ 64"
  shows "(\<Sum>g\<leftarrow>make_groups limit iov. group_len iov g) = total_len iov"
proof -
  have parts: "concat (map bg_list (make_groups limit iov)) = [0..<length iov]"
    using make_groups_inv [OF assms, of limit] by (simp add: groups_inv_def)
  have "(\<Sum>g\<leftarrow>gs. group_len iov g) = (\<Sum>i\<leftarrow>concat (map bg_list gs). piece_len iov i)" for gs
    by (induction gs) (simp_all add: group_len_def)
  then show ?thesis by (simp only: parts total_len_upt)
qed

text \<open>C19. The pieces of a message whose length is a 64 bit number are divided in order: each is in exactly one
  group, the size of a group is that of its pieces, and it is above the limit only when its last piece alone
  made it so. Neighbouring groups together exceed the limit, so a message shorter than 512 times the limit plus
  one is announced with fewer than the 1024 entries that the receiver has room for.\<close>

theorem groups_bounds:
  assumes "total_len iov < 2 ^ 64"
  shows "concat (map bg_list (make_groups limit iov)) = [0..<length iov] \<and>
         list_all (\<lambda>g. unat (bg_size g) = group_len iov g \<and> group_fits limit iov g) (make_groups limit iov) \<and>
         length (make_groups limit iov) div 2 * Suc (unat limit) \<le> total_len iov \<and>
         (total_len iov < 512 * Suc (unat limit) \<longrightarrow> length (make_groups limit iov) < NOTI_COUNT)"
proof -
  let ?gs = "make_groups limit iov"
  have inv: "groups_inv limit iov (length iov) ?gs" by (rule make_groups_inv [OF assms])
  have count: "length ?gs div 2 * Suc (unat limit) \<le> total_len iov"
    using tight_count [of "unat limit" "map (group_len iov) ?gs"] inv make_groups_total [OF assms, of limit]
    by (simp add: groups_inv_def)
  have "length ?gs < NOTI_COUNT" if "total_len iov < 512 * Suc (unat limit)"
  proof -
    have "length ?gs div 2 * Suc (unat limit) < 512 * Suc (unat limit)" using count that by (rule le_less_trans)
    then have "length ?gs div 2 < 512" by (simp only: mult_less_cancel2)
    then show ?thesis by (simp add: NOTI_COUNT_def)
  qed
  then show ?thesis using inv count by (auto simp: groups_inv_def list_all_iff)
qed

lemma groups_bounds_witness:
  "let iov = [\<lparr>iov_base = 0, iov_len = 3\<rparr>, \<lparr>iov_base = 8, iov_len = 4\<rparr>, \<lparr>iov_base = 16, iov_len = 9\<rparr>]
   in concat (map bg_list (make_groups 8 iov)) = [0, 1, 2] \<and> length (make_groups 8 iov) < NOTI_COUNT"
  using groups_bounds [of "[\<lparr>iov_base = 0, iov_len = 3\<rparr>, \<lparr>iov_base = 8, iov_len = 4\<rparr>, \<lparr>iov_base = 16, iov_len = 9\<rparr>]" 8]
  by (simp add: total_len_def upt_conv_Cons)

text \<open>Pieces above the limit each get a group: then there is no bound but the number of pieces.\<close>

lemma groups_of_large:
  assumes "\<forall>v\<in>set iov. limit < iov_len v" and "iov \<noteq> []" and total: "total_len iov < 2 ^ 64"
  shows "length (make_groups limit iov) = length iov"
proof -
  let ?gs = "make_groups limit iov"
  have inv: "groups_inv limit iov (length iov) ?gs" by (rule make_groups_inv [OF total])
  have "length (bg_list g) = 1" if g: "g \<in> set ?gs" for g
  proof -
    have in_range: "\<forall>i\<in>set (bg_list g). i < length iov" and size: "unat (bg_size g) = group_len iov g"
      using make_groups_lens [OF total g] by auto
    have ne: "bg_list g \<noteq> []" and fits: "group_fits limit iov g" using inv g assms(2) by (auto simp: groups_inv_def)
    obtain i rest where list: "bg_list g = i # rest" using ne by (cases "bg_list g") auto
    have big: "unat limit < piece_len iov j" if "j \<in> set (bg_list g)" for j
      using assms(1) in_range that by (simp add: word_less_nat_alt)
    have "\<not> bg_size g \<le> limit" using big [of i] size by (simp add: list group_len_def word_le_nat_alt)
    then obtain js j where js: "bg_list g = js @ [j]" "\<forall>k\<in>set js. iov_len (iov ! k) = 0"
      using fits by (auto simp: group_fits_def)
    have "js = []"
    proof (rule ccontr)
      assume "js \<noteq> []"
      then have "unat limit < piece_len iov (hd js)" "piece_len iov (hd js) = 0" using big [of "hd js"] js by simp_all
      then show False by simp
    qed
    then show ?thesis by (simp add: js)
  qed
  then have "(\<Sum>g\<leftarrow>?gs. length (bg_list g)) = (\<Sum>g\<leftarrow>?gs. 1)" by (intro arg_cong [of _ _ sum_list] map_cong) simp_all
  moreover have "length (concat (map bg_list ?gs)) = length iov" using inv by (simp add: groups_inv_def)
  ultimately show ?thesis by (simp add: length_concat sum_list_triv comp_def)
qed

end
