(* ===== verification/Preload_Bytes.thy ===== *)
theory Preload_Bytes
  imports Preload_Bundle Preload_Memory
begin

text \<open>
  What a message keeps on its way through the socket replacement: copying the pieces of a group keeps their
  bytes, the entries of a notification are read back as they were written, and the tags stay in their range
  as long as the counter does.
\<close>

subsection \<open>Copying\<close>

definition same_outside :: "(u64 \<Rightarrow> 'f \<Rightarrow> u8) \<Rightarrow> u64 \<Rightarrow> nat \<Rightarrow> nat \<Rightarrow> 'f \<Rightarrow> 'f \<Rightarrow> bool" where
  "same_outside cell a m n f f' \<longleftrightarrow> (\<forall>b. \<not> (m \<le> unat (b - a) \<and> unat (b - a) < n) \<longrightarrow> cell b f' = cell b f)"

lemma same_outside_bytes:
  assumes "flat_memory mem cell" and same: "same_outside cell a m n f f'" and "n \<le> N" and clear: "clear_of a N v"
  shows "piece_bytes mem f' v = piece_bytes mem f v"
proof (rule flat_read_cong [OF assms(1)])
  fix i assume "i < unat (iov_len v)"
  then have "n \<le> unat (iov_base v + word_of_nat i - a)" using clear assms(3) by (fastforce simp: clear_of_def)
  then show "cell (iov_base v + word_of_nat i) f' = cell (iov_base v + word_of_nat i) f"
    using same by (simp add: same_outside_def)
qed

lemma same_outside_trans:
  "same_outside cell a m k f f' \<Longrightarrow> same_outside cell a k n f' f'' \<Longrightarrow> m \<le> k \<Longrightarrow> k \<le> n \<Longrightarrow> same_outside cell a m n f f''"
  unfolding same_outside_def by auto

lemma unat_diff_base:
  assumes "unat x + i < 2 ^ 64"
  shows "unat (a + x + word_of_nat i - a :: u64) = unat x + i"
proof -
  have "unat (word_of_nat i :: u64) = i" using assms by (intro small_of_nat) simp
  then have "unat (x + word_of_nat i) = unat x + i" using unat_add_exact [of x "word_of_nat i"] assms by simp
  then show ?thesis by (simp only: add.assoc add_diff_cancel_left')
qed

lemma same_outside_read:
  assumes "flat_memory mem cell" and "same_outside cell a k n f f'" and "unat x + l \<le> k" and "k < 2 ^ 64"
  shows "mm_read mem (a + x) l f' = mm_read mem (a + x) l f"
proof (rule flat_read_cong [OF assms(1)])
  fix i assume "i < l"
  then have "unat (a + x + word_of_nat i - a) < k" using unat_diff_base [of x i a] assms(3, 4) by simp
  then show "cell (a + x + word_of_nat i) f' = cell (a + x + word_of_nat i) f" using assms(2) by (simp add: same_outside_def)
qed

lemma write_outside:
  assumes flat: "flat_memory mem cell" and len: "unat x + length bs < 2 ^ 64"
  shows "same_outside cell a (unat x) (unat x + length bs) f (mm_write mem (a + x) bs f)"
proof (unfold same_outside_def, intro allI impI)
  fix b assume b: "\<not> (unat x \<le> unat (b - a) \<and> unat (b - a) < unat x + length bs)"
  have "\<not> unat (b - (a + x)) < length bs"
  proof
    assume inside: "unat (b - (a + x)) < length bs"
    have "b - a = x + (b - (a + x))" by simp
    moreover have "unat (x + (b - (a + x))) = unat x + unat (b - (a + x))" using inside len by (intro unat_add_exact) simp
    ultimately show False using b inside by simp
  qed
  moreover have "length bs < 2 ^ 64" using len by simp
  ultimately show "cell b (mm_write mem (a + x) bs f) = cell b f" using flat_write [OF flat] by simp
qed

lemma copy_pieces_ok:
  assumes flat: "flat_memory mem cell" and "\<forall>i\<in>set ixs. clear_of a N (iov ! i)"
    and "unat actual + (\<Sum>i\<leftarrow>ixs. piece_len iov i) \<le> N" and N: "N < 2 ^ 64"
    and "copy_pieces mem a iov ixs actual f = (actual', f')"
  shows "unat actual' = unat actual + (\<Sum>i\<leftarrow>ixs. piece_len iov i) \<and> same_outside cell a (unat actual) (unat actual') f f' \<and>
         mm_read mem (a + actual) (\<Sum>i\<leftarrow>ixs. piece_len iov i) f' = concat (map (\<lambda>i. piece_bytes mem f (iov ! i)) ixs)"
  using assms(2, 3, 5)
proof (induction ixs arbitrary: actual f)
  case Nil
  then show ?case using flat by (simp add: same_outside_def flat_read)
next
  case (Cons i ixs)
  let ?len = "iov_len (iov ! i)" and ?rest = "\<Sum>i\<leftarrow>ixs. piece_len iov i"
  let ?f = "mm_write mem (a + actual) (piece_bytes mem f (iov ! i)) f"
  have next_actual: "unat (actual + ?len) = unat actual + unat ?len"
    using Cons.prems(2) N by (intro unat_add_exact) simp
  have piece_small: "length (piece_bytes mem f (iov ! i)) < 2 ^ 64"
    using Cons.prems(2) N by (simp add: flat_length [OF flat])
  have wrote: "same_outside cell a (unat actual) (unat (actual + ?len)) f ?f"
    using write_outside [OF flat, of actual "piece_bytes mem f (iov ! i)" a f] Cons.prems(2) N next_actual
    by (simp add: flat_length [OF flat])
  have IH: "unat actual' = unat (actual + ?len) + ?rest \<and> same_outside cell a (unat (actual + ?len)) (unat actual') ?f f' \<and>
      mm_read mem (a + (actual + ?len)) ?rest f' = concat (map (\<lambda>i. piece_bytes mem ?f (iov ! i)) ixs)"
    using Cons.prems next_actual by (intro Cons.IH) (simp_all add: add.assoc)
  have "\<forall>j\<in>set ixs. piece_bytes mem ?f (iov ! j) = piece_bytes mem f (iov ! j)"
    using same_outside_bytes [OF flat wrote, of N] Cons.prems(1, 2) next_actual by simp
  then have later: "map (\<lambda>i. piece_bytes mem ?f (iov ! i)) ixs = map (\<lambda>i. piece_bytes mem f (iov ! i)) ixs" by simp
  have "mm_read mem (a + actual) (unat ?len) f' = mm_read mem (a + actual) (unat ?len) ?f"
    by (rule same_outside_read [OF flat conjunct1 [OF conjunct2 [OF IH]]]) (use Cons.prems(2) N next_actual in simp_all)
  also have "\<dots> = piece_bytes mem f (iov ! i)"
    using flat_read_write [OF flat piece_small, of "a + actual" f] by (simp add: flat_length [OF flat])
  finally have "mm_read mem (a + actual) (unat ?len + ?rest) f' = piece_bytes mem f (iov ! i) @ concat (map (\<lambda>i. piece_bytes mem f (iov ! i)) ixs)"
    using IH later by (simp add: flat_read_add [OF flat] add.assoc)
  moreover have "same_outside cell a (unat actual) (unat actual') f f'"
    by (rule same_outside_trans [OF wrote conjunct1 [OF conjunct2 [OF IH]]]) (simp_all add: next_actual conjunct1 [OF IH])
  ultimately show ?case using IH next_actual by simp
qed

definition buffered_len :: "iovec list \<Rightarrow> buff_groups list \<Rightarrow> nat" where
  "buffered_len iov gs = (\<Sum>g\<leftarrow>gs. if length (bg_list g) \<noteq> 1 then group_len iov g else 0)"

lemma buffered_len_simps [simp]:
  "buffered_len iov [] = 0"
  "buffered_len iov (g # gs) = (if length (bg_list g) \<noteq> 1 then group_len iov g else 0) + buffered_len iov gs"
  by (simp_all add: buffered_len_def)

lemma buffered_len_le: "buffered_len iov gs \<le> (\<Sum>g\<leftarrow>gs. group_len iov g)"
  by (induction gs) auto

lemma size_to_buffer_exact:
  assumes "\<forall>g\<in>set gs. unat (bg_size g) = group_len iov g" and "buffered_len iov gs < 2 ^ 64"
  shows "unat (size_to_buffer gs) = buffered_len iov gs"
proof -
  have "unat (foldl (\<lambda>n g. if length (bg_list g) \<noteq> 1 then n + bg_size g else n) x gs) = unat x + buffered_len iov gs"
    if "unat x + buffered_len iov gs < 2 ^ 64" for x
    using assms(1) that
  proof (induction gs arbitrary: x)
    case (Cons g gs)
    show ?case
    proof (cases "length (bg_list g) \<noteq> 1")
      case True
      then have "unat (x + bg_size g) = unat x + group_len iov g"
        using Cons.prems unat_add_exact [of x "bg_size g"] by simp
      then show ?thesis using Cons.IH [of "x + bg_size g"] Cons.prems True by simp
    next
      case False
      then show ?thesis using Cons.IH [of x] Cons.prems by simp
    qed
  qed simp
  from this [of 0] show ?thesis using assms(2) by (simp add: size_to_buffer_def)
qed

lemma build_iov_ok:
  assumes flat: "flat_memory mem cell"
    and "\<forall>g\<in>set gs. unat (bg_size g) = group_len iov g \<and> (\<forall>i\<in>set (bg_list g). clear_of a N (iov ! i))"
    and "unat actual + buffered_len iov gs \<le> N" and N: "N < 2 ^ 64"
    and "build_iov mem a iov gs actual f = (v, f')"
  shows "same_outside cell a (unat actual) N f f' \<and> map iov_len v = map bg_size gs \<and>
         concat (map (piece_bytes mem f') v) = concat (map (\<lambda>i. piece_bytes mem f (iov ! i)) (concat (map bg_list gs)))"
  using assms(2, 3, 5)
proof (induction gs arbitrary: actual f v)
  case Nil
  then show ?case by (simp add: same_outside_def)
next
  case (Cons g gs)
  have size: "unat (bg_size g) = group_len iov g" and clear: "\<forall>i\<in>set (bg_list g). clear_of a N (iov ! i)"
    using Cons.prems(1) by simp_all
  show ?case
  proof (cases "length (bg_list g) = 1")
    case True
    then obtain i where list: "bg_list g = [i]" by (cases "bg_list g") auto
    obtain v1 where b: "build_iov mem a iov gs actual f = (v1, f')" and v: "v = iov ! i # v1"
      using Cons.prems(3) list by (auto split: prod.splits)
    have IH: "same_outside cell a (unat actual) N f f' \<and> map iov_len v1 = map bg_size gs \<and>
        concat (map (piece_bytes mem f') v1) = concat (map (\<lambda>i. piece_bytes mem f (iov ! i)) (concat (map bg_list gs)))"
      using Cons.prems True by (intro Cons.IH [OF _ _ b]) simp_all
    have "piece_bytes mem f' (iov ! i) = piece_bytes mem f (iov ! i)"
      using same_outside_bytes [OF flat conjunct1 [OF IH] order_refl] clear list by simp
    moreover have "iov_len (iov ! i) = bg_size g" using size by (simp add: group_len_def list word_unat_eq_iff)
    ultimately show ?thesis using IH by (simp add: v list)
  next
    case False
    obtain actual1 f1 v1 where c: "copy_pieces mem a iov (bg_list g) actual f = (actual1, f1)"
      and b: "build_iov mem a iov gs actual1 f1 = (v1, f')" and v: "v = \<lparr>iov_base = a + actual, iov_len = bg_size g\<rparr> # v1"
      using Cons.prems(3) False by (auto split: prod.splits)
    have copied: "unat actual1 = unat actual + group_len iov g \<and> same_outside cell a (unat actual) (unat actual1) f f1 \<and>
        mm_read mem (a + actual) (group_len iov g) f1 = concat (map (\<lambda>i. piece_bytes mem f (iov ! i)) (bg_list g))"
      unfolding group_len_def
      by (rule copy_pieces_ok [OF flat clear _ N c]) (use Cons.prems(2) False in \<open>simp add: group_len_def\<close>)
    have IH: "same_outside cell a (unat actual1) N f1 f' \<and> map iov_len v1 = map bg_size gs \<and>
        concat (map (piece_bytes mem f') v1) = concat (map (\<lambda>i. piece_bytes mem f1 (iov ! i)) (concat (map bg_list gs)))"
      using Cons.prems False copied by (intro Cons.IH [OF _ _ b]) simp_all
    have end_le: "unat actual1 \<le> N" using Cons.prems(2) False copied by simp
    have "mm_read mem (a + actual) (group_len iov g) f' = mm_read mem (a + actual) (group_len iov g) f1"
      by (rule same_outside_read [OF flat conjunct1 [OF IH]]) (use copied end_le N in simp_all)
    moreover have later: "map (\<lambda>i. piece_bytes mem f1 (iov ! i)) (concat (map bg_list gs)) = map (\<lambda>i. piece_bytes mem f (iov ! i)) (concat (map bg_list gs))"
      using Cons.prems(1) same_outside_bytes [OF flat conjunct1 [OF conjunct2 [OF copied]] end_le] by (intro map_cong) auto
    moreover have "same_outside cell a (unat actual) N f f'"
      by (rule same_outside_trans [OF conjunct1 [OF conjunct2 [OF copied]] conjunct1 [OF IH]])
        (simp_all add: end_le, simp add: conjunct1 [OF copied])
    moreover have "concat (map (piece_bytes mem f') v1) = concat (map (\<lambda>i. piece_bytes mem f (iov ! i)) (concat (map bg_list gs)))"
      using IH later by (simp only:)
    moreover have "map iov_len v1 = map bg_size gs" using IH by simp
    ultimately show ?thesis using copied size by (simp add: v)
  qed
qed

text \<open>Whatever the limit, the messages that are sent carry the bytes of the application's pieces in their
  order, none lost and none twice, when the buffer for the copies overlaps no piece: the lengths of the
  messages are the sizes of the groups, and nothing outside the buffer is written.\<close>

theorem bundle_keeps_bytes:
  assumes flat: "flat_memory mem cell" and total: "total_len iov < 2 ^ 64"
    and clear: "list_all (clear_of a (unat (size_to_buffer (make_groups limit iov)))) iov"
    and run: "build_iov mem a iov (make_groups limit iov) 0 f = (v, f')"
  shows "concat (map (piece_bytes mem f') v) = concat (map (piece_bytes mem f) iov) \<and>
         map iov_len v = map bg_size (make_groups limit iov) \<and>
         same_outside cell a 0 (unat (size_to_buffer (make_groups limit iov))) f f'"
proof -
  let ?gs = "make_groups limit iov"
  have small: "buffered_len iov ?gs < 2 ^ 64"
    using buffered_len_le [of iov ?gs] make_groups_total [OF total, of limit] total by simp
  have size: "unat (size_to_buffer ?gs) = buffered_len iov ?gs"
    using make_groups_lens [OF total] small by (intro size_to_buffer_exact) auto
  have parts: "concat (map bg_list ?gs) = [0..<length iov]"
    using make_groups_inv [OF total, of limit] by (simp add: groups_inv_def)
  have groups: "\<forall>g\<in>set ?gs. unat (bg_size g) = group_len iov g \<and> (\<forall>i\<in>set (bg_list g). clear_of a (unat (size_to_buffer ?gs)) (iov ! i))"
    using make_groups_lens [OF total] clear by (auto simp: list_all_iff)
  have ok: "same_outside cell a (unat (0 :: u64)) (unat (size_to_buffer ?gs)) f f' \<and> map iov_len v = map bg_size ?gs \<and>
      concat (map (piece_bytes mem f') v) = concat (map (\<lambda>i. piece_bytes mem f (iov ! i)) (concat (map bg_list ?gs)))"
    by (rule build_iov_ok [OF flat groups _ _ run]) (use size small in simp_all)
  have "map (\<lambda>i. piece_bytes mem f (iov ! i)) [0..<length iov] = map (piece_bytes mem f) iov"
    by (rule nth_equalityI) simp_all
  then show ?thesis using ok by (simp add: parts)
qed

definition desk_text :: desk where
  "desk_text = desk0\<lparr>dk_mem := (\<lambda>a. if a = 1000 then 11 else if a = 1001 then 12 else if a = 1008 then 13 else 0)\<rparr>"

definition desk_iov :: "iovec list" where
  "desk_iov = [\<lparr>iov_base = 1000, iov_len = 2\<rparr>, \<lparr>iov_base = 1008, iov_len = 1\<rparr>]"

lemma desk_groups: "make_groups 8 desk_iov = [\<lparr>bg_size = 3, bg_list = [0, 1]\<rparr>]"
  by (simp add: make_groups_def group_step_def buff_group_new_def desk_iov_def upt_conv_Cons)

lemma bundle_keeps_bytes_witness:
  "let (v, f') = build_iov desk_mem 100 desk_iov (make_groups 8 desk_iov) 0 desk_text
   in concat (map (piece_bytes desk_mem f') v) = [11, 12, 13] \<and> map iov_len v = [3]"
proof -
  obtain v f' where run: "build_iov desk_mem 100 desk_iov (make_groups 8 desk_iov) 0 desk_text = (v, f')" by force
  have clear: "list_all (clear_of 100 (unat (size_to_buffer (make_groups 8 desk_iov)))) desk_iov"
    unfolding desk_groups by (auto simp: size_to_buffer_def clear_of_def less_2_cases_iff desk_iov_def)
  have total: "total_len desk_iov < 2 ^ 64" by (simp add: total_len_def desk_iov_def)
  have "concat (map (piece_bytes desk_mem f') v) = concat (map (piece_bytes desk_mem desk_text) desk_iov)"
    and "map iov_len v = map bg_size (make_groups 8 desk_iov)"
    using bundle_keeps_bytes [OF desk_flat total clear run] by simp_all
  moreover have "concat (map (piece_bytes desk_mem desk_text) desk_iov) = [11, 12, 13]"
    by (simp add: desk_mem_def desk_text_def desk_iov_def upt_conv_Cons)
  ultimately show ?thesis unfolding run by (simp add: desk_groups)
qed

subsection \<open>Notifications\<close>

lemma announce_entries:
  assumes "announce c v s = Some ((rs, ns), s')" and "0 \<le> pl_counter s" and "pl_counter s + int (length v) < 2 ^ 31"
  shows "length rs = length v \<and>
         ns = map (\<lambda>i. \<lparr>nb_size = ucast (iov_len (v ! i)), nb_tag = tag_of_count (pl_counter s + int i)\<rparr>) [0..<length v]"
  using assms
proof (induction v arbitrary: s rs ns)
  case (Cons x v)
  obtain m where m: "the_comm c (pl_lfi s) = Some m" using Cons.prems(1) by (cases "the_comm c (pl_lfi s)") auto
  obtain r s1 where new: "on_lfi (new_request (cm_endpoint m) c) s = Some (r, s1)"
    using Cons.prems(1) m by (cases "on_lfi (new_request (cm_endpoint m) c) s") auto
  obtain rs1 ns1 where later: "announce c v (s1\<lparr>pl_counter := i32 (pl_counter s1 + 1)\<rparr>) = Some ((rs1, ns1), s')"
    and res: "rs = r # rs1" "ns = \<lparr>nb_size = ucast (iov_len x), nb_tag = tag_of_count (pl_counter s1)\<rparr> # ns1"
    using Cons.prems(1) m new by (auto simp: next_tag_def split: prod.splits bind_splits)
  have counter: "pl_counter s1 = pl_counter s" using new by (auto simp: on_lfi_def split: bind_splits)
  have "i32 (pl_counter s1 + 1) = pl_counter s + 1" using Cons.prems(2, 3) counter by (simp add: i32_small)
  then have IH: "length rs1 = length v \<and>
      ns1 = map (\<lambda>i. \<lparr>nb_size = ucast (iov_len (v ! i)), nb_tag = tag_of_count (pl_counter s + 1 + int i)\<rparr>) [0..<length v]"
    using Cons.IH [OF later] Cons.prems(2, 3) by simp
  show ?case
    by (rule conjI, simp add: res IH, rule nth_equalityI)
      (auto simp: res IH nth_Cons counter algebra_simps simp del: upt_Suc split: nat.split)
qed simp

lemma noti_bytes_at:
  "i < length ns \<Longrightarrow> take 8 (drop (8 * i) (noti_bytes ns)) = le_bytes 4 (nb_size (ns ! i)) @ le_bytes 4 (nb_tag (ns ! i))"
proof (induction ns arbitrary: i)
  case (Cons n ns)
  then show ?case by (cases i) (simp_all add: noti_bytes_def)
qed simp

lemma length_noti_bytes: "length (noti_bytes ns) = 8 * length ns"
  by (induction ns) (simp_all add: noti_bytes_def)

lemma noti_at_written:
  assumes flat: "flat_memory (px_mem px) cell" and "8 * length ns < 2 ^ 64" and "i < length ns"
  shows "noti_at px a i (mem_write px a (noti_bytes ns) s) = ns ! i"
  using flat_read_write_part [OF flat, of "noti_bytes ns" "8 * i" 8 a "l_fab (pl_lfi s)"] noti_bytes_at [OF assms(3)] assms(2, 3)
  by (simp add: noti_at_def mem_read_def mem_write_def length_noti_bytes)

text \<open>C20. What \<open>internal_sendmsg\<close> writes into the notification is what the receiving thread reads from its array:
  entry for entry the tag of that message, and its length, modulo \<open>2 ^ 32\<close> because the field is a \<open>uint32_t\<close>.\<close>

theorem notification_round_trip:
  assumes flat: "flat_memory (px_mem px) cell" and "announce c v s = Some ((rs, ns), s')"
    and "0 \<le> pl_counter s" and "pl_counter s + int (length v) < 2 ^ 31" and i: "i < length v"
  shows "noti_at px a i (mem_write px a (noti_bytes ns) t) =
           \<lparr>nb_size = ucast (iov_len (v ! i)), nb_tag = tag_of_count (pl_counter s + int i)\<rparr> \<and>
         unat (nb_size (noti_at px a i (mem_write px a (noti_bytes ns) t))) = unat (iov_len (v ! i)) mod 2 ^ 32"
proof -
  have ns: "ns = map (\<lambda>i. \<lparr>nb_size = ucast (iov_len (v ! i)), nb_tag = tag_of_count (pl_counter s + int i)\<rparr>) [0..<length v]"
    using announce_entries [OF assms(2, 3, 4)] by simp
  have "noti_at px a i (mem_write px a (noti_bytes ns) t) = ns ! i"
    by (rule noti_at_written [OF flat]) (use assms(3, 4) i ns in auto)
  then show ?thesis using i by (simp add: ns unsigned_ucast_eq take_bit_eq_mod)
qed

lemma notification_round_trip_witness:
  "\<exists>rs ns s'. announce 7 [\<lparr>iov_base = 0, iov_len = 2 ^ 32 + 5\<rparr>] desk_preload = Some ((rs, ns), s') \<and>
     noti_at desk_posix 200 0 (mem_write desk_posix 200 (noti_bytes ns) desk_preload) = \<lparr>nb_size = 5, nb_tag = 100000\<rparr>"
proof -
  let ?v = "[\<lparr>iov_base = 0, iov_len = 2 ^ 32 + 5\<rparr>]"
  obtain rs ns s' where run: "announce 7 ?v desk_preload = Some ((rs, ns), s')"
    by (cases "announce 7 ?v desk_preload")
      (auto simp: desk_preload_def preload_new_def sample_simps new_request_def on_lfi_def next_tag_def)
  have tag: "tag_of_count 0 = 100000" by (simp add: tag_of_count_def LFI_TAG_BUFFERED_LD_PRELOAD_def)
  have flat: "flat_memory (px_mem desk_posix) (\<lambda>a f. dk_mem f a)" by (simp add: desk_posix_def desk_flat)
  have "pl_counter desk_preload = 0" by (simp add: desk_preload_def preload_new_def)
  then show ?thesis
    using notification_round_trip [OF flat run, of 0 200 desk_preload] run tag by auto
qed

subsection \<open>Tags\<close>

lemma tag_range: "0 \<le> n \<Longrightarrow> unat (tag_of_count n) = 100000 + nat n mod 1000001"
proof -
  assume n: "0 \<le> n"
  have "n smod 1000001 = n mod 1000001" using n by (cases "n = 0") (simp_all add: signed_modulo_int_def sgn_if)
  moreover have "uint LFI_TAG_BUFFERED_LD_PRELOAD + n mod 1000001 = int (100000 + nat n mod 1000001)"
    using n by (simp add: LFI_TAG_BUFFERED_LD_PRELOAD_def nat_mod_as_int)
  ultimately have "tag_of_count n = word_of_nat (100000 + nat n mod 1000001)" by (simp only: tag_of_count_def of_int_of_nat_eq)
  moreover have "nat n mod 1000001 < 1000001" by simp
  then have "100000 + nat n mod 1000001 < 2 ^ 32" by simp
  ultimately show ?thesis by (simp only: unat_of_nat len_of_numeral_defs semiring_norm mod_less)
qed

text \<open>As long as the counter has not overflowed, the tags lie between 100000 and 1100000, away from the
  library's own, and two messages with the same tag are at least 1000001 messages apart. After the overflow
  of the \<open>int\<close> this ends: the remainder is negative, and a data message can get the very tag that announces
  notifications.\<close>

theorem tag_bounds:
  assumes "0 \<le> n" and "n < m"
  shows "100000 \<le> unat (tag_of_count n) \<and> unat (tag_of_count n) \<le> 1100000 \<and>
         (m < n + 1000001 \<longrightarrow> tag_of_count n \<noteq> tag_of_count m) \<and> tag_of_count (n + 1000001) = tag_of_count n \<and>
         tag_of_count (i32 (2 ^ 31 + 381497)) = LFI_TAG_RECV_LD_PRELOAD"
proof -
  have "nat n mod 1000001 \<le> 1000000" by (simp flip: less_Suc_eq_le)
  moreover have "tag_of_count n \<noteq> tag_of_count m" if "m < n + 1000001"
  proof
    assume "tag_of_count n = tag_of_count m"
    then have "nat n mod 1000001 = nat m mod 1000001" using tag_range [of n] tag_range [of m] assms by simp
    then have "1000001 dvd nat m - nat n" using assms by (intro iffD1 [OF mod_eq_dvd_iff_nat]) simp_all
    then show False using that assms by (auto dest: dvd_imp_le)
  qed
  moreover have "tag_of_count (n + 1000001) = tag_of_count n"
    using tag_range [of n] tag_range [of "n + 1000001"] assms by (simp add: word_unat_eq_iff nat_add_distrib)
  moreover have "i32 (2 ^ 31 + 381497) = -2147102151" by (simp add: i32_def)
  moreover have "(-2147102151 :: int) smod 1000001 = -100004" by (simp add: signed_modulo_int_def)
  ultimately show ?thesis
    using tag_range [OF assms(1)] by (simp add: tag_of_count_def LFI_TAG_BUFFERED_LD_PRELOAD_def LFI_TAG_RECV_LD_PRELOAD_def)
qed

lemma tag_bounds_witness: "tag_of_count 0 \<noteq> tag_of_count 1000000 \<and> tag_of_count 1000001 = tag_of_count 0"
  using tag_bounds [of 0 1000000] by simp

end
