(* ===== verification/Preload_Delivery.thy ===== *)
theory Preload_Delivery
  imports Preload_Bytes
begin

text \<open>
  From one process to the other: the messages into which a write is divided, the notification that announces
  them and the receives that the other side's thread posts fit together, so that the buffer that it queues
  holds what was written.
\<close>

subsection \<open>Where the messages are received\<close>

text \<open>Address, size and tag of each receive: one behind the other from \<open>a + already\<close> on.\<close>

fun recv_plan :: "u64 \<Rightarrow> noti_buff list \<Rightarrow> u64 \<Rightarrow> (u64 \<times> u64 \<times> u32) list" where
  "recv_plan a [] already = []"
| "recv_plan a (n # ns) already = (a + already, ucast (nb_size n), nb_tag n) # recv_plan a ns (already + ucast (nb_size n))"

fun post_recvs :: "'f world \<Rightarrow> (u64 \<times> u64 \<times> u32) list \<Rightarrow> rid list \<Rightarrow> 'f lfi \<Rightarrow> (bool \<times> 'f lfi) option" where
  "post_recvs w ((b, n, tag) # ps) (r # rs) s =
     do { (ret, s1) \<leftarrow> async_recv_internal w (Mem b) n RECV tag r False s;
          if ret < 0 then Some (False, s1) else post_recvs w ps rs s1 }"
| "post_recvs w _ _ s = Some (True, s)"

lemma recv_all_plan: "recv_all w a ns rs already s = post_recvs w (recv_plan a ns already) rs s"
proof (induction ns arbitrary: rs already s)
  case (Cons n ns)
  then show ?case by (cases rs) (simp_all add: split_def cong: if_cong)
qed simp

text \<open>The messages that are sent, as address, size and tag.\<close>

fun send_plan :: "iovec list \<Rightarrow> noti_buff list \<Rightarrow> (u64 \<times> u64 \<times> u32) list" where
  "send_plan (v # vs) (n # ns) = (iov_base v, iov_len v, nb_tag n) # send_plan vs ns"
| "send_plan _ _ = []"

fun post_sends :: "'f world \<Rightarrow> (u64 \<times> u64 \<times> u32) list \<Rightarrow> rid list \<Rightarrow> 'f lfi \<Rightarrow> (int \<times> 'f lfi) option" where
  "post_sends w ((b, n, tag) # ps) (r # rs) s =
     do { (ret, s1) \<leftarrow> async_send_internal w (Mem b) n SEND tag r False s;
          if ret < 0 then Some (ret, s1) else post_sends w ps rs s1 }"
| "post_sends w _ _ s = Some (0, s)"

lemma send_all_plan: "send_all w vs ns rs s = post_sends w (send_plan vs ns) rs s"
proof (induction vs ns arbitrary: rs s rule: send_plan.induct)
  case (1 v vs n ns)
  then show ?case by (cases rs) (simp_all add: split_def cong: if_cong)
qed simp_all

text \<open>What the fabric does with a message whose receive is posted: the bytes at the sender's address are written to
  the receiver's.\<close>

fun transfer_all ::
    "'g mem \<Rightarrow> 'g \<Rightarrow> (u64 \<times> u64 \<times> u32) list \<Rightarrow> 'f mem \<Rightarrow> (u64 \<times> u64 \<times> u32) list \<Rightarrow> 'f \<Rightarrow> 'f" where
  "transfer_all mem1 f ((b, n, t) # ps) mem2 ((b', n', t') # qs) g =
     transfer_all mem1 f ps mem2 qs (mm_write mem2 b' (take (unat n') (mm_read mem1 b (unat n) f)) g)"
| "transfer_all mem1 f _ mem2 _ g = g"

text \<open>The plans of the two sides.\<close>

definition announced :: "iovec list \<Rightarrow> u32 list \<Rightarrow> noti_buff list" where
  "announced vs tags = map2 (\<lambda>v t. \<lparr>nb_size = ucast (iov_len v), nb_tag = t\<rparr>) vs tags"

lemma transfer_all_ok:
  assumes flat1: "flat_memory mem1 cell1" and flat2: "flat_memory mem2 cell2"
    and "length tags = length vs" and "list_all (\<lambda>v. unat (iov_len v) < 2 ^ 32) vs" and "unat already + total_len vs < 2 ^ 64"
    and "g' = transfer_all mem1 f (send_plan vs (announced vs tags)) mem2 (recv_plan a (announced vs tags) already) g"
  shows "mm_read mem2 (a + already) (total_len vs) g' = concat (map (piece_bytes mem1 f) vs) \<and>
     same_outside cell2 a (unat already) (unat already + total_len vs) g g'"
  using assms(3-6)
proof (induction vs arbitrary: tags already g)
  case Nil
  then show ?case using flat2 by (simp add: announced_def total_len_def flat_read same_outside_def)
next
  case (Cons v vs)
  obtain t ts where tags: "tags = t # ts" using Cons.prems(1) by (cases tags) auto
  let ?len = "iov_len v" and ?g = "mm_write mem2 (a + already) (piece_bytes mem1 f v) g"
  have total: "total_len (v # vs) = unat ?len + total_len vs" by (simp add: total_len_def)
  have size: "ucast (ucast ?len :: u32) = ?len"
    using Cons.prems(2) by (simp add: word_unat_eq_iff unsigned_ucast_eq unsigned_take_bit_eq take_bit_nat_eq_self)
  have already: "unat (already + ?len) = unat already + unat ?len" using Cons.prems(3) total by (intro unat_add_exact) simp
  have blen: "length (piece_bytes mem1 f v) = unat ?len" by (simp add: flat_length [OF flat1])
  then have small: "length (piece_bytes mem1 f v) < 2 ^ 64" using Cons.prems(3) total by simp
  have g': "g' = transfer_all mem1 f (send_plan vs (announced vs ts)) mem2 (recv_plan a (announced vs ts) (already + ?len)) ?g"
    using Cons.prems(4) by (simp add: tags announced_def size blen)
  have IH: "mm_read mem2 (a + (already + ?len)) (total_len vs) g' = concat (map (piece_bytes mem1 f) vs) \<and>
     same_outside cell2 a (unat (already + ?len)) (unat (already + ?len) + total_len vs) ?g g'"
    by (rule Cons.IH [OF _ _ _ g']) (use Cons.prems tags total already in simp_all)
  have wrote: "same_outside cell2 a (unat already) (unat (already + ?len)) g ?g"
    using write_outside [OF flat2, of already "piece_bytes mem1 f v" a g] Cons.prems(3) total already blen by simp
  have "mm_read mem2 (a + already) (unat ?len) g' = mm_read mem2 (a + already) (unat ?len) ?g"
    by (rule same_outside_read [OF flat2 conjunct2 [OF IH]]) (use Cons.prems(3) total already in simp_all)
  also have "\<dots> = piece_bytes mem1 f v" using flat_read_write [OF flat2 small, of "a + already" g] blen by simp
  finally have "mm_read mem2 (a + already) (total_len (v # vs)) g' = concat (map (piece_bytes mem1 f) (v # vs))"
    using conjunct1 [OF IH] by (simp add: total flat_read_add [OF flat2] add.assoc)
  moreover have "same_outside cell2 a (unat already) (unat already + total_len (v # vs)) g g'"
    using same_outside_trans [OF wrote conjunct2 [OF IH]] already total by (simp add: add.assoc)
  ultimately show ?case by simp
qed

lemma plans_agree:
  "length tags = length vs \<Longrightarrow> list_all (\<lambda>v. unat (iov_len v) < 2 ^ 32) vs \<Longrightarrow>
     map snd (send_plan vs (announced vs tags)) = map snd (recv_plan a (announced vs tags) already)"
proof (induction vs arbitrary: tags already)
  case (Cons v vs)
  then show ?case
    by (cases tags) (simp_all add: announced_def word_unat_eq_iff unsigned_ucast_eq unsigned_take_bit_eq take_bit_nat_eq_self)
qed (simp add: announced_def)

lemma distinct_tags:
  assumes "0 \<le> n" and "k \<le> 1000001"
  shows "distinct (map (\<lambda>i. tag_of_count (n + int i)) [0..<k])"
proof -
  have "i = j" if "tag_of_count (n + int i) = tag_of_count (n + int j)" and "i \<le> j" and "j < k" for i j
  proof (rule ccontr)
    assume "i \<noteq> j"
    have "nat (n + int i) mod 1000001 = nat (n + int j) mod 1000001"
      using that(1) tag_range [of "n + int i"] tag_range [of "n + int j"] assms(1) by simp
    then have "1000001 dvd nat (n + int j) - nat (n + int i)"
      using that(2) assms(1) by (intro iffD1 [OF mod_eq_dvd_iff_nat]) simp_all
    moreover have "nat (n + int j) - nat (n + int i) = j - i" using that(2) assms(1) by (simp add: nat_diff_distrib' flip: nat_diff_distrib')
    ultimately show False using that(2, 3) assms(2) \<open>i \<noteq> j\<close> by (auto dest: dvd_imp_le)
  qed
  then have "inj_on (\<lambda>i. tag_of_count (n + int i)) {0..<k}" by (intro linorder_inj_onI) force+
  then show ?thesis by (simp add: distinct_map)
qed

text \<open>C11. From write to read. The messages into which a write is divided, and the receives that the other process
  posts from the notification, agree one by one in size and tag, the tags of one write are all different, and
  when the fabric has moved every message to its receive, the new buffer of the receiving process holds the
  bytes of the application's pieces in their order. The sizes must fit the field of the notification.\<close>

theorem message_end_to_end:
  assumes flat1: "flat_memory mem1 cell1" and flat2: "flat_memory mem2 cell2" and total: "total_len iov < 2 ^ 64"
    and clear: "list_all (clear_of buf (unat (size_to_buffer (make_groups limit iov)))) iov"
    and sizes: "list_all (\<lambda>g. unat (bg_size g) < 2 ^ 32) (make_groups limit iov)"
    and built: "build_iov mem1 buf iov (make_groups limit iov) 0 f = (v, f')"
    and ann: "announce c v s = Some ((rs, ns), s')" and "0 \<le> pl_counter s" and "pl_counter s + int (length v) < 2 ^ 31"
  shows "send_all w v ns rs l1 = post_sends w (send_plan v ns) rs l1 \<and>
     recv_all w a ns rs2 0 l2 = post_recvs w (recv_plan a ns 0) rs2 l2 \<and>
     map snd (send_plan v ns) = map snd (recv_plan a ns 0) \<and>
     (length v \<le> 1000001 \<longrightarrow> distinct (map nb_tag ns)) \<and>
     mm_read mem2 a (total_len iov) (transfer_all mem1 f' (send_plan v ns) mem2 (recv_plan a ns 0) g) =
       concat (map (piece_bytes mem1 f) iov)"
proof -
  let ?tags = "map (\<lambda>i. tag_of_count (pl_counter s + int i)) [0..<length v]"
  have ns: "ns = announced v ?tags"
    using announce_entries [OF ann assms(8, 9)]
    by (auto simp: announced_def intro: nth_equalityI)
  have kept: "concat (map (piece_bytes mem1 f') v) = concat (map (piece_bytes mem1 f) iov) \<and> map iov_len v = map bg_size (make_groups limit iov)"
    using bundle_keeps_bytes [OF flat1 total clear built] by simp
  have lens: "length ?tags = length v" by simp
  have "list_all (\<lambda>x. unat x < 2 ^ 32) (map iov_len v)" using kept sizes by (simp add: list_all_iff)
  then have small: "list_all (\<lambda>v. unat (iov_len v) < 2 ^ 32) v" by (simp add: list_all_iff)
  have "total_len v = (\<Sum>x\<leftarrow>map iov_len v. unat x)" by (simp add: total_len_def comp_def)
  also have "\<dots> = (\<Sum>g\<leftarrow>make_groups limit iov. unat (bg_size g))" using kept by (simp add: comp_def)
  also have "\<dots> = (\<Sum>g\<leftarrow>make_groups limit iov. group_len iov g)"
    using make_groups_lens(1) [OF total] by (intro arg_cong [of _ _ sum_list] map_cong) simp_all
  finally have tot: "total_len v = total_len iov" using make_groups_total [OF total, of limit] by simp
  have "mm_read mem2 (a + 0) (total_len v) (transfer_all mem1 f' (send_plan v ns) mem2 (recv_plan a ns 0) g) =
      concat (map (piece_bytes mem1 f') v)"
    using transfer_all_ok [where already = 0 and f = f' and a = a and g = g, OF flat1 flat2 lens small _ refl] tot total by (simp add: ns)
  moreover have "distinct (map nb_tag ns)" if "length v \<le> 1000001"
  proof -
    have "map nb_tag ns = ?tags" by (simp add: ns announced_def comp_def split_def map_snd_zip)
    then show ?thesis using distinct_tags [OF assms(8) that] by simp
  qed
  ultimately show ?thesis
    using kept tot plans_agree [OF lens small, of a 0] by (simp add: send_all_plan recv_all_plan ns)
qed

text \<open>Two pieces that are copied together, and one more that is not.\<close>

definition desk_long :: "iovec list" where
  "desk_long = desk_iov @ [\<lparr>iov_base = 2000, iov_len = 6\<rparr>]"

lemma desk_long_groups: "make_groups 8 desk_long = [\<lparr>bg_size = 3, bg_list = [0, 1]\<rparr>, \<lparr>bg_size = 6, bg_list = [2]\<rparr>]"
  by (simp add: make_groups_def group_step_def buff_group_new_def desk_long_def desk_iov_def upt_conv_Cons)

lemma message_end_to_end_witness:
  "\<exists>v f' rs ns s'. build_iov desk_mem 100 desk_long (make_groups 8 desk_long) 0 desk_text = (v, f') \<and>
     announce 7 v desk_preload = Some ((rs, ns), s') \<and> map nb_tag ns = [100000, 100001] \<and>
     mm_read desk_mem 300 9 (transfer_all desk_mem f' (send_plan v ns) desk_mem (recv_plan 300 ns 0) desk0) = [11, 12, 13, 0, 0, 0, 0, 0, 0]"
proof -
  obtain v f' where built: "build_iov desk_mem 100 desk_long (make_groups 8 desk_long) 0 desk_text = (v, f')" by force
  have v: "length v = 2" using built unfolding desk_long_groups by (auto split: prod.splits)
  obtain rs ns s' where ann: "announce 7 v desk_preload = Some ((rs, ns), s')"
    using v by (cases "announce 7 v desk_preload")
      (auto simp: desk_preload_def preload_new_def sample_simps new_request_def on_lfi_def next_tag_def length_Suc_conv numeral_2_eq_2)
  have counter: "pl_counter desk_preload = 0" by (simp add: desk_preload_def preload_new_def)
  have total: "total_len desk_long < 2 ^ 64" and nine: "total_len desk_long = 9" by (simp_all add: total_len_def desk_long_def desk_iov_def)
  have clear: "list_all (clear_of 100 (unat (size_to_buffer (make_groups 8 desk_long)))) desk_long"
    unfolding desk_long_groups by (simp add: size_to_buffer_def desk_long_def desk_iov_def clear_of_above)
  have sizes: "list_all (\<lambda>g. unat (bg_size g) < 2 ^ 32) (make_groups 8 desk_long)" by (simp add: desk_long_groups)
  have "mm_read desk_mem 300 9 (transfer_all desk_mem f' (send_plan v ns) desk_mem (recv_plan 300 ns 0) desk0) =
      concat (map (piece_bytes desk_mem desk_text) desk_long)"
    using message_end_to_end [where a = 300 and g = desk0, OF desk_flat desk_flat total clear sizes built ann] v counter
    unfolding nine by force
  also have "concat (map (piece_bytes desk_mem desk_text) desk_long) = [11, 12, 13, 0, 0, 0, 0, 0, 0]"
    by (simp add: desk_mem_def desk_text_def desk_long_def desk_iov_def upt_conv_Cons)
  finally have read: "mm_read desk_mem 300 9 (transfer_all desk_mem f' (send_plan v ns) desk_mem (recv_plan 300 ns 0) desk0) =
      [11, 12, 13, 0, 0, 0, 0, 0, 0]" .
  have two: "tag_of_count 0 = 100000" "tag_of_count 1 = 100001"
    by (simp_all add: tag_of_count_def LFI_TAG_BUFFERED_LD_PRELOAD_def signed_modulo_int_def)
  have "ns = map (\<lambda>i. \<lparr>nb_size = ucast (iov_len (v ! i)), nb_tag = tag_of_count (0 + int i)\<rparr>) [0..<2]"
    using announce_entries [OF ann] unfolding v counter by simp
  then have tags: "map nb_tag ns = [100000, 100001]" by (simp add: upt_conv_Cons two)
  show ?thesis by (intro exI conjI) (rule built ann tags read)+
qed

end
