(* ===== verification/Preload_Stream.thy ===== *)
theory Preload_Stream
  imports Preload_Memory
begin

text \<open>
  What an application sees of a connected socket: the data of the notifications, in the order in which they
  were queued, as one stream of bytes, and an eventfd that is readable exactly while data waits. The abstract
  socket is the list of what has not been read.
\<close>

subsection \<open>Filling the application's pieces\<close>

text \<open>Pieces that do not overlap.\<close>

fun apart :: "iovec list \<Rightarrow> bool" where
  "apart [] = True"
| "apart (v # vs) = (list_all (clear_of (iov_base v) (unat (iov_len v))) vs \<and> apart vs)"

definition iov_total :: "iovec list \<Rightarrow> nat" where
  "iov_total iov = (\<Sum>v\<leftarrow>iov. unat (iov_len v))"

lemma iov_total_simps [simp]: "iov_total [] = 0" "iov_total (v # vs) = unat (iov_len v) + iov_total vs"
  by (simp_all add: iov_total_def)

definition with_fab :: "'f preload \<Rightarrow> 'f \<Rightarrow> 'f preload" where
  "with_fab s f = s\<lparr>pl_lfi := (pl_lfi s)\<lparr>l_fab := f\<rparr>\<rparr>"

lemma with_fab_simps [simp]:
  "pl_socks (with_fab s f) = pl_socks s" "l_fab (pl_lfi (with_fab s f)) = f" "with_fab (with_fab s f) g = with_fab s g"
  "the_comm c (pl_lfi (with_fab s f)) = the_comm c (pl_lfi s)" "with_fab s (l_fab (pl_lfi s)) = s"
  by (simp_all add: with_fab_def the_comm_def)

lemma mem_write_fab: "mem_write px a bs s = with_fab s (mm_write (px_mem px) a bs (l_fab (pl_lfi s)))"
  by (simp add: mem_write_def with_fab_def)

text \<open>The bytes that lie in none of the pieces.\<close>

definition untouched :: "(u64 \<Rightarrow> 'f \<Rightarrow> u8) \<Rightarrow> iovec list \<Rightarrow> 'f \<Rightarrow> 'f \<Rightarrow> bool" where
  "untouched cell iov f f' \<longleftrightarrow>
     (\<forall>b. (\<forall>v\<in>set iov. unat (iov_len v) \<le> unat (b - iov_base v)) \<longrightarrow> cell b f' = cell b f)"

lemma clear_of_sym:
  assumes clear: "clear_of a n v" and "i < n" and "n \<le> 2 ^ 64"
  shows "unat (iov_len v) \<le> unat (a + word_of_nat i - iov_base v)"
proof (rule ccontr)
  let ?j = "unat (a + word_of_nat i - iov_base v)"
  assume "\<not> unat (iov_len v) \<le> ?j"
  then have "n \<le> unat (iov_base v + word_of_nat ?j - a)" using clear unfolding clear_of_def not_le by blast
  moreover have "iov_base v + word_of_nat ?j - a = word_of_nat i" by simp
  moreover have "unat (word_of_nat i :: u64) = i" using assms(2, 3) by (intro small_of_nat) simp
  ultimately show False using assms(2) by simp
qed

lemma fill_iov_ok:
  assumes flat: "flat_memory (px_mem px) cell" and count: "\<And>a bs f. count (mm_write (px_mem px) a bs f) = count f"
    and "apart iov" and "unat (bf_consumed b) \<le> length (bf_buffer b)" and len: "length (bf_buffer b) < 2 ^ 64"
    and "fill_iov px iov b ret s = ((b', ret'), s')"
  defines "rest \<equiv> drop (unat (bf_consumed b)) (bf_buffer b)" and "m \<equiv> min (iov_total iov) (length (bf_buffer b) - unat (bf_consumed b))"
  shows "bf_buffer b' = bf_buffer b \<and> unat (bf_consumed b') = unat (bf_consumed b) + m \<and> ret' = ret + word_of_nat m \<and>
         s' = with_fab s (l_fab (pl_lfi s')) \<and> count (l_fab (pl_lfi s')) = count (l_fab (pl_lfi s)) \<and>
         untouched cell iov (l_fab (pl_lfi s)) (l_fab (pl_lfi s')) \<and>
         take m (concat (map (piece_bytes (px_mem px) (l_fab (pl_lfi s'))) iov)) = take m rest"
  using assms(3-6) unfolding rest_def m_def
proof (induction iov arbitrary: b ret s)
  case Nil
  then show ?case by (simp add: untouched_def)
next
  case (Cons v vs)
  let ?len = "length (bf_buffer b)" and ?c = "bf_consumed b" and ?f = "l_fab (pl_lfi s)" and ?f' = "l_fab (pl_lfi s')"
  have size: "unat (word_of_nat ?len :: u64) = ?len" using Cons.prems(3) by (rule small_of_nat)
  show ?case
  proof (cases "word_of_nat ?len = ?c")
    case True
    then have "?len = unat ?c" using size by simp
    then show ?thesis using True Cons.prems(4) by (auto simp: untouched_def)
  next
    case False
    let ?n = "min (iov_len v) (word_of_nat ?len - ?c)"
    let ?data = "take (unat ?n) (drop (unat ?c) (bf_buffer b))"
    let ?b = "b\<lparr>bf_consumed := ?c + ?n\<rparr>"
    let ?s = "mem_write px (iov_base v) ?data s" and ?g = "mm_write (px_mem px) (iov_base v) ?data ?f"
    have "unat (word_of_nat ?len - ?c) = ?len - unat ?c" using Cons.prems(2) size
      by (simp add: unat_sub word_le_nat_alt)
    then have n: "unat ?n = min (unat (iov_len v)) (?len - unat ?c)"
      by (simp add: min_def word_le_nat_alt)
    then have data_len: "length ?data = unat ?n" using n by simp
    have c': "unat (?c + ?n) = unat ?c + unat ?n" using n Cons.prems(2, 3) by (intro unat_add_exact) simp
    have run: "fill_iov px vs ?b (ret + ?n) ?s = ((b', ret'), s')" using Cons.prems(4) False by (simp add: Let_def)
    let ?k = "min (iov_total vs) (?len - unat (?c + ?n))"
    have b_simps: "bf_buffer ?b = bf_buffer b" "bf_consumed ?b = ?c + ?n" by simp_all
    have pre: "apart vs" "unat (bf_consumed ?b) \<le> length (bf_buffer ?b)" "length (bf_buffer ?b) < 2 ^ 64"
      unfolding b_simps c' using Cons.prems(1-3) n by simp_all
    have IH: "bf_buffer b' = bf_buffer ?b \<and> unat (bf_consumed b') = unat (bf_consumed ?b) + ?k \<and> ret' = ret + ?n + word_of_nat ?k \<and>
        s' = with_fab ?s ?f' \<and> count ?f' = count (l_fab (pl_lfi ?s)) \<and> untouched cell vs (l_fab (pl_lfi ?s)) ?f' \<and>
        take ?k (concat (map (piece_bytes (px_mem px) ?f') vs)) = take ?k (drop (unat (bf_consumed ?b)) (bf_buffer ?b))"
      unfolding b_simps by (rule Cons.IH [OF pre run, unfolded b_simps])
    have g: "l_fab (pl_lfi ?s) = ?g" by (simp add: mem_write_fab)
    have small: "length ?data < 2 ^ 64" using Cons.prems(3) by simp
    have "min (x + t) r = min x r + min t (r - min x r)" for x t r :: nat by auto
    then have total: "min (iov_total (v # vs)) (?len - unat ?c) = unat ?n + ?k"
      unfolding c' n iov_total_simps diff_diff_left [symmetric] .
    have kept: "mm_read (px_mem px) (iov_base v) (unat ?n) ?f' = mm_read (px_mem px) (iov_base v) (unat ?n) ?g"
    proof (rule flat_read_cong [OF flat])
      fix i assume "i < unat ?n"
      then have i: "i < unat (iov_len v)" using n by simp
      have "unat (iov_len v) < 2 ^ LENGTH(64)" by (rule unsigned_less)
      then have "unat (iov_len v) \<le> 2 ^ 64" by simp
      then have "\<forall>u\<in>set vs. unat (iov_len u) \<le> unat (iov_base v + word_of_nat i - iov_base u)"
        using Cons.prems(1) i clear_of_sym by (auto simp: list_all_iff)
      then show "cell (iov_base v + word_of_nat i) ?f' = cell (iov_base v + word_of_nat i) ?g"
        using IH unfolding g untouched_def by simp
    qed
    have wrote: "mm_read (px_mem px) (iov_base v) (unat ?n) ?g = ?data"
      using flat_read_write [OF flat small, of "iov_base v" ?f] data_len by simp
    have "unat (iov_len v) = unat ?n + (unat (iov_len v) - unat ?n)" using n by simp
    then have piece: "piece_bytes (px_mem px) ?f' v =
        ?data @ mm_read (px_mem px) (iov_base v + word_of_nat (unat ?n)) (unat (iov_len v) - unat ?n) ?f'"
      using flat_read_add [OF flat, of "iov_base v" "unat ?n" "unat (iov_len v) - unat ?n" ?f'] kept wrote by simp
    have "take (unat ?n + ?k) (concat (map (piece_bytes (px_mem px) ?f') (v # vs))) = take (unat ?n + ?k) (drop (unat ?c) (bf_buffer b))"
    proof (cases "?k = 0")
      case True
      then show ?thesis using piece data_len by simp
    next
      case False
      then have "unat ?n = unat (iov_len v)" using n c' by auto
      then have "piece_bytes (px_mem px) ?f' v = ?data" using kept wrote by simp
      moreover have "take ?k (concat (map (piece_bytes (px_mem px) ?f') vs)) = take ?k (drop (unat ?n) (drop (unat ?c) (bf_buffer b)))"
        using IH c' by (simp add: add.commute)
      ultimately show ?thesis using data_len by (simp add: take_add)
    qed
    moreover have "untouched cell (v # vs) ?f ?f'"
    proof (unfold untouched_def, intro allI impI)
      fix x assume out: "\<forall>u\<in>set (v # vs). unat (iov_len u) \<le> unat (x - iov_base u)"
      then have "cell x ?f' = cell x ?g" using IH unfolding g untouched_def by simp
      moreover have "\<not> unat (x - iov_base v) < length ?data" using out n by (simp only: data_len) auto
      ultimately show "cell x ?f' = cell x ?f" using flat_write [OF flat small, of x "iov_base v" ?f] by (simp only: if_False)
    qed
    moreover have "ret' = ret + word_of_nat (unat ?n + ?k)" using IH by (simp add: add.assoc)
    ultimately show ?thesis unfolding total using IH c' count by (simp add: mem_write_fab)
  qed
qed

subsection \<open>The abstract socket\<close>

text \<open>What happens to a socket: a notification's data arrives, or the application reads into its pieces.\<close>

datatype sock_event = Arrive "u8 list" | Take "iovec list"

text \<open>The abstract socket: the data not yet read, in the parts in which it arrived. A read stays within one part;
  the results are what the call returns and the bytes it delivered.\<close>

fun spec_step :: "sock_event \<Rightarrow> u8 list list \<Rightarrow> (int \<times> u8 list) list \<times> u8 list list" where
  "spec_step (Arrive d) q = ([], q @ [d])"
| "spec_step (Take iov) [] = ([(-1, [])], [])"
| "spec_step (Take iov) (c # q) =
     (let n = min (iov_total iov) (length c)
      in ([(int n, take n c)], if n = length c then q else drop n c # q))"

fun spec_run :: "sock_event list \<Rightarrow> u8 list list \<Rightarrow> (int \<times> u8 list) list \<times> u8 list list" where
  "spec_run [] q = ([], q)"
| "spec_run (e # es) q = (let (r, q1) = spec_step e q; (rs, q2) = spec_run es q1 in (r @ rs, q2))"

fun arrived :: "sock_event list \<Rightarrow> u8 list" where
  "arrived [] = []"
| "arrived (Arrive d # es) = d @ arrived es"
| "arrived (Take iov # es) = arrived es"

lemma spec_step_conserves: "concat (map snd (fst (spec_step e q))) @ concat (snd (spec_step e q)) = concat q @ arrived [e]"
  by (cases "(e, q)" rule: spec_step.cases) (simp_all add: Let_def)

lemma arrived_Cons: "arrived (e # es) = arrived [e] @ arrived es"
  by (cases e) simp_all

lemma spec_run_conserves: "concat (map snd (fst (spec_run es q))) @ concat (snd (spec_run es q)) = concat q @ arrived es"
proof (induction es arbitrary: q)
  case (Cons e es)
  obtain r q1 where step: "spec_step e q = (r, q1)" by force
  have "concat (map snd r) @ concat (map snd (fst (spec_run es q1))) @ concat (snd (spec_run es q1)) =
      concat (map snd r) @ concat q1 @ arrived es" using Cons.IH [of q1] by simp
  also have "\<dots> = concat q @ arrived (e # es)" using spec_step_conserves [of e q] step by (simp add: arrived_Cons [of e es])
  finally show ?case by (auto simp: step split: prod.split)
qed simp

subsection \<open>The program\<close>

fun sock_step ::
    "'f world \<Rightarrow> 'f posix \<Rightarrow> int \<Rightarrow> sock_event \<Rightarrow> 'f preload \<Rightarrow> ((int \<times> u8 list) list \<times> 'f preload) option" where
  "sock_step w px fd (Arrive d) s = map_option (\<lambda>t. ([], t)) (push_buffer px fd d s)"
| "sock_step w px fd (Take iov) s =
     do { (r, t) \<leftarrow> internal_recvmsg w px fd iov s;
          Some ([(r, if r < 0 then [] else take (nat r) (concat (map (piece_bytes (px_mem px) (l_fab (pl_lfi t))) iov)))], t) }"

fun sock_run ::
    "'f world \<Rightarrow> 'f posix \<Rightarrow> int \<Rightarrow> sock_event list \<Rightarrow> 'f preload \<Rightarrow> ((int \<times> u8 list) list \<times> 'f preload) option" where
  "sock_run w px fd [] s = Some ([], s)"
| "sock_run w px fd (e # es) s =
     do { (r, s1) \<leftarrow> sock_step w px fd e s; (rs, s2) \<leftarrow> sock_run w px fd es s1; Some (r @ rs, s2) }"

text \<open>A connected socket whose unread data is \<open>q\<close>, with its eventfd counting the parts.\<close>

definition unread :: "lfi_socket \<Rightarrow> u8 list list" where
  "unread sk = map (\<lambda>b. drop (unat (bf_consumed b)) (bf_buffer b)) (sk_buffers sk)"

definition live_socket :: "(int \<Rightarrow> 'f \<Rightarrow> nat) \<Rightarrow> int \<Rightarrow> u8 list list \<Rightarrow> 'f preload \<Rightarrow> bool" where
  "live_socket count fd q s \<longleftrightarrow>
     (\<exists>sk m. pl_socks s fd = Some sk \<and> sk_lfi_id sk \<noteq> -1 \<and>
        the_comm (u32_of (sk_lfi_id sk)) (pl_lfi s) = Some m \<and> cm_is_ready m \<noteq> NOT_READY \<and> unread sk = q \<and>
        (\<forall>b\<in>set (sk_buffers sk). unat (bf_consumed b) \<le> length (bf_buffer b) \<and> length (bf_buffer b) < 2 ^ 64) \<and>
        count (sk_eventfd sk) (l_fab (pl_lfi s)) = length q)"

fun event_ok :: "'f posix \<Rightarrow> sock_event \<Rightarrow> bool" where
  "event_ok px (Arrive d) = (length d < 2 ^ 64)"
| "event_ok px (Take iov) = (apart iov \<and> iov_total iov < 2 ^ 63 \<and> list_all (clear_of (px_local px) 8) iov)"

lemma set_sock_simps [simp]:
  "pl_socks (set_sock fd sk s) = (pl_socks s)(fd \<mapsto> sk)" "pl_lfi (set_sock fd sk s) = pl_lfi s"
  "with_fab (set_sock fd sk s) f = set_sock fd sk (with_fab s f)"
  by (simp_all add: set_sock_def with_fab_def)

lemma proxy_fab: "proxy call s = (fst (call (l_fab (pl_lfi s))), with_fab s (snd (call (l_fab (pl_lfi s)))))"
  by (simp add: proxy_def fab_def with_fab_def Let_def split: prod.splits)

lemma eventfd_write_live:
  assumes flat: "flat_memory (px_mem px) cell" and law: "eventfd_law px cell count"
    and "count e (l_fab (pl_lfi s)) < 2 ^ 64 - 2"
  shows "\<exists>f. snd (eventfd_write px e 1 s) = with_fab s f \<and> count e f = Suc (count e (l_fab (pl_lfi s)))"
proof -
  let ?f = "mm_write (px_mem px) (px_local px) (le_bytes 8 (1 :: u64)) (l_fab (pl_lfi s))"
  have "mm_read (px_mem px) (px_local px) 8 ?f = le_bytes 8 (1 :: u64)"
    using flat_read_write [OF flat, of "le_bytes 8 (1 :: u64)"] by simp
  moreover have "count e ?f = count e (l_fab (pl_lfi s))" using law by (simp add: eventfd_law_def)
  ultimately have "count e (snd (px_write px e (px_local px) 8 ?f)) = Suc (count e (l_fab (pl_lfi s)))"
    using law assms(3) by (simp add: eventfd_law_def)
  then show ?thesis by (auto simp: eventfd_write_def proxy_fab mem_write_fab)
qed

lemma eventfd_read_live:
  assumes flat: "flat_memory (px_mem px) cell" and law: "eventfd_law px cell count"
  shows "\<exists>f. snd (eventfd_read px e s) = with_fab s f \<and> count e f = count e (l_fab (pl_lfi s)) - 1 \<and>
     (\<forall>b. 8 \<le> unat (b - px_local px) \<longrightarrow> cell b f = cell b (l_fab (pl_lfi s)))"
proof -
  let ?f = "mm_write (px_mem px) (px_local px) (le_bytes 8 (0 :: u64)) (l_fab (pl_lfi s))"
  have "count e (snd (px_read px e (px_local px) 8 ?f)) = count e (l_fab (pl_lfi s)) - 1"
    using law by (simp add: eventfd_law_def)
  moreover have "cell b (snd (px_read px e (px_local px) 8 ?f)) = cell b (l_fab (pl_lfi s))" if "8 \<le> unat (b - px_local px)" for b
    using law flat_write [OF flat, of "le_bytes 8 (0 :: u64)" b "px_local px"] that by (simp add: eventfd_law_def)
  ultimately show ?thesis by (auto simp: eventfd_read_def proxy_fab mem_write_fab)
qed

lemma arrive_live:
  assumes "flat_memory (px_mem px) cell" and "eventfd_law px cell count" and live: "live_socket count fd q s"
    and "length d < 2 ^ 64" and "length q < 2 ^ 64 - 2"
  shows "\<exists>t. push_buffer px fd d s = Some t \<and> live_socket count fd (q @ [d]) t"
proof -
  obtain sk m where sk: "pl_socks s fd = Some sk" "sk_lfi_id sk \<noteq> -1" "the_comm (u32_of (sk_lfi_id sk)) (pl_lfi s) = Some m"
    "cm_is_ready m \<noteq> NOT_READY" "unread sk = q" "count (sk_eventfd sk) (l_fab (pl_lfi s)) = length q"
    and ok: "\<forall>b\<in>set (sk_buffers sk). unat (bf_consumed b) \<le> length (bf_buffer b) \<and> length (bf_buffer b) < 2 ^ 64"
    using live by (auto simp: live_socket_def)
  let ?sk = "sk\<lparr>sk_buffers := sk_buffers sk @ [\<lparr>bf_buffer = d, bf_consumed = 0\<rparr>]\<rparr>"
  obtain f where "snd (eventfd_write px (sk_eventfd sk) 1 (set_sock fd ?sk s)) = with_fab (set_sock fd ?sk s) f"
    and "count (sk_eventfd sk) f = Suc (length q)"
    using eventfd_write_live [OF assms(1, 2), of "sk_eventfd sk" "set_sock fd ?sk s"] assms(5) sk(6) by auto
  then show ?thesis using sk ok assms(4) by (auto simp: push_buffer_def live_socket_def unread_def)
qed

lemma take_live:
  assumes flat: "flat_memory (px_mem px) cell" and law: "eventfd_law px cell count" and live: "live_socket count fd (c # q) s"
    and "event_ok px (Take iov)"
  defines "n \<equiv> min (iov_total iov) (length c)"
  shows "\<exists>t. internal_recvmsg w px fd iov s = Some (int n, t) \<and>
     take n (concat (map (piece_bytes (px_mem px) (l_fab (pl_lfi t))) iov)) = take n c \<and>
     live_socket count fd (if n = length c then q else drop n c # q) t"
proof -
  obtain sk m where sk: "pl_socks s fd = Some sk" "sk_lfi_id sk \<noteq> -1" "the_comm (u32_of (sk_lfi_id sk)) (pl_lfi s) = Some m"
    "cm_is_ready m \<noteq> NOT_READY" "unread sk = c # q" "count (sk_eventfd sk) (l_fab (pl_lfi s)) = Suc (length q)"
    and ok: "\<forall>b\<in>set (sk_buffers sk). unat (bf_consumed b) \<le> length (bf_buffer b) \<and> length (bf_buffer b) < 2 ^ 64"
    using live by (auto simp: live_socket_def)
  obtain b bs where bs: "sk_buffers sk = b # bs" and c: "drop (unat (bf_consumed b)) (bf_buffer b) = c"
    and q: "map (\<lambda>b. drop (unat (bf_consumed b)) (bf_buffer b)) bs = q" using sk(5) by (auto simp: unread_def)
  have b: "unat (bf_consumed b) \<le> length (bf_buffer b)" "length (bf_buffer b) < 2 ^ 64" using ok bs by simp_all
  obtain b' r s1 where fill: "fill_iov px iov b 0 s = ((b', r), s1)" by (metis prod.exhaust)
  have iov: "apart iov" "iov_total iov < 2 ^ 63" "list_all (clear_of (px_local px) 8) iov" using assms(4) by simp_all
  have clen: "length c = length (bf_buffer b) - unat (bf_consumed b)" unfolding c [symmetric] by simp
  have "count e (mm_write (px_mem px) a xs f) = count e f" for e a xs f using law by (simp add: eventfd_law_def)
  from fill_iov_ok [OF flat, where count = "count (sk_eventfd sk)", OF this iov(1) b fill]
  have b': "bf_buffer b' = bf_buffer b" "unat (bf_consumed b') = unat (bf_consumed b) + n" and r: "r = word_of_nat n"
    and s1: "s1 = with_fab s (l_fab (pl_lfi s1))" and cnt: "count (sk_eventfd sk) (l_fab (pl_lfi s1)) = Suc (length q)"
    and data: "take n (concat (map (piece_bytes (px_mem px) (l_fab (pl_lfi s1))) iov)) = take n c"
    using sk(6) by (simp_all add: clen n_def c)
  have "n < 2 ^ 63" using iov(2) by (simp add: n_def)
  then have ret: "i64 r = int n" by (simp add: r i64_def signed_of_nat signed_take_bit_int_eq_self)
  have socks: "pl_socks s1 fd = Some sk" "the_comm (u32_of (sk_lfi_id sk)) (pl_lfi s1) = Some m"
    using s1 sk(1, 3) by (metis with_fab_simps(1), metis with_fab_simps(4))
  have size: "unat (word_of_nat (length (bf_buffer b')) :: u64) = length (bf_buffer b)" using b(2) b'(1) small_of_nat by simp
  have get: "on_lfi (get_comm w (u32_of (sk_lfi_id sk))) s = Some (Some (u32_of (sk_lfi_id sk)), s)"
    using get_comm_ready [OF sk(3, 4)] by (simp add: on_lfi_def get_comm_def)
  have all: "word_of_nat (length (bf_buffer b')) = bf_consumed b' \<longleftrightarrow> n = length c"
    using size b'(2) b(1) clen by (auto simp: word_unat_eq_iff)
  show ?thesis
  proof (cases "n = length c")
    case True
    let ?s = "set_sock fd (sk\<lparr>sk_buffers := bs\<rparr>) s1"
    obtain f where f: "snd (eventfd_read px (sk_eventfd sk) ?s) = with_fab ?s f" "count (sk_eventfd sk) f = length q"
      "\<forall>b. 8 \<le> unat (b - px_local px) \<longrightarrow> cell b f = cell b (l_fab (pl_lfi s1))"
      using eventfd_read_live [OF flat law, of "sk_eventfd sk" ?s] cnt by auto
    have "piece_bytes (px_mem px) f v = piece_bytes (px_mem px) (l_fab (pl_lfi s1)) v" if "v \<in> set iov" for v
      using f(3) iov(3) that by (intro flat_read_cong [OF flat]) (auto simp: clear_of_def list_all_iff)
    then have "map (piece_bytes (px_mem px) f) iov = map (piece_bytes (px_mem px) (l_fab (pl_lfi s1))) iov" by (rule map_cong [OF refl])
    then have "take n (concat (map (piece_bytes (px_mem px) f) iov)) = take n c" using data by (simp only:)
    moreover have "internal_recvmsg w px fd iov s = Some (int n, with_fab ?s f)"
      using sk(1, 2) get fill bs True all ret f(1) by (simp add: internal_recvmsg_def)
    moreover have "live_socket count fd q (with_fab ?s f)"
      using socks sk(2, 4) f(2) ok bs q by (auto simp: live_socket_def unread_def)
    ultimately show ?thesis using True by auto
  next
    case False
    have "internal_recvmsg w px fd iov s = Some (int n, set_sock fd (sk\<lparr>sk_buffers := b' # bs\<rparr>) s1)"
      using sk(1, 2) get fill bs False all ret by (simp add: internal_recvmsg_def)
    moreover have "live_socket count fd (drop n c # q) (set_sock fd (sk\<lparr>sk_buffers := b' # bs\<rparr>) s1)"
    proof -
      have "drop (unat (bf_consumed b')) (bf_buffer b') = drop n c" using b' c by (metis add.commute drop_drop)
      moreover have "unat (bf_consumed b') \<le> length (bf_buffer b')" using b' b(1) clen by (simp add: n_def)
      ultimately show ?thesis
        using socks sk(2, 4) cnt ok bs q b' by (simp add: live_socket_def unread_def)
    qed
    ultimately show ?thesis using data False by auto
  qed
qed

lemma take_empty:
  assumes law: "eventfd_law px cell count" and live: "live_socket count fd [] s"
  shows "\<exists>t. internal_recvmsg w px fd iov s = Some (-1, t) \<and> live_socket count fd [] t \<and>
     t = with_fab s (px_set_errno px EAGAIN (l_fab (pl_lfi s)))"
proof -
  obtain sk m where sk: "pl_socks s fd = Some sk" "sk_lfi_id sk \<noteq> -1" "the_comm (u32_of (sk_lfi_id sk)) (pl_lfi s) = Some m"
    "cm_is_ready m \<noteq> NOT_READY" "unread sk = []" "count (sk_eventfd sk) (l_fab (pl_lfi s)) = 0"
    using live by (auto simp: live_socket_def)
  have "on_lfi (get_comm w (u32_of (sk_lfi_id sk))) s = Some (Some (u32_of (sk_lfi_id sk)), s)"
    using get_comm_ready [OF sk(3, 4)] by (simp add: on_lfi_def get_comm_def)
  then show ?thesis
    using sk law by (auto simp: internal_recvmsg_def unread_def proxy_fab live_socket_def eventfd_law_def)
qed

lemma sock_step_refines:
  assumes flat: "flat_memory (px_mem px) cell" and law: "eventfd_law px cell count" and live: "live_socket count fd q s"
    and e: "event_ok px e" and "length q < 2 ^ 64 - 2"
  shows "\<exists>t. sock_step w px fd e s = Some (fst (spec_step e q), t) \<and> live_socket count fd (snd (spec_step e q)) t"
proof (cases e)
  case (Arrive d)
  then show ?thesis using arrive_live [OF flat law live, of d] e assms(5) by auto
next
  case (Take iov)
  show ?thesis
  proof (cases q)
    case Nil
    then show ?thesis using take_empty [OF law, of fd s w iov] live Take by auto
  next
    case (Cons c q')
    then show ?thesis using take_live [OF flat law, of fd c q' s iov w] live e Take by (fastforce simp: Let_def)
  qed
qed

lemma spec_step_length: "length (snd (spec_step e q)) \<le> Suc (length q)"
  by (cases "(e, q)" rule: spec_step.cases) (simp_all add: Let_def)

text \<open>C10. A connected socket is its abstract socket. Whatever arrives and is read in whatever order, each call
  returns what the abstract socket returns and puts exactly those bytes into the application's pieces; the
  bytes delivered, followed by those still waiting, are the bytes that were waiting at the start followed by
  those that arrived; and the eventfd counts the parts that wait, so it is readable exactly while a read
  would not fail.\<close>

theorem socket_stream:
  assumes "flat_memory (px_mem px) cell" and "eventfd_law px cell count" and "live_socket count fd q s"
    and "list_all (event_ok px) es" and "length q + length es < 2 ^ 64 - 2"
  shows "\<exists>out q' t. sock_run w px fd es s = Some (out, t) \<and> spec_run es q = (out, q') \<and> live_socket count fd q' t \<and>
     concat (map snd out) @ concat q' = concat q @ arrived es"
proof -
  have "\<exists>t. sock_run w px fd es s = Some (fst (spec_run es q), t) \<and> live_socket count fd (snd (spec_run es q)) t"
    using assms(3-5)
  proof (induction es arbitrary: q s)
    case (Cons e es)
    obtain s1 where s1: "sock_step w px fd e s = Some (fst (spec_step e q), s1)" "live_socket count fd (snd (spec_step e q)) s1"
      using sock_step_refines [OF assms(1, 2) Cons.prems(1), of e w] Cons.prems(2, 3) by auto
    then obtain t where "sock_run w px fd es s1 = Some (fst (spec_run es (snd (spec_step e q))), t)"
      "live_socket count fd (snd (spec_run es (snd (spec_step e q)))) t"
      using Cons.IH [OF s1(2)] Cons.prems(2, 3) spec_step_length [of e q] by auto
    with s1 show ?case by (auto split: prod.splits)
  qed simp
  then show ?thesis using spec_run_conserves [of es q] by (metis prod.collapse)
qed

definition desk_events :: "sock_event list" where
  "desk_events = [Arrive [1, 2, 3], Arrive [4], Take [\<lparr>iov_base = 1000, iov_len = 1\<rparr>, \<lparr>iov_base = 1008, iov_len = 1\<rparr>],
     Take [\<lparr>iov_base = 1000, iov_len = 9\<rparr>]]"

lemma desk_live: "live_socket (\<lambda>e f. dk_count f e) 5 [] desk_preload"
  by (simp add: live_socket_def desk_preload_def preload_new_def unread_def sample_simps u32_of_def desk0_def)

lemma desk_laws: "flat_memory (px_mem desk_posix) (\<lambda>a f. dk_mem f a)" "px_local desk_posix = 40"
  by (simp_all add: desk_posix_def desk_flat)

lemma desk_event_ok: "list_all (event_ok desk_posix) desk_events"
  by (simp add: desk_events_def desk_laws clear_of_above)

lemma socket_stream_witness:
  "\<forall>w. \<exists>t. sock_run w desk_posix 5 desk_events desk_preload = Some ([(2, [1, 2]), (1, [3])], t) \<and>
     live_socket (\<lambda>e f. dk_count f e) 5 [[4]] t"
proof
  fix w :: "desk world"
  have "spec_run desk_events [] = ([(2, [1, 2]), (1, [3])], [[4]])"
    by (simp add: desk_events_def iov_total_def)
  then show "\<exists>t. sock_run w desk_posix 5 desk_events desk_preload = Some ([(2, [1, 2]), (1, [3])], t) \<and>
     live_socket (\<lambda>e f. dk_count f e) 5 [[4]] t"
    using socket_stream [OF desk_laws(1) desk_eventfd desk_live desk_event_ok, of w] by (auto simp: desk_events_def)
qed

text \<open>C32. What a read on a connected socket returns: -1 with \<open>EAGAIN\<close> when nothing waits, 0 when the first part is
  empty, which is what a write of no bytes leaves, and otherwise the number of bytes that it delivers. No
  state of the socket makes a read report the end of the connection: an empty write looks like one, and
  a peer that has gone looks like one that is slow.\<close>

theorem read_results:
  assumes "flat_memory (px_mem px) cell" and "eventfd_law px cell count" and "live_socket count fd q s"
    and "apart iov" and "0 < iov_total iov" and "iov_total iov < 2 ^ 63" and "list_all (clear_of (px_local px) 8) iov"
  shows "\<exists>r t. internal_recvmsg w px fd iov s = Some (r, t) \<and>
     (r = -1 \<longleftrightarrow> q = []) \<and> (r = 0 \<longleftrightarrow> (\<exists>q'. q = [] # q')) \<and>
     (q = [] \<longrightarrow> t = with_fab s (px_set_errno px EAGAIN (l_fab (pl_lfi s)))) \<and>
     (\<forall>c q'. q = c # q' \<longrightarrow> r = int (min (iov_total iov) (length c)))"
proof (cases q)
  case Nil
  then show ?thesis using take_empty [OF assms(2), of fd s w iov] assms(3) by auto
next
  case (Cons c q')
  obtain t where "internal_recvmsg w px fd iov s = Some (int (min (iov_total iov) (length c)), t)"
    using take_live [OF assms(1, 2), of fd c q' s iov w] assms(3, 4, 6, 7) Cons by auto
  then show ?thesis using Cons assms(5) by (auto simp: min_def)
qed

lemma read_results_witness:
  "\<forall>w. \<exists>t1 t2 t3. push_buffer desk_posix 5 [] desk_preload = Some t1 \<and>
     internal_recvmsg w desk_posix 5 [\<lparr>iov_base = 1000, iov_len = 1\<rparr>] t1 = Some (0, t2) \<and>
     internal_recvmsg w desk_posix 5 [\<lparr>iov_base = 1000, iov_len = 1\<rparr>] desk_preload = Some (-1, t3) \<and>
     dk_errno (l_fab (pl_lfi t3)) = EAGAIN"
proof
  fix w :: "desk world"
  let ?iov = "[\<lparr>iov_base = 1000, iov_len = 1\<rparr>]"
  have iov: "apart ?iov" "0 < iov_total ?iov" "iov_total ?iov < 2 ^ 63" "list_all (clear_of (px_local desk_posix) 8) ?iov"
    by (simp_all add: desk_laws clear_of_above)
  obtain t1 where "push_buffer desk_posix 5 [] desk_preload = Some t1" and live: "live_socket (\<lambda>e f. dk_count f e) 5 [[]] t1"
    using arrive_live [OF desk_laws(1) desk_eventfd desk_live, of "[]"] by auto
  moreover obtain t2 where "internal_recvmsg w desk_posix 5 ?iov t1 = Some (0, t2)"
    using read_results [OF desk_laws(1) desk_eventfd live iov, of w] by auto
  moreover obtain t3 where "internal_recvmsg w desk_posix 5 ?iov desk_preload = Some (-1, t3)"
    "t3 = with_fab desk_preload (px_set_errno desk_posix EAGAIN (l_fab (pl_lfi desk_preload)))"
    using read_results [OF desk_laws(1) desk_eventfd desk_live iov, of w] by auto
  ultimately show "\<exists>t1 t2 t3. push_buffer desk_posix 5 [] desk_preload = Some t1 \<and>
     internal_recvmsg w desk_posix 5 ?iov t1 = Some (0, t2) \<and> internal_recvmsg w desk_posix 5 ?iov desk_preload = Some (-1, t3) \<and>
     dk_errno (l_fab (pl_lfi t3)) = EAGAIN"
    by (auto simp: desk_posix_def)
qed

end
