(* ===== verification/Preload_Safety.thy ===== *)
theory Preload_Safety
  imports Preload_Stream
begin

text \<open>
  Waiting, connecting and starting in the socket replacement: what \<open>poll\<close> does to the caller's array, why a
  \<open>poll\<close> without a limit does not see data that arrives, what a failed \<open>connect\<close> leaves, and what the start of
  the threads relies on.
\<close>

subsection \<open>Redirected descriptors\<close>

text \<open>The descriptor that is waited for in place of \<open>fd\<close>.\<close>

definition wait_fd :: "(int \<Rightarrow> lfi_socket option) \<Rightarrow> int \<Rightarrow> int" where
  "wait_fd socks fd =
     (case socks fd of None \<Rightarrow> fd | Some sk \<Rightarrow> if sk_eventfd sk \<noteq> -1 then sk_eventfd sk else fd)"

lemma replace_fds_fds: "map pf_fd (snd (replace_fds socks i ps)) = map (\<lambda>p. wait_fd socks (pf_fd p)) ps"
  by (induction socks i ps rule: replace_fds.induct) (auto simp: wait_fd_def Let_def split: prod.splits option.splits)

lemma restore_fds_Cons: "restore_fds ((i, fd) # repl) ps = restore_fds repl (ps[i := (ps ! i)\<lparr>pf_fd := fd\<rparr>])"
  by (simp add: restore_fds_def)

lemma restore_replaced:
  "length pre = i \<Longrightarrow> map pf_fd qs = map (\<lambda>p. wait_fd socks (pf_fd p)) ps \<Longrightarrow>
     restore_fds (fst (replace_fds socks i ps)) (pre @ qs) = pre @ map2 (\<lambda>p q. q\<lparr>pf_fd := pf_fd p\<rparr>) ps qs"
proof (induction socks i ps arbitrary: pre qs rule: replace_fds.induct)
  case (1 socks i)
  then show ?case by (simp add: restore_fds_def)
next
  case (2 socks i p ps)
  obtain q qs' where qs: "qs = q # qs'" and q: "pf_fd q = wait_fd socks (pf_fd p)"
    and rest: "map pf_fd qs' = map (\<lambda>p. wait_fd socks (pf_fd p)) ps" using "2.prems"(2) by (cases qs) auto
  obtain repl ps1 where r: "replace_fds socks (Suc i) ps = (repl, ps1)" by force
  have IH: "restore_fds repl ((pre @ [x]) @ qs') = (pre @ [x]) @ map2 (\<lambda>p q. q\<lparr>pf_fd := pf_fd p\<rparr>) ps qs'" for x
    using "2.IH" [of "pre @ [x]" qs'] "2.prems"(1) rest r by simp
  have same: "q\<lparr>pf_fd := pf_fd p\<rparr> = q" if "wait_fd socks (pf_fd p) = pf_fd p" using q that by simp
  show ?case
  proof (cases "\<exists>sk. socks (pf_fd p) = Some sk \<and> sk_eventfd sk \<noteq> -1")
    case True
    then obtain sk where sk: "socks (pf_fd p) = Some sk" "sk_eventfd sk \<noteq> -1" by blast
    have "fst (replace_fds socks i (p # ps)) = (i, pf_fd p) # repl" using sk r by simp
    moreover have "(pre @ q # qs')[i := ((pre @ q # qs') ! i)\<lparr>pf_fd := pf_fd p\<rparr>] = (pre @ [q\<lparr>pf_fd := pf_fd p\<rparr>]) @ qs'"
      using "2.prems"(1) by (simp add: list_update_append nth_append)
    ultimately show ?thesis using IH [of "q\<lparr>pf_fd := pf_fd p\<rparr>"] by (simp add: qs restore_fds_Cons)
  next
    case False
    then have "fst (replace_fds socks i (p # ps)) = repl" using r by (auto split: option.splits)
    moreover have "q\<lparr>pf_fd := pf_fd p\<rparr> = q" using False by (intro same) (auto simp: wait_fd_def split: option.splits)
    ultimately show ?thesis using IH [of q] by (simp add: qs)
  qed
qed

text \<open>C33. \<open>poll\<close> waits for the eventfd in place of each connected socket. When it succeeds the caller's array has
  its own descriptors again, each with the events reported for its place; when it fails (a signal is enough)
  the array is returned with the eventfds in it, and the caller's next \<open>poll\<close> with that array no longer
  concerns its sockets.\<close>

theorem poll_array:
  assumes "is_caller_libfabric px s = Some False"
    and "px_poll px (snd (replace_fds (pl_socks s) 0 fds)) timeout (l_fab (pl_lfi s)) = ((ret, fds2), f)"
    and keeps: "map pf_fd fds2 = map pf_fd (snd (replace_fds (pl_socks s) 0 fds))"
  shows "\<exists>fds'. pre_poll px fds timeout s = Some ((ret, fds'), with_fab s f) \<and>
     map pf_revents fds' = map pf_revents fds2 \<and>
     map pf_fd fds' = (if ret < 0 then map (\<lambda>p. wait_fd (pl_socks s) (pf_fd p)) fds else map pf_fd fds)"
proof -
  let ?r = "replace_fds (pl_socks s) 0 fds"
  have fds2: "map pf_fd fds2 = map (\<lambda>p. wait_fd (pl_socks s) (pf_fd p)) fds" using keeps by (simp add: replace_fds_fds)
  then have len: "length fds2 = length fds" by (metis length_map)
  have "restore_fds (fst ?r) fds2 = map2 (\<lambda>p q. q\<lparr>pf_fd := pf_fd p\<rparr>) fds fds2"
    using restore_replaced [of "[]" 0 fds2 "pl_socks s" fds] fds2 by simp
  moreover have "map pf_revents (map2 (\<lambda>p q. q\<lparr>pf_fd := pf_fd p\<rparr>) fds fds2) = map pf_revents fds2"
    "map pf_fd (map2 (\<lambda>p q. q\<lparr>pf_fd := pf_fd p\<rparr>) fds fds2) = map pf_fd fds"
    using len by (auto intro: nth_equalityI)
  ultimately show ?thesis
    using assms(1, 2) fds2 by (auto simp: pre_poll_def unless_libfabric_def proxy_fab split: prod.splits)
qed

lemma poll_array_witness:
  "let fds = [\<lparr>pf_fd = 3, pf_events = 1, pf_revents = 0\<rparr>, \<lparr>pf_fd = 5, pf_events = 1, pf_revents = 0\<rparr>];
       interrupted = desk_preload\<lparr>pl_lfi := (pl_lfi desk_preload)\<lparr>l_fab := desk0\<lparr>dk_poll := -1\<rparr>\<rparr>\<rparr>
   in (\<exists>fds' t. pre_poll desk_posix fds (-1) desk_preload = Some ((1, fds'), t) \<and> map pf_fd fds' = [3, 5]) \<and>
      (\<exists>fds' t. pre_poll desk_posix fds (-1) interrupted = Some ((-1, fds'), t) \<and> map pf_fd fds' = [3, 20])"
proof -
  let ?fds = "[\<lparr>pf_fd = 3, pf_events = 1, pf_revents = 0\<rparr>, \<lparr>pf_fd = 5, pf_events = 1, pf_revents = 0\<rparr>]"
  let ?i = "desk_preload\<lparr>pl_lfi := (pl_lfi desk_preload)\<lparr>l_fab := desk0\<lparr>dk_poll := -1\<rparr>\<rparr>\<rparr>"
  have app: "is_caller_libfabric desk_posix desk_preload = Some False" "is_caller_libfabric desk_posix ?i = Some False"
    by (simp_all add: is_caller_libfabric_def desk_preload_def preload_new_def desk_posix_def desk0_def lfi_new_def set_comm_def)
  let ?r = "map (\<lambda>p. p\<lparr>pf_revents := pf_events p\<rparr>)"
  have call: "px_poll desk_posix ps t (l_fab (pl_lfi desk_preload)) = ((1, ?r ps), desk0)"
    "px_poll desk_posix ps t (l_fab (pl_lfi ?i)) = ((-1, ?r ps), desk0\<lparr>dk_poll := -1\<rparr>)" for ps t
    by (simp_all add: desk_posix_def desk_preload_def preload_new_def desk0_def lfi_new_def set_comm_def)
  have keeps: "map pf_fd (?r ps) = map pf_fd ps" for ps by simp
  have socks: "pl_socks desk_preload = [5 \<mapsto> \<lparr>sk_lfi_id = 7, sk_eventfd = 20, sk_buffers = []\<rparr>]"
    by (simp add: desk_preload_def)
  obtain fds1 where "pre_poll desk_posix ?fds (-1) desk_preload = Some ((1, fds1), with_fab desk_preload desk0)" "map pf_fd fds1 = [3, 5]"
    using poll_array [where fds = ?fds and timeout = "-1", OF app(1) call(1) keeps] by auto
  moreover obtain fds2 where "pre_poll desk_posix ?fds (-1) ?i = Some ((-1, fds2), with_fab ?i (desk0\<lparr>dk_poll := -1\<rparr>))" "map pf_fd fds2 = [3, 20]"
    using poll_array [where fds = ?fds and timeout = "-1", OF app(2) call(2) keeps] by (auto simp: socks wait_fd_def)
  ultimately show ?thesis by (auto simp: Let_def)
qed

subsection \<open>A poll without a limit\<close>

text \<open>
  \<open>poll\<close> holds \<open>m_mutex\<close> from the replacement of the descriptors to its end; a thread that has received a
  notification needs \<open>m_mutex\<close> to find the socket. The threads take a step at a time: the application enters
  \<open>poll\<close>, and leaves it when a descriptor is readable or the time is over; a thread that knows the source of
  a notification finds the socket, and later queues the data that it has received.
\<close>

datatype poll_pc = Calling | Blocked "int list" | Returned
datatype noti_pc = Announced int "u8 list" | Found int "u8 list" | Idle

record 'f poll_conf =
  pc_app :: poll_pc
  pc_threads :: "noti_pc list"
  pc_held :: bool               \<comment> \<open>\<open>m_mutex\<close>\<close>
  pc_state :: "'f preload"

definition poll_ready :: "(int \<Rightarrow> 'f \<Rightarrow> nat) \<Rightarrow> int list \<Rightarrow> 'f preload \<Rightarrow> bool" where
  "poll_ready count fds s \<longleftrightarrow> list_ex (\<lambda>fd. 0 < count fd (l_fab (pl_lfi s))) fds"

inductive poll_step ::
    "(int \<Rightarrow> 'f \<Rightarrow> nat) \<Rightarrow> 'f posix \<Rightarrow> pollfd list \<Rightarrow> int \<Rightarrow> 'f poll_conf \<Rightarrow> 'f poll_conf \<Rightarrow> bool"
  for count px fds timeout where
  enter: "pc_app k = Calling \<Longrightarrow> \<not> pc_held k \<Longrightarrow>
    poll_step count px fds timeout k
      (k\<lparr>pc_app := Blocked (map pf_fd (snd (replace_fds (pl_socks (pc_state k)) 0 fds))), pc_held := True\<rparr>)"
| leave: "pc_app k = Blocked ws \<Longrightarrow> 0 \<le> timeout \<or> poll_ready count ws (pc_state k) \<Longrightarrow>
    poll_step count px fds timeout k (k\<lparr>pc_app := Returned, pc_held := False\<rparr>)"
| find: "i < length (pc_threads k) \<Longrightarrow> pc_threads k ! i = Announced source d \<Longrightarrow> \<not> pc_held k \<Longrightarrow>
    pl_map (pc_state k) source = Some fd \<Longrightarrow> pl_socks (pc_state k) fd = Some sk \<Longrightarrow>
    poll_step count px fds timeout k (k\<lparr>pc_threads := (pc_threads k)[i := Found fd d]\<rparr>)"
| queue: "i < length (pc_threads k) \<Longrightarrow> pc_threads k ! i = Found fd d \<Longrightarrow> push_buffer px fd d (pc_state k) = Some s \<Longrightarrow>
    poll_step count px fds timeout k (k\<lparr>pc_threads := (pc_threads k)[i := Idle], pc_state := s\<rparr>)"

inductive_cases poll_stepE: "poll_step count px fds timeout k k'"

text \<open>The application waits without a limit, and no thread has found a socket.\<close>

definition stuck_poll :: "(int \<Rightarrow> 'f \<Rightarrow> nat) \<Rightarrow> pollfd list \<Rightarrow> 'f preload \<Rightarrow> noti_pc list \<Rightarrow> 'f poll_conf \<Rightarrow> bool" where
  "stuck_poll count fds s threads k \<longleftrightarrow>
     pc_app k = Blocked (map (\<lambda>p. wait_fd (pl_socks s) (pf_fd p)) fds) \<and> pc_held k \<and> pc_state k = s \<and> pc_threads k = threads"

lemma stuck_poll_step:
  assumes "poll_step count px fds timeout k k'" and "stuck_poll count fds s threads k" and "timeout < 0"
    and "\<not> poll_ready count (map (\<lambda>p. wait_fd (pl_socks s) (pf_fd p)) fds) s"
    and "list_all (\<lambda>t. case t of Found fd d \<Rightarrow> False | _ \<Rightarrow> True) threads"
  shows "stuck_poll count fds s threads k'"
  using assms by (cases rule: poll_step.cases) (auto simp: stuck_poll_def list_all_length)



subsection \<open>Starting and stopping the threads\<close>

lemma start_threads_quiet:
  "start_threads (\<lambda>_. Some) is s =
     Some (s\<lparr>pl_threads := pl_threads s + length is, pl_shm := pl_shm s @ replicate (length is) None,
             pl_peer := pl_peer s @ replicate (length is) None\<rparr>)"
  by (induction "is" arbitrary: s) (simp_all add: start_thread_def)

lemma ensure_any_no_slot: "length (pl_shm s) \<le> tid \<Longrightarrow> ensure_any w nt True tid s = None"
  by (simp add: ensure_any_def slot_def)

text \<open>C36. The constructor and the destructor rely on the speed of the threads. When no thread runs before its
  slots are made, there are as many threads and slots as the setting says. A thread whose first round comes
  before indexes past the end of the vector; and a destructor that comes before the threads have made their
  requests calls \<open>cancel\<close> on a null pointer.\<close>

theorem thread_start_race:
  assumes "\<not> pl_running s" and "pl_shm s = []" and "pl_peer s = []" and "n = unat (LFI_ld_preload_threads (l_env (pl_lfi s)))" and "0 < n"
  shows "\<exists>t. thread_eventfd_start (\<lambda>_. Some) s = Some t \<and> pl_running t \<and> pl_threads t = pl_threads s + n \<and>
       pl_shm t = replicate n None \<and> pl_peer t = replicate n None \<and> thread_eventfd_end d w join t = None \<and>
       thread_eventfd_start (\<lambda>i s. map_option snd (notifier_round d w px i nt s)) s = None"
proof -
  have upt: "[0..<n] = 0 # [1..<n]" using assms(5) by (simp add: upt_conv_Cons)
  have "notifier_round d w px 0 nt (s\<lparr>pl_running := True\<rparr>) = None"
    using assms(2) by (simp add: notifier_round_def fetch_round_def next_notification_def ensure_any_no_slot)
  then show ?thesis
    using assms by (simp add: thread_eventfd_start_def start_threads_quiet thread_eventfd_end_def upt cancel_slot_def slot_def
        start_thread_def flip: assms(4))
qed

lemma thread_start_race_witness:
  "\<forall>(w :: desk world) nt. thread_eventfd_start (\<lambda>i s. map_option snd (notifier_round 1 w desk_posix i nt s)) desk_preload = None"
proof (intro allI)
  fix w :: "desk world" and nt
  have "\<not> pl_running desk_preload" "pl_shm desk_preload = []" "pl_peer desk_preload = []"
    "0 < unat (LFI_ld_preload_threads (l_env (pl_lfi desk_preload)))"
    by (simp_all add: desk_preload_def preload_new_def sample_simps)
  then show "thread_eventfd_start (\<lambda>i s. map_option snd (notifier_round 1 w desk_posix i nt s)) desk_preload = None"
    using thread_start_race [of desk_preload, OF _ _ _ refl, where d = 1 and w = w and px = desk_posix and nt = nt] by auto
qed

end
