(* ===== verification/Preload_Types.thy ===== *)
theory Preload_Types
  imports Preload_Safety
begin

text \<open>
  The types that the sockets of the replacement keep through every replaced function and every round of the
  threads: what waits in a buffer has not been read, only the first buffer is read in part, and an eventfd
  is a descriptor or -1. What a \<open>connect\<close> that fails leaves.
\<close>

subsection \<open>Well-formed sockets\<close>

definition buffer_typed :: "buffered \<Rightarrow> bool" where
  "buffer_typed b \<longleftrightarrow> length (bf_buffer b) < 2 ^ 64 \<and> (bf_consumed b = 0 \<or> unat (bf_consumed b) < length (bf_buffer b))"

definition socket_typed :: "lfi_socket \<Rightarrow> bool" where
  "socket_typed sk \<longleftrightarrow> (\<forall>b\<in>set (sk_buffers sk). buffer_typed b) \<and> (\<forall>b\<in>set (tl (sk_buffers sk)). bf_consumed b = 0) \<and>
     (sk_eventfd sk = -1 \<or> 0 \<le> sk_eventfd sk)"

definition sockets_typed :: "'f preload \<Rightarrow> bool" where
  "sockets_typed s \<longleftrightarrow> (\<forall>fd sk. pl_socks s fd = Some sk \<longrightarrow> socket_typed sk)"

lemma sockets_typedD: "sockets_typed s \<Longrightarrow> pl_socks s fd = Some sk \<Longrightarrow> socket_typed sk"
  by (simp add: sockets_typed_def)

lemma sockets_typed_new: "sockets_typed (preload_new l)"
  by (simp add: sockets_typed_def preload_new_def)

lemma socket_typed_new [simp]: "socket_typed lfi_socket_new"
  by (simp add: socket_typed_def lfi_socket_new_def)

lemma sockets_typed_cong: "pl_socks t = pl_socks s \<Longrightarrow> sockets_typed t = sockets_typed s"
  by (simp add: sockets_typed_def)

lemma sockets_typed_set: "sockets_typed s \<Longrightarrow> socket_typed sk \<Longrightarrow> sockets_typed (set_sock fd sk s)"
  by (auto simp: sockets_typed_def)

text \<open>
  \<open>holds Q st m\<close>: if \<open>m\<close> has the result \<open>x\<close>, the state \<open>st x\<close> in it satisfies \<open>Q\<close>. The rules follow the way in which the
  operations are composed. Most operations leave the sockets as they are: \<open>keeps\<close>.
\<close>

definition holds :: "('a \<Rightarrow> bool) \<Rightarrow> ('b \<Rightarrow> 'a) \<Rightarrow> 'b option \<Rightarrow> bool" where
  "holds Q st m \<longleftrightarrow> (\<forall>x. m = Some x \<longrightarrow> Q (st x))"

abbreviation keeps :: "('b \<Rightarrow> 'f preload) \<Rightarrow> 'f preload \<Rightarrow> 'b option \<Rightarrow> bool" where
  "keeps st s \<equiv> holds (\<lambda>t. pl_socks t = pl_socks s) st"

abbreviation st2 :: "'a \<times> 'b \<Rightarrow> 'b" where "st2 \<equiv> snd"
abbreviation st3 :: "'a \<times> 'c \<times> 'b \<Rightarrow> 'b" where "st3 \<equiv> (\<lambda>x. snd (snd x))"

lemma holdsD: "holds Q st m \<Longrightarrow> m = Some x \<Longrightarrow> Q (st x)"
  by (simp add: holds_def)

lemma holds_bind:
  assumes "holds Q st' m" and "\<And>x. Q (st' x) \<Longrightarrow> holds Q st (f x)"
  shows "holds Q st (m \<bind> f)"
  using assms by (auto simp: holds_def split: bind_splits)

lemma holds_bind2: "holds Q st2 m \<Longrightarrow> (\<And>r t. Q t \<Longrightarrow> holds Q st (f (r, t))) \<Longrightarrow> holds Q st (m \<bind> f)"
  by (rule holds_bind [of Q st2]) auto

lemma holds_bind1: "holds Q (\<lambda>x. x) m \<Longrightarrow> (\<And>t. Q t \<Longrightarrow> holds Q st (f t)) \<Longrightarrow> holds Q st (m \<bind> f)"
  by (rule holds_bind)

lemma holds_bind3: "holds Q st3 m \<Longrightarrow> (\<And>r nt t. Q t \<Longrightarrow> holds Q st (f (r, nt, t))) \<Longrightarrow> holds Q st (m \<bind> f)"
  by (rule holds_bind [of Q st3]) auto

lemma holds_bind0: "(\<And>x. m = Some x \<Longrightarrow> holds Q st (f x)) \<Longrightarrow> holds Q st (m \<bind> f)"
  by (auto simp: holds_def split: bind_splits)

lemma holds_let2: "Q (snd e) \<Longrightarrow> (\<And>r t. Q t \<Longrightarrow> holds Q st (f (r, t))) \<Longrightarrow> holds Q st (Let e f)"
  by (cases e) simp

lemma holds_let1: "Q e \<Longrightarrow> (\<And>t. Q t \<Longrightarrow> holds Q st (f t)) \<Longrightarrow> holds Q st (Let e f)"
  by simp

lemma holds_let0: "(\<And>x. holds Q st (f x)) \<Longrightarrow> holds Q st (Let e f)"
  by simp

lemma holds_if: "(c \<Longrightarrow> holds Q st a) \<Longrightarrow> (\<not> c \<Longrightarrow> holds Q st b) \<Longrightarrow> holds Q st (if c then a else b)"
  by simp

lemma holds_case: "(x = None \<Longrightarrow> holds Q st a) \<Longrightarrow> (\<And>y. x = Some y \<Longrightarrow> holds Q st (f y)) \<Longrightarrow> holds Q st (case x of None \<Rightarrow> a | Some y \<Rightarrow> f y)"
  by (cases x) simp_all

lemma holds_case_prod: "holds Q st (f (fst e) (snd e)) \<Longrightarrow> holds Q st (case e of (a, b) \<Rightarrow> f a b)"
  by (cases e) simp

lemma holds_case_prod': "holds Q st (f (fst e) (snd e) y) \<Longrightarrow> holds Q st ((case e of (a, b) \<Rightarrow> f a b) y)"
  by (cases e) simp

lemma holds_Some: "Q (st x) \<Longrightarrow> holds Q st (Some x)"
  by (simp add: holds_def)

lemma holds_None: "holds Q st None"
  by (simp add: holds_def)

lemmas holds_rules = holds_bind2 holds_bind3 holds_bind1 holds_bind0 holds_let2 holds_let1 holds_let0 holds_if holds_case
  holds_case_prod holds_case_prod' holds_Some holds_None

lemma proxy_socks [simp]: "pl_socks (snd (proxy call s)) = pl_socks s"
  by (simp add: proxy_fab)

lemma mem_write_socks [simp]: "pl_socks (mem_write px a bs s) = pl_socks s"
  by (simp add: mem_write_fab)

lemma new_array_socks [simp]: "pl_socks (snd (new_array px n s)) = pl_socks s"
  by (simp add: new_array_def proxy_fab)

lemma next_tag_socks [simp]: "pl_socks (snd (next_tag s)) = pl_socks s"
  by (simp add: next_tag_def)

lemma eventfd_write_socks [simp]: "pl_socks (snd (eventfd_write px fd v s)) = pl_socks s"
  by (simp add: eventfd_write_def)

lemma eventfd_read_socks [simp]: "pl_socks (snd (eventfd_read px fd s)) = pl_socks s"
  by (simp add: eventfd_read_def)

lemma set_slot_socks [simp]: "pl_socks (set_slot is_shm tid r s) = pl_socks s"
  by (simp add: set_slot_def)

named_theorems keeps_calls \<open>calls that leave the sockets unchanged\<close>

lemma on_lfi_keeps [keeps_calls]: "pl_socks s = pl_socks s0 \<Longrightarrow> keeps st2 s0 (on_lfi call s)"
  by (auto simp: on_lfi_def holds_def split: bind_splits)

lemma in_lfi_keeps [keeps_calls]: "pl_socks s = pl_socks s0 \<Longrightarrow> keeps (\<lambda>x. x) s0 (in_lfi call s)"
  by (auto simp: in_lfi_def holds_def split: bind_splits)

lemma on_fab_keeps [keeps_calls]: "pl_socks s = pl_socks s0 \<Longrightarrow> keeps st2 s0 (on_fab call s)"
  by (auto simp: on_fab_def holds_def split: bind_splits)

lemma drop_requests_keeps [keeps_calls]: "pl_socks s = pl_socks s0 \<Longrightarrow> keeps (\<lambda>x. x) s0 (drop_requests d w rs s)"
  unfolding drop_requests_def by (rule in_lfi_keeps)

lemma announce_keeps [keeps_calls]: "pl_socks s = pl_socks s0 \<Longrightarrow> keeps st2 s0 (announce c vs s)"
proof (induction vs arbitrary: s)
  case (Cons v vs)
  then show ?case unfolding announce.simps by - (rule holds_rules keeps_calls Cons.IH | simp)+
qed (simp add: holds_def)

lemma new_requests_keeps [keeps_calls]: "pl_socks s = pl_socks s0 \<Longrightarrow> keeps st2 s0 (new_requests c n s)"
proof (induction n arbitrary: s)
  case (Suc n)
  then show ?case unfolding new_requests.simps by - (rule keeps_calls Suc.IH holds_rules | simp)+
qed (simp add: holds_def)

lemma any_recv_keeps [keeps_calls]: "pl_socks s = pl_socks s0 \<Longrightarrow> keeps st2 s0 (any_recv w nt is_shm r s)"
  unfolding any_recv_def by (rule keeps_calls holds_rules | simp)+

lemma ensure_any_keeps [keeps_calls]: "pl_socks s = pl_socks s0 \<Longrightarrow> keeps st2 s0 (ensure_any w nt is_shm tid s)"
  unfolding ensure_any_def by (rule keeps_calls holds_rules | simp)+

lemma take_notification_keeps [keeps_calls]:
  "pl_socks s = pl_socks s0 \<Longrightarrow> keeps st3 s0 (take_notification w nt is_shm r s)"
  unfolding take_notification_def by (rule keeps_calls holds_rules | simp)+

lemma next_notification_keeps [keeps_calls]:
  "pl_socks s = pl_socks s0 \<Longrightarrow> keeps st3 s0 (next_notification d w tid nt s)"
  unfolding next_notification_def by (rule keeps_calls holds_rules | simp)+

lemma find_target_keeps [keeps_calls]: "pl_socks s = pl_socks s0 \<Longrightarrow> keeps st2 s0 (find_target w source s)"
  unfolding find_target_def by (rule keeps_calls holds_rules | simp)+

lemma fetch_messages_keeps [keeps_calls]:
  "pl_socks s = pl_socks s0 \<Longrightarrow> keeps st3 s0 (fetch_messages d w px c n nt s)"
  unfolding fetch_messages_def by (rule keeps_calls holds_rules | simp)+

lemma fetch_round_keeps [keeps_calls]:
  "pl_socks s = pl_socks s0 \<Longrightarrow> keeps st3 s0 (fetch_round d w px tid nt s)"
  unfolding fetch_round_def by (rule keeps_calls holds_rules | simp)+

lemma internal_sendmsg_keeps [keeps_calls]: "pl_socks s = pl_socks s0 \<Longrightarrow> keeps st2 s0 (internal_sendmsg d w px fd iov s)"
  unfolding internal_sendmsg_def by (rule keeps_calls holds_rules | simp)+

text \<open>What is fetched fits in 64 bits, because the size of the new buffer does.\<close>

lemma fetch_messages_size:
  assumes "flat_memory (px_mem px) cell"
  shows "holds (\<lambda>(data, _). \<forall>bs. data = Some bs \<longrightarrow> length bs < 2 ^ 64) (\<lambda>x. x) (fetch_messages d w px c n nt s)"
proof -
  have "length (mem_read px a m t) < 2 ^ LENGTH(64)" for a m and t :: "'a preload"
    unfolding mem_read_def flat_length [OF assms] by (rule unsigned_less)
  then have size: "length (mem_read px a m t) < 2 ^ 64" for a m and t :: "'a preload" by simp
  show ?thesis unfolding fetch_messages_def by (rule holds_rules | simp add: size del: power_numeral)+
qed

lemma fetch_round_size:
  assumes "flat_memory (px_mem px) cell"
  shows "holds (\<lambda>(data, _). \<forall>fd bs. data = Some (fd, bs) \<longrightarrow> length bs < 2 ^ 64) (\<lambda>x. x) (fetch_round d w px tid nt s)"
proof -
  have "case x of (data, _) \<Rightarrow> \<forall>bs. data = Some bs \<longrightarrow> length bs < 2 ^ 64" if "fetch_messages d w px c n nt s = Some x" for c n nt s x
    using fetch_messages_size [OF assms, of d w c n nt s] that by (simp add: holds_def)
  then show ?thesis unfolding fetch_round_def
    by (intro holds_bind0 holds_case_prod holds_case holds_Some) (fastforce split: prod.splits)+
qed

subsection \<open>Operations that change the sockets\<close>

lemma push_buffer_typed:
  assumes "sockets_typed s" and "length d < 2 ^ 64" and "push_buffer px fd d s = Some t"
  shows "sockets_typed t"
proof -
  obtain sk where sk: "pl_socks s fd = Some sk" using assms(3) by (auto simp: push_buffer_def split: bind_splits)
  let ?sk = "sk\<lparr>sk_buffers := sk_buffers sk @ [\<lparr>bf_buffer = d, bf_consumed = 0\<rparr>]\<rparr>"
  have "socket_typed ?sk"
    using sockets_typedD [OF assms(1) sk] assms(2) by (cases "sk_buffers sk") (auto simp: socket_typed_def buffer_typed_def)
  then have "sockets_typed (set_sock fd ?sk s)" using assms(1) by (rule sockets_typed_set [rotated])
  moreover have "pl_socks t = pl_socks (set_sock fd ?sk s)" using assms(3) sk by (auto simp: push_buffer_def)
  ultimately show ?thesis using sockets_typed_cong by blast
qed

lemma fill_iov_typed:
  "fill_iov px iov b ret s = ((b', ret'), t) \<Longrightarrow> length (bf_buffer b) < 2 ^ 64 \<Longrightarrow> unat (bf_consumed b) \<le> length (bf_buffer b) \<Longrightarrow>
     pl_socks t = pl_socks s \<and> bf_buffer b' = bf_buffer b \<and> unat (bf_consumed b') \<le> length (bf_buffer b)"
proof (induction px iov b ret s rule: fill_iov.induct)
  case (2 px v vs b ret s)
  let ?size = "word_of_nat (length (bf_buffer b)) :: u64"
  have size: "unat ?size = length (bf_buffer b)" using "2.prems"(2) by (rule small_of_nat)
  show ?case
  proof (cases "?size = bf_consumed b")
    case False
    let ?n = "min (iov_len v) (?size - bf_consumed b)"
    have "unat ?n \<le> unat (?size - bf_consumed b)" by (simp add: min_def word_le_nat_alt)
    also have "\<dots> = length (bf_buffer b) - unat (bf_consumed b)"
      using "2.prems"(3) size by (simp add: unat_sub word_le_nat_alt)
    finally have n: "unat (bf_consumed b) + unat ?n \<le> length (bf_buffer b)" using "2.prems"(3) by simp
    then have "unat (bf_consumed b + ?n) = unat (bf_consumed b) + unat ?n" using "2.prems"(2) by (intro unat_add_exact) simp
    then show ?thesis using "2.IH" [OF refl False refl refl] "2.prems" False n by (simp add: Let_def)
  qed (use "2.prems" in simp)
qed simp

lemma internal_recvmsg_typed:
  assumes typed: "sockets_typed s" and run: "internal_recvmsg w px fd iov s = Some (r, t)"
  shows "sockets_typed t"
proof -
  obtain sk0 where sk0: "pl_socks s fd = Some sk0" using run by (auto simp: internal_recvmsg_def split: bind_splits)
  show ?thesis
  proof (cases "sk_lfi_id sk0 = -1")
    case True
    then show ?thesis using run sk0 typed by (simp add: internal_recvmsg_def)
  next
    case False
    obtain comm s1 where get: "on_lfi (get_comm w (u32_of (sk_lfi_id sk0))) s = Some (comm, s1)"
      using run sk0 False by (auto simp: internal_recvmsg_def split: bind_splits)
    have s1: "pl_socks s1 = pl_socks s" using holdsD [OF on_lfi_keeps [OF refl], OF get] by simp
    then have typed1: "sockets_typed s1" using typed sockets_typed_cong by blast
    have sk: "pl_socks s1 fd = Some sk0" using s1 sk0 by simp
    show ?thesis
    proof (cases "comm = None \<or> sk_buffers sk0 = []")
      case True
      then have "pl_socks t = pl_socks s1"
        using run sk0 False get sk by (cases "comm = None") (auto simp: internal_recvmsg_def)
      then show ?thesis using typed1 sockets_typed_cong by blast
    next
      case more: False
      obtain b bs where bs: "sk_buffers sk0 = b # bs" using more by (cases "sk_buffers sk0") auto
      obtain b' ret s2 where fill: "fill_iov px iov b 0 s1 = ((b', ret), s2)" by (metis prod.exhaust)
      have ok: "socket_typed sk0" using typed1 sk by (rule sockets_typedD)
      then have b: "length (bf_buffer b) < 2 ^ 64" "unat (bf_consumed b) \<le> length (bf_buffer b)" and later: "\<forall>x\<in>set bs. buffer_typed x \<and> bf_consumed x = 0"
        by (auto simp: socket_typed_def buffer_typed_def bs)
      have filled: "pl_socks s2 = pl_socks s1" "bf_buffer b' = bf_buffer b" "unat (bf_consumed b') \<le> length (bf_buffer b)"
        using fill_iov_typed [OF fill b] by simp_all
      have typed2: "sockets_typed s2" using typed1 filled(1) sockets_typed_cong by blast
      have rest: "socket_typed (sk0\<lparr>sk_buffers := bs\<rparr>)"
        using ok later by (cases bs) (auto simp: socket_typed_def)
      show ?thesis
      proof (cases "word_of_nat (length (bf_buffer b')) = bf_consumed b'")
        case True
        then have "pl_socks t = pl_socks (set_sock fd (sk0\<lparr>sk_buffers := bs\<rparr>) s2)"
          using run sk0 False get more sk bs fill by (auto simp: internal_recvmsg_def)
        then show ?thesis using sockets_typed_set [OF typed2 rest, of fd] sockets_typed_cong by blast
      next
        case part: False
        have "unat (bf_consumed b') \<noteq> length (bf_buffer b')"
        proof
          assume "unat (bf_consumed b') = length (bf_buffer b')"
          then have "word_of_nat (length (bf_buffer b')) = bf_consumed b'"
            using small_of_nat b(1) filled(2) by (simp add: word_unat_eq_iff)
          then show False using part by simp
        qed
        then have "buffer_typed b'" using filled b by (simp add: buffer_typed_def)
        then have "socket_typed (sk0\<lparr>sk_buffers := b' # bs\<rparr>)" using ok later by (simp add: socket_typed_def)
        moreover have "t = set_sock fd (sk0\<lparr>sk_buffers := b' # bs\<rparr>) s2"
          using run sk0 False get more sk bs fill part by (auto simp: internal_recvmsg_def)
        ultimately show ?thesis using sockets_typed_set [OF typed2] by blast
      qed
    qed
  qed
qed

lemma notifier_round_typed:
  assumes "flat_memory (px_mem px) cell" and "sockets_typed s" and "notifier_round d w px tid nt s = Some (nt', t)"
  shows "sockets_typed t"
proof -
  obtain x nt1 s1 where f: "fetch_round d w px tid nt s = Some (x, nt1, s1)"
    using assms(3) by (auto simp: notifier_round_def split: bind_splits)
  have "pl_socks s1 = pl_socks s" using holdsD [OF fetch_round_keeps [OF refl] f] by simp
  then have typed: "sockets_typed s1" using assms(2) sockets_typed_cong by blast
  have "\<forall>fd bs. x = Some (fd, bs) \<longrightarrow> length bs < 2 ^ 64"
    using fetch_round_size [OF assms(1), of d w tid nt s] f by (simp add: holds_def)
  then show ?thesis
    using assms(3) f typed push_buffer_typed [OF typed]
    by (auto simp: notifier_round_def split: option.splits bind_splits)
qed

lemma set_lfi_id_typed: "sockets_typed s \<Longrightarrow> set_lfi_id fd c s = Some t \<Longrightarrow> sockets_typed t"
  by (auto simp: set_lfi_id_def socket_typed_def dest: sockets_typedD intro!: sockets_typed_set split: bind_splits)

lemma create_eventfd_typed: "sockets_typed s \<Longrightarrow> create_eventfd px fd s = Some (r, t) \<Longrightarrow> sockets_typed t"
  by (fastforce simp: create_eventfd_def socket_typed_def proxy_fab sockets_typed_def split: bind_splits if_splits prod.splits)

lemma destroy_eventfd_typed: "sockets_typed s \<Longrightarrow> destroy_eventfd px fd s = Some (r, t) \<Longrightarrow> sockets_typed t"
  by (fastforce simp: destroy_eventfd_def socket_typed_def proxy_fab sockets_typed_def split: bind_splits if_splits prod.splits)

lemma emplace_typed:
  "sockets_typed s \<Longrightarrow> pl_socks t = map_emplace fd lfi_socket_new (pl_socks s) \<Longrightarrow> sockets_typed t"
  by (auto simp: sockets_typed_def map_emplace_def split: option.splits if_splits)

subsection \<open>The replaced functions\<close>

lemma keeps_typed: "keeps st s m \<Longrightarrow> sockets_typed s \<Longrightarrow> holds sockets_typed st m"
  using sockets_typed_cong by (force simp: holds_def)

lemmas typed_keeps = keeps_calls [OF refl, THEN keeps_typed]

lemma typed_set_lfi_id: "sockets_typed s \<Longrightarrow> holds sockets_typed (\<lambda>x. x) (set_lfi_id fd c s)"
  by (auto simp: holds_def intro: set_lfi_id_typed)

lemma typed_create_eventfd: "sockets_typed s \<Longrightarrow> holds sockets_typed st2 (create_eventfd px fd s)"
  by (auto simp: holds_def intro: create_eventfd_typed)

lemma typed_destroy_eventfd: "sockets_typed s \<Longrightarrow> holds sockets_typed st2 (destroy_eventfd px fd s)"
  by (auto simp: holds_def intro: destroy_eventfd_typed)

lemma typed_recvmsg: "sockets_typed s \<Longrightarrow> holds sockets_typed st2 (internal_recvmsg w px fd iov s)"
  by (auto simp: holds_def intro: internal_recvmsg_typed)

lemma typed_proxy: "sockets_typed s \<Longrightarrow> sockets_typed (snd (proxy call s))"
  using sockets_typed_cong [OF proxy_socks] by blast

text \<open>Updates of the other members.\<close>

lemma typed_other [simp]:
  "sockets_typed (s\<lparr>pl_map := m\<rparr>) = sockets_typed s" "sockets_typed (s\<lparr>pl_lfi := l\<rparr>) = sockets_typed s"
  by (simp_all add: sockets_typed_def)

lemma typed_emplace [simp]: "sockets_typed s \<Longrightarrow> sockets_typed (s\<lparr>pl_socks := map_emplace fd lfi_socket_new (pl_socks s)\<rparr>)"
  by (rule emplace_typed) simp_all

lemma typed_erase [simp]: "sockets_typed s \<Longrightarrow> sockets_typed (s\<lparr>pl_socks := (pl_socks s)(fd := None)\<rparr>)"
  by (simp add: sockets_typed_def)

lemmas typed_rules = typed_keeps typed_set_lfi_id typed_create_eventfd typed_destroy_eventfd typed_recvmsg typed_proxy holds_rules

lemma unless_libfabric_typed [intro]:
  "sockets_typed s \<Longrightarrow> holds sockets_typed st2 (body s) \<Longrightarrow> holds sockets_typed st2 (unless_libfabric px call body s)"
  unfolding unless_libfabric_def by (rule typed_rules | assumption | simp)+

lemma on_socket_typed [intro]:
  "sockets_typed s \<Longrightarrow> holds sockets_typed st2 (body s) \<Longrightarrow> holds sockets_typed st2 (on_socket px fd call body s)"
  unfolding on_socket_def by (rule unless_libfabric_typed typed_rules | assumption | simp)+

lemma pre_socket_typed: "sockets_typed s \<Longrightarrow> holds sockets_typed st2 (pre_socket px a b c s)"
  unfolding pre_socket_def by (rule unless_libfabric_typed typed_rules | assumption | simp)+

lemma connect_lfi_typed: "sockets_typed s \<Longrightarrow> holds sockets_typed st2 (connect_lfi d os w px fd ret err addr s)"
  unfolding connect_lfi_def by (rule typed_rules | assumption | simp)+

lemma pre_connect_typed: "sockets_typed s \<Longrightarrow> holds sockets_typed st2 (pre_connect d os w px fd addr len s)"
  unfolding pre_connect_def by (rule connect_lfi_typed unless_libfabric_typed typed_rules | assumption | simp)+

lemma accept_lfi_typed: "sockets_typed s \<Longrightarrow> holds sockets_typed st2 (accept_lfi d os w px ret srv s)"
  unfolding accept_lfi_def by (rule typed_rules | assumption | simp)+

lemma pre_accept4_typed: "sockets_typed s \<Longrightarrow> holds sockets_typed st2 (pre_accept4 d os w px fd addr len flags s)"
  unfolding pre_accept4_def by (rule accept_lfi_typed unless_libfabric_typed typed_rules | assumption | simp)+

lemma pre_accept_typed: "sockets_typed s \<Longrightarrow> holds sockets_typed st2 (pre_accept d os w px fd addr len s)"
  unfolding pre_accept_def by (rule holds_bind0 pre_accept4_typed | assumption)+

lemma pre_close_typed: "sockets_typed s \<Longrightarrow> holds sockets_typed st2 (pre_close d w px fd s)"
  unfolding pre_close_def by (rule unless_libfabric_typed typed_rules | assumption | simp)+

subsection \<open>Histories\<close>

text \<open>A step is a replaced function, a round of a thread, or what the library, its callbacks and the operating
  system do to the rest of the state.\<close>

inductive pre_step :: "nat \<Rightarrow> 'f os \<Rightarrow> 'f world \<Rightarrow> 'f posix \<Rightarrow> 'f preload \<Rightarrow> 'f preload \<Rightarrow> bool" for d os w px where
  step_socket: "pre_socket px dm ty pr s = Some (r, t) \<Longrightarrow> pre_step d os w px s t"
| step_connect: "pre_connect d os w px fd addr len s = Some (r, t) \<Longrightarrow> pre_step d os w px s t"
| step_accept: "pre_accept d os w px fd a l s = Some (r, t) \<Longrightarrow> pre_step d os w px s t"
| step_accept4: "pre_accept4 d os w px fd a l flags s = Some (r, t) \<Longrightarrow> pre_step d os w px s t"
| step_close: "pre_close d w px fd s = Some (r, t) \<Longrightarrow> pre_step d os w px s t"
| step_write: "pre_write d w px fd buf n s = Some (r, t) \<Longrightarrow> pre_step d os w px s t"
| step_writev: "pre_writev d w px fd iov s = Some (r, t) \<Longrightarrow> pre_step d os w px s t"
| step_read: "pre_read w px fd buf n s = Some (r, t) \<Longrightarrow> pre_step d os w px s t"
| step_readv: "pre_readv w px fd iov s = Some (r, t) \<Longrightarrow> pre_step d os w px s t"
| step_recv: "pre_recv w px fd buf n flags s = Some (r, t) \<Longrightarrow> pre_step d os w px s t"
| step_recvmsg: "pre_recvmsg w px fd msg flags s = Some (r, t) \<Longrightarrow> pre_step d os w px s t"
| step_send: "pre_send d w px fd buf n flags s = Some (r, t) \<Longrightarrow> pre_step d os w px s t"
| step_sendmsg: "pre_sendmsg d w px fd msg flags s = Some (r, t) \<Longrightarrow> pre_step d os w px s t"
| step_epoll_ctl: "pre_epoll_ctl px epfd op fd event s = Some (r, t) \<Longrightarrow> pre_step d os w px s t"
| step_poll: "pre_poll px fds timeout s = Some (rp, t) \<Longrightarrow> pre_step d os w px s t"
| step_round: "notifier_round d w px tid nt s = Some (nt', t) \<Longrightarrow> pre_step d os w px s t"
| step_other: "pl_socks t = pl_socks s \<Longrightarrow> pre_step d os w px s t"

lemma sendmsg_calls_typed:
  assumes "sockets_typed s"
  shows "holds sockets_typed st2 (pre_write d w px fd buf n s)" "holds sockets_typed st2 (pre_writev d w px fd iov s)"
    "holds sockets_typed st2 (pre_send d w px fd buf n flags s)" "holds sockets_typed st2 (pre_sendmsg d w px fd msg flags s)"
  using assms unfolding pre_write_def pre_writev_def pre_send_def pre_sendmsg_def by (intro on_socket_typed typed_keeps; assumption)+

lemma recvmsg_calls_typed:
  assumes "sockets_typed s"
  shows "holds sockets_typed st2 (pre_read w px fd buf n s)" "holds sockets_typed st2 (pre_readv w px fd iov s)"
    "holds sockets_typed st2 (pre_recv w px fd buf n flags s)" "holds sockets_typed st2 (pre_recvmsg w px fd msg flags s)"
  using assms unfolding pre_read_def pre_readv_def pre_recv_def pre_recvmsg_def by (intro on_socket_typed typed_recvmsg; assumption)+

lemma pre_epoll_ctl_typed: "sockets_typed s \<Longrightarrow> holds sockets_typed st2 (pre_epoll_ctl px epfd op fd event s)"
  unfolding pre_epoll_ctl_def by (rule unless_libfabric_typed typed_rules | assumption | simp)+

lemma pre_poll_typed: "sockets_typed s \<Longrightarrow> holds sockets_typed st2 (pre_poll px fds timeout s)"
  unfolding pre_poll_def by (rule unless_libfabric_typed typed_rules | assumption | simp)+

lemmas calls_typed = pre_socket_typed pre_connect_typed pre_accept_typed pre_accept4_typed pre_close_typed
  sendmsg_calls_typed recvmsg_calls_typed pre_epoll_ctl_typed pre_poll_typed

lemma holds_result: "m = Some (r, t) \<Longrightarrow> holds Q st2 m \<Longrightarrow> Q t"
  by (simp add: holds_def)

lemma pre_step_typed:
  assumes "flat_memory (px_mem px) cell" and "pre_step d os w px s t" and "sockets_typed s"
  shows "sockets_typed t"
  using assms(2, 3)
proof (cases rule: pre_step.cases)
  case (step_round tid nt nt')
  then show ?thesis using notifier_round_typed [OF assms(1, 3)] by blast
next
  case step_other
  then show ?thesis using sockets_typed_cong assms(3) by blast
qed (erule holds_result, rule calls_typed [OF assms(3)])+

text \<open>C21. Whatever calls an application makes, and whatever the threads do between them, every socket stays well
  formed: each waiting buffer has bytes that have not been read, or is an empty message; only the first can
  have been read in part; no read position is past the end; and the eventfd is a descriptor or -1.\<close>

theorem sockets_stay_typed:
  assumes "flat_memory (px_mem px) cell" and "(pre_step d os w px)\<^sup>*\<^sup>* (preload_new l) s" and "pl_socks s fd = Some sk"
  shows "socket_typed sk"
proof -
  have "sockets_typed s" using assms(2)
    by (induction rule: rtranclp_induct) (auto intro: sockets_typed_new pre_step_typed [OF assms(1)])
  then show ?thesis using assms(3) by (rule sockets_typedD)
qed

lemma sockets_stay_typed_witness:
  "\<forall>os w. \<exists>s sk. (pre_step 1 os w desk_posix)\<^sup>*\<^sup>* (preload_new (lfi_new env_default desk0)) s \<and>
     pl_socks s 5 = Some sk \<and> socket_typed sk"
proof (intro allI)
  fix os :: "desk os" and w :: "desk world"
  let ?s = "preload_new (lfi_new env_default desk0) :: desk preload"
  obtain t where "pre_socket desk_posix 2 SOCK_STREAM 0 ?s = Some (5, t)" and t: "pl_socks t 5 = Some lfi_socket_new"
    by (simp add: pre_socket_def unless_libfabric_def is_caller_libfabric_def desk_posix_def preload_new_def lfi_new_def desk0_def
        proxy_fab map_emplace_def with_fab_def)
  then have run: "(pre_step 1 os w desk_posix)\<^sup>*\<^sup>* ?s t" by (blast intro: pre_step.intros)
  have "socket_typed lfi_socket_new" by (rule sockets_stay_typed [OF desk_laws(1) run t])
  with run t show "\<exists>s sk. (pre_step 1 os w desk_posix)\<^sup>*\<^sup>* ?s s \<and> pl_socks s 5 = Some sk \<and> socket_typed sk" by blast
qed

subsection \<open>A connection that fails\<close>

lemma u32_of_i32 [simp]: "u32_of (i32 (uint c)) = c"
proof -
  have "(word_of_int (signed_take_bit 31 (uint c)) :: u32) = word_of_int (uint c)"
    by (simp only: word_of_int_eq_iff) (simp add: take_bit_signed_take_bit)
  then show ?thesis by (simp add: u32_of_def i32_def)
qed

lemma on_fab_lfi: "on_fab call s = Some (r, t) \<Longrightarrow> \<exists>f. t = with_fab s f"
  by (auto simp: on_fab_def with_fab_def split: bind_splits)

text \<open>The system's \<open>connect\<close> succeeds and the connection of the library fails: \<open>connect\<close> returns the library's error
  code, but the socket keeps the identifier that was reserved. Nobody will make that communicator ready, and
  from then on every call that uses the socket waits for it for ever: reading, writing, and also closing it.\<close>

theorem failed_connect_hangs:
  assumes run: "connect_lfi d os w px fd ret err addr s = Some (r, t)" and "r < 0" and "0 \<le> ret"
  defines "c \<equiv> l_rank_counter (pl_lfi s)"
  assumes "map_of (l_comms (pl_lfi t)) c = Some entry" and "case entry of None \<Rightarrow> True | Some m \<Rightarrow> cm_is_ready m = NOT_READY"
    and "c \<notin> set (l_futs (pl_lfi t))" and "cv_sound w" and "nobody_connects w c" and "i32 (uint c) \<noteq> -1"
    and "is_caller_libfabric px t = Some False"
  shows "(\<exists>sk. pl_socks t fd = Some sk \<and> sk_lfi_id sk = i32 (uint c)) \<and>
     pre_close d w px fd t = None \<and> pre_read w px fd buf n t = None \<and> pre_write d w px fd buf n t = None"
proof -
  have look: "get_comm w c (pl_lfi (with_fab t f)) = None" for f
    unfolding get_comm_def by (rule lookup_hangs [OF assms(8, 9)]) (use assms(5-7) in \<open>auto simp: with_fab_def\<close>)
  have "\<exists>sk. pl_socks t fd = Some sk \<and> sk_lfi_id sk = i32 (uint c)"
  proof -
    obtain client s1 where s1: "on_fab (client_init os addr (LFI_port (l_env (pl_lfi s))) 1 False) s = Some (client, s1)"
      using run by (auto simp: connect_lfi_def split: bind_splits)
    then have id: "fst (reserve_comm (pl_lfi s1)) = c" using on_fab_lfi [OF s1] by (auto simp: c_def reserve_comm_def with_fab_def Let_def)
    obtain s2 where s2: "on_lfi (\<lambda>l. Some (reserve_comm l)) s1 = Some (c, s2)"
      using id by (cases "reserve_comm (pl_lfi s1)") (auto simp: on_lfi_def)
    obtain ri s3 where s3: "on_lfi (init_client d os w client c) s2 = Some (ri, s3)"
      using run s1 s2 by (auto simp: connect_lfi_def split: bind_splits)
    obtain s5 where s5: "set_lfi_id fd (i32 (uint c)) (snd (proxy (sock_close os client) s3)) = Some s5"
      using run s1 s2 s3 by (auto simp: connect_lfi_def split: bind_splits prod.splits)
    have "ri < 0 \<and> t = s5"
    proof (cases "ri < 0")
      case True
      then show ?thesis using run s1 s2 s3 s5 by (auto simp: connect_lfi_def split: prod.splits)
    next
      case False
      then have "r = ret" using run s1 s2 s3 s5 by (auto simp: connect_lfi_def split: prod.splits bind_splits)
      then show ?thesis using assms(2, 3) by simp
    qed
    then show ?thesis using s5 by (auto simp: set_lfi_id_def split: bind_splits)
  qed
  then obtain sk where sk: "pl_socks t fd = Some sk" "sk_lfi_id sk = i32 (uint c)" by blast
  have look0: "get_comm w c (pl_lfi t) = None" using look [of "l_fab (pl_lfi t)"] by simp
  have "pre_close d w px fd t = None"
    using assms(10, 11) sk look [unfolded get_comm_def]
    by (simp add: pre_close_def unless_libfabric_def proxy_fab on_lfi_def close_comm_def get_comm_and_mutex_def)
  moreover have "pre_read w px fd buf n t = None"
    using assms(10, 11) sk look0 by (simp add: pre_read_def on_socket_def unless_libfabric_def internal_recvmsg_def on_lfi_def)
  moreover have "pre_write d w px fd buf n t = None"
    using assms(10, 11) sk look0 by (simp add: pre_write_def on_socket_def unless_libfabric_def internal_sendmsg_def on_lfi_def)
  ultimately show ?thesis using sk by blast
qed

text \<open>A system in which no socket can be opened, and a library whose other threads do nothing.\<close>

definition desk_os :: "desk os" where
  "desk_os =
    \<lparr>os_socket = (\<lambda>f. (-1, f)), os_setsockopt = (\<lambda>_ _ _ f. (0, f)), os_close = (\<lambda>_ f. (0, f)),
     os_inet_pton = (\<lambda>_. None), os_inet_ntop = (\<lambda>_. ''10.0.0.1''), os_bind = (\<lambda>_ _ f. (-1, f)), os_listen = (\<lambda>_ _ f. (-1, f)),
     os_getsockname = (\<lambda>_ f. (None, f)), os_connect = (\<lambda>_ _ f. (-1, f)),
     os_getaddrinfo = (\<lambda>_ _ f. ((0, [\<lparr>sa_addr = 1, sa_port = 2\<rparr>]), f)), os_freeaddrinfo = (\<lambda>_ f. f),
     os_gethostname = (\<lambda>_. Some ''node''), os_poll = (\<lambda>_ _ f. ((0, False), f)), os_accept = (\<lambda>_ f. (-1, f)),
     os_errno = (\<lambda>_. 0), os_send = (\<lambda>_ _ f. (-1, f)), os_recv = (\<lambda>_ _ f. ((-1, []), f)),
     os_clock = (\<lambda>f. (0, f)), os_sleep = (\<lambda>_ f. f), os_heartbeat_addr = 4096, os_buf_addr = 8192\<rparr>"

definition desk_world :: "desk world" where
  "desk_world =
    \<lparr>w_tsend = (\<lambda>_ _ _ _ _ _ f. (0, f)), w_tsendv = (\<lambda>_ _ _ _ _ _ f. (0, f)), w_trecv = (\<lambda>_ _ _ _ _ _ _ f. (0, f)),
     w_trecvv = (\<lambda>_ _ _ _ _ _ _ f. (0, f)), w_tinject = (\<lambda>_ _ _ _ _ f. (0, f)), w_write = (\<lambda>_ _ _ _ _ _ _ f. (0, f)),
     w_read = (\<lambda>_ _ _ _ _ _ _ f. (0, f)), w_cq_read = (\<lambda>_ _ f. ((- FI_EAGAIN, []), f)),
     w_cq_readerr = (\<lambda>_ f. (hd [], f)), w_cancel = (\<lambda>_ _ f. f), w_mr_reg = (\<lambda>_ _ _ f. ((0, 1), f)), w_mr_key = (\<lambda>_ _. 1),
     w_close = (\<lambda>_ f. (0, f)), w_getname = (\<lambda>_ _ f. ((0, 2, [1, 2]), f)), w_av_insert = (\<lambda>_ _ f. ((1, 7), f)),
     w_av_remove = (\<lambda>_ _ f. (0, f)), w_heartbeat = (\<lambda>_ _. 0), w_set_heartbeat = (\<lambda>_ _ f. f), w_now = (\<lambda>f. (0, f)),
     w_future = (\<lambda>_. Some), w_others = (\<lambda>p limit s. if p s \<or> limit \<noteq> None then Some s else None), w_callback = (\<lambda>_ _ _. Some)\<rparr>"

lemma desk_os_simps [simp]:
  "os_socket desk_os f = (-1, f)" "os_close desk_os fd f = (0, f)" "os_recv desk_os fd n f = ((-1, []), f)"
  "os_getaddrinfo desk_os name service f = ((0, [\<lparr>sa_addr = 1, sa_port = 2\<rparr>]), f)" "os_freeaddrinfo desk_os as f = f"
  "os_inet_ntop desk_os a = ''10.0.0.1''" "os_gethostname desk_os f = Some ''node''"
  by (simp_all add: desk_os_def)

lemma desk_init_client: "init_client d desk_os w fd c s = Some (-1, s)"
proof -
  have small: "i32 (-1) = -1" "i32 8 = 8" by (simp_all add: i32_def)
  have "sock_recv desk_os fd (replicate 8 0) f = Some ((-1, replicate 8 0), f)" for f
    using recv_loop.simps [of desk_os fd "[]" "replicate 8 0" 8 f] by (simp add: sock_recv_def small call_len_def)
  then show ?thesis
    by (simp add: init_client_def client_exchange_def client_ids_def get_host_id_def get_host_ip_def get_host_name_def
        krecv_block_def krecv_def small)
qed

lemma failed_connect_hangs_witness:
  "\<exists>t. connect_lfi 1 desk_os desk_world desk_posix 5 0 0 ''10.0.0.1'' desk_preload = Some (-1, t) \<and>
     pre_close 1 desk_world desk_posix 5 t = None"
proof -
  let ?run = "connect_lfi 1 desk_os desk_world desk_posix 5 0 0 ''10.0.0.1'' desk_preload"
  have "client_init desk_os ''10.0.0.1'' p 1 False f = Some (-1, f)" for p f
    by (simp add: client_init_def client_by_name_def sock_open_def)
  then obtain t where run: "?run = Some (-1, t)"
    and t: "pl_lfi t = (pl_lfi desk_preload)\<lparr>l_rank_counter := 1, l_comms := emplace 0 None (l_comms (pl_lfi desk_preload))\<rparr>"
    by (simp add: connect_lfi_def on_fab_def on_lfi_def desk_init_client proxy_fab with_fab_def sock_close_def set_lfi_id_def
        set_sock_def desk_preload_def preload_new_def lfi_new_def set_comm_def reserve_comm_def i32_def)
  have start: "l_rank_counter (pl_lfi desk_preload) = 0" "l_futs (pl_lfi desk_preload) = []"
    "map_of (l_comms (pl_lfi desk_preload)) 0 = None"
    by (simp_all add: desk_preload_def preload_new_def lfi_new_def set_comm_def)
  have entry: "map_of (l_comms (pl_lfi t)) (l_rank_counter (pl_lfi desk_preload)) = Some None"
    using start by (simp add: t map_of_emplace)
  have world: "cv_sound desk_world" "nobody_connects desk_world (l_rank_counter (pl_lfi desk_preload))"
    by (auto simp: cv_sound_def nobody_connects_def desk_world_def split: if_splits)
  have app: "is_caller_libfabric desk_posix t = Some False"
    by (simp add: is_caller_libfabric_def desk_posix_def t desk_preload_def preload_new_def lfi_new_def set_comm_def desk0_def)
  have "pre_close 1 desk_world desk_posix 5 t = None"
    using failed_connect_hangs [OF run _ _ entry _ _ world _ app] start by (simp add: t i32_def)
  with run show ?thesis by blast
qed

end
