(* ===== verification/Debug_Text.thy ===== *)
theory Debug_Text
  imports Env_Config
begin

text \<open>
  The texts that the log and the statistics are made of: \<open>include/impl/debug.hpp\<close> (\<open>file_name\<close>,
  \<open>file_exe_name\<close>, the time of day, the lines of the macros) and the entries of a completion queue as
  \<open>lfi_endpoint.cpp\<close> prints them. The broken-down local time, which depends on the time zone of the process, is a parameter
  \<open>local_tm\<close> from seconds to hour, minute and second; a point in time is a count of nanoseconds
  since the epoch, not negative. The
  macros \<open>debug_error\<close>, \<open>debug_warning\<close> and \<open>debug_info\<close> are those of a build with \<open>DEBUG\<close>.
\<close>

definition newline :: string where
  "newline = [CHR 0x0A]"

text \<open>\<open>std::hex\<close>\<close>

definition hex_digit :: "nat \<Rightarrow> char" where
  "hex_digit d = ''0123456789abcdef'' ! d"

fun hex_of_nat :: "nat \<Rightarrow> string" where
  "hex_of_nat n = (if n < 16 then [hex_digit n] else hex_of_nat (n div 16) @ [hex_digit (n mod 16)])"

declare hex_of_nat.simps [simp del]

text \<open>The loop of \<open>file_name\<close>: \<open>file\<close> is what the result would be so far, the rest is still to be read.\<close>

fun file_name_loop :: "string \<Rightarrow> string \<Rightarrow> string" where
  "file_name_loop file [] = file"
| "file_name_loop file (c # path) = file_name_loop (if c = CHR ''/'' then path else file) path"

definition file_name :: "string \<Rightarrow> string" where
  "file_name path = file_name_loop path path"

text \<open>The argument is the target of the link \<open>/proc/self/exe\<close>, when it can be read; the buffer takes
  \<open>PATH_MAX - 1\<close> characters of it.\<close>

definition PATH_MAX :: nat where "PATH_MAX = 4096"

definition file_exe_name :: "string option \<Rightarrow> string" where
  "file_exe_name link = (case link of None \<Rightarrow> [] | Some path \<Rightarrow> file_name (take (PATH_MAX - 1) path))"

text \<open>\<open>setw(n)\<close> with \<open>setfill('0')\<close>.\<close>

definition setw0 :: "nat \<Rightarrow> string \<Rightarrow> string" where
  "setw0 n str = replicate (n - length str) (CHR ''0'') @ str"

definition format_time :: "(int \<Rightarrow> int \<times> int \<times> int) \<Rightarrow> int \<Rightarrow> string" where
  "format_time local_tm point =
     (let (hour, minute, sec) = local_tm (point div 1000000000);
          milliseconds = ms_of_ns point mod 1000
      in setw0 2 (dec_of_int hour) @ '':'' @ setw0 2 (dec_of_int minute) @ '':'' @
         setw0 2 (dec_of_int sec) @ '':'' @ setw0 3 (dec_of_int milliseconds))"

definition getTime :: "(int \<Rightarrow> int \<times> int \<times> int) \<Rightarrow> int \<Rightarrow> string" where
  "getTime local_tm now =
     (let (hour, minute, sec) = local_tm (now div 1000000000);
          milliseconds = ms_of_ns now mod 1000
      in setw0 2 (dec_of_int hour) @ '':'' @ setw0 2 (dec_of_int minute) @ '':'' @
         setw0 2 (dec_of_int sec) @ '':'' @ setw0 3 (dec_of_int milliseconds))"

text \<open>Where a line of the log comes from: \<open>__FILE__\<close>, \<open>__LINE__\<close>, \<open>__func__\<close> and the thread's text.\<close>

record log_site =
  ls_file :: string
  ls_line :: nat
  ls_func :: string
  ls_thread :: string

definition log_line :: "string \<Rightarrow> string \<Rightarrow> log_site \<Rightarrow> string \<Rightarrow> string" where
  "log_line kind time at msg =
     time @ '' ['' @ kind @ ''] ['' @ file_name (ls_file at) @ '':'' @ dec_of_nat (ls_line at) @ ''] ['' @
     ls_func at @ ''] ['' @ ls_thread at @ ''] '' @ msg"

text \<open>What each macro writes to \<open>stderr\<close>; \<open>strerror\<close> is the text of \<open>errno\<close>.\<close>

definition print_error :: "string \<Rightarrow> string \<Rightarrow> log_site \<Rightarrow> string \<Rightarrow> string" where
  "print_error strerror time at msg = log_line ''ERROR'' time at msg @ '' : '' @ strerror @ newline"

definition debug_error :: "env_cfg \<Rightarrow> string \<Rightarrow> log_site \<Rightarrow> string \<Rightarrow> string" where
  "debug_error cfg time at msg =
     (if LFI_debug cfg then log_line ''ERROR'' time at msg @ newline else [])"

definition debug_warning :: "env_cfg \<Rightarrow> string \<Rightarrow> log_site \<Rightarrow> string \<Rightarrow> string" where
  "debug_warning cfg time at msg =
     (if LFI_debug cfg then log_line ''WARNING'' time at msg @ newline else [])"

definition debug_info :: "env_cfg \<Rightarrow> string \<Rightarrow> log_site \<Rightarrow> string \<Rightarrow> string" where
  "debug_info cfg time at msg =
     (if LFI_debug cfg then log_line ''INFO'' time at msg @ newline else [])"

subsection \<open>Entries of a completion queue\<close>

text \<open>
  The log of a completion, \<open>lfi_endpoint.cpp\<close>. The values of the flags of libfabric, \<open>fi n\<close> for the flag
  named \<open>n\<close>, the texts of pointers and those of libfabric's errors are parameters.
\<close>

definition fi_flag_names :: "string list" where
  "fi_flag_names =
    [''FI_MSG'', ''FI_RMA'', ''FI_TAGGED'', ''FI_ATOMIC'', ''FI_MULTICAST'', ''FI_COLLECTIVE'',
     ''FI_READ'', ''FI_WRITE'', ''FI_RECV'', ''FI_SEND'', ''FI_REMOTE_READ'', ''FI_REMOTE_WRITE'',
     ''FI_MULTI_RECV'', ''FI_REMOTE_CQ_DATA'', ''FI_MORE'', ''FI_PEEK'', ''FI_TRIGGER'', ''FI_FENCE'',
     ''FI_COMPLETION'', ''FI_INJECT'', ''FI_INJECT_COMPLETE'', ''FI_TRANSMIT_COMPLETE'',
     ''FI_DELIVERY_COMPLETE'', ''FI_AFFINITY'', ''FI_COMMIT_COMPLETE'', ''FI_MATCH_COMPLETE'',
     ''FI_HMEM'', ''FI_VARIABLE_MSG'', ''FI_RMA_PMEM'', ''FI_SOURCE_ERR'', ''FI_LOCAL_COMM'',
     ''FI_REMOTE_COMM'', ''FI_SHARED_AV'', ''FI_PROV_ATTR_ONLY'', ''FI_NUMERICHOST'', ''FI_RMA_EVENT'',
     ''FI_SOURCE'', ''FI_NAMED_RX_CTX'', ''FI_DIRECTED_RECV'']"

definition format_fi_flags :: "(string \<Rightarrow> u64) \<Rightarrow> u64 \<Rightarrow> string" where
  "format_fi_flags fi flags =
     (if flags = 0 then ''    NONE'' @ newline else []) @
     concat (map (\<lambda>n. if flags AND fi n \<noteq> 0 then ''    '' @ n @ newline else []) fi_flag_names)"

record cq_entry_view =
  ce_op_context :: u64
  ce_flags :: u64
  ce_len :: u64
  ce_buf :: u64
  ce_data :: u64
  ce_tag :: u64

record cq_err_view = cq_entry_view +
  ce_olen :: u64
  ce_err :: int
  ce_prov_errno :: int
  ce_err_data :: u64
  ce_err_data_size :: u64

definition rank_text :: "u64 \<Rightarrow> string" where
  "rank_text tag = dec_of_nat (unat (drop_bit MASK_RANK_BYTES (tag AND MASK_RANK)))"

definition cq_tagged_entry_text :: "(string \<Rightarrow> u64) \<Rightarrow> (u64 \<Rightarrow> string) \<Rightarrow> cq_entry_view \<Rightarrow> string" where
  "cq_tagged_entry_text fi ptr_text e =
     ''fi_cq_tagged_entry:'' @ newline @
     ''  op_context: '' @ ptr_text (ce_op_context e) @ newline @
     ''  Flags set:'' @ newline @ format_fi_flags fi (ce_flags e) @
     ''  len: '' @ dec_of_nat (unat (ce_len e)) @ newline @
     ''  buf: '' @ ptr_text (ce_buf e) @ newline @
     ''  data: '' @ dec_of_nat (unat (ce_data e)) @ newline @
     ''  tag: '' @ dec_of_nat (unat (ce_tag e)) @ newline @
     (if ce_flags e AND fi ''FI_RECV'' \<noteq> 0
      then ''    real_tag: '' @ format_lfi_tag (ce_tag e AND MASK_TAG) @ newline @
           ''    rank: '' @ rank_text (ce_tag e) @ newline
      else [])"

definition cq_err_entry_text ::
    "(string \<Rightarrow> u64) \<Rightarrow> (u64 \<Rightarrow> string) \<Rightarrow> (int \<Rightarrow> string) \<Rightarrow> (int \<Rightarrow> u64 \<Rightarrow> string) \<Rightarrow> cq_err_view \<Rightarrow> string" where
  "cq_err_entry_text fi ptr_text fi_strerror fi_cq_strerror e =
     ''fi_cq_err_entry:'' @ newline @
     ''  op_context: '' @ ptr_text (ce_op_context e) @ newline @
     ''  Flags set:'' @ newline @ format_fi_flags fi (ce_flags e) @
     ''  len: '' @ dec_of_nat (unat (ce_len e)) @ newline @
     ''  buf: '' @ ptr_text (ce_buf e) @ newline @
     ''  data: '' @ dec_of_nat (unat (ce_data e)) @ newline @
     ''  tag: '' @ dec_of_nat (unat (ce_tag e)) @ newline @
     ''    real_tag: '' @ format_lfi_tag (ce_tag e AND MASK_TAG) @ newline @
     ''    rank: '' @ rank_text (ce_tag e) @ newline @
     ''  olen: '' @ dec_of_nat (unat (ce_olen e)) @ newline @
     ''  err: '' @ dec_of_int (ce_err e) @ '' '' @ fi_strerror (ce_err e) @ newline @
     ''  prov_errno: '' @ dec_of_int (ce_prov_errno e) @ '' '' @
       fi_cq_strerror (ce_prov_errno e) (ce_err_data e) @ newline @
     ''  err_data: '' @ ptr_text (ce_err_data e) @ newline @
     ''  err_data_size: '' @ dec_of_nat (unat (ce_err_data_size e)) @ newline"

subsection \<open>What they give\<close>

text \<open>The name of a file is what follows the last slash of its path.\<close>

lemma file_name_loop_no_slash:
  "CHR ''/'' \<notin> set path \<Longrightarrow> file_name_loop f path = f"
  by (induction path arbitrary: f) auto

lemma file_name_loop_slash:
  "CHR ''/'' \<notin> set name \<Longrightarrow> file_name_loop f (dir @ CHR ''/'' # name) = name"
  by (induction dir arbitrary: f) (auto simp: file_name_loop_no_slash)

lemma file_name_last:
  "CHR ''/'' \<notin> set name \<Longrightarrow> file_name name = name \<and> file_name (dir @ CHR ''/'' # name) = name"
  by (simp add: file_name_def file_name_loop_no_slash file_name_loop_slash)

lemma length_dec_of_nat: "n < 10 ^ k \<Longrightarrow> 0 < k \<Longrightarrow> length (dec_of_nat n) \<le> k"
proof (induction n arbitrary: k rule: dec_of_nat.induct)
  case (1 n)
  show ?case
  proof (cases "n < 10")
    case True
    then show ?thesis using 1(3) by (subst dec_of_nat.simps) simp
  next
    case False
    then obtain j where k: "k = Suc j" "0 < j" using 1(2) by (cases k; cases "k - 1") auto
    then have "n div 10 < 10 ^ j" using 1(2) by (simp add: div_less_iff_less_mult)
    then have "length (dec_of_nat (n div 10)) \<le> j" using 1(1) False k by simp
    then show ?thesis using False k by (subst dec_of_nat.simps) simp
  qed
qed

lemma length_setw0: "0 \<le> x \<Longrightarrow> x < 10 ^ k \<Longrightarrow> 0 < k \<Longrightarrow> length (setw0 k (dec_of_int x)) = k"
proof -
  assume "0 \<le> x" "x < 10 ^ k" "0 < k"
  then have "length (dec_of_int x) \<le> k"
    using length_dec_of_nat [of "nat x" k] by (simp add: dec_of_int_def nat_less_iff)
  then show ?thesis by (simp add: setw0_def)
qed

text \<open>The time has a fixed width, so the columns of the log are aligned.\<close>

lemma format_time_length:
  assumes "local_tm (t div 1000000000) = (h, m, s)" and "0 \<le> h" "h < 24" "0 \<le> m" "m < 60" "0 \<le> s" "s < 61"
  shows "length (format_time local_tm t) = 12"
  using assms length_setw0 [of h 2] length_setw0 [of m 2] length_setw0 [of s 2] length_setw0 [of "ms_of_ns t mod 1000" 3]
  by (simp add: format_time_def)

end
