(* ===== verification/Preload_Text.thy ===== *)
theory Preload_Text
  imports Preload_State Debug_Text
begin

text \<open>
  \<open>ld_preload/debug.hpp\<close>: the texts of the arguments and results of the replaced functions in the log of
  the preloaded library. The names of the constants come from the macros of the system headers: \<open>def n\<close> is
  the value of macro \<open>n\<close>, \<open>None\<close> when the headers do not define it, so that a case under \<open>#ifdef\<close> is left
  out then. A \<open>switch\<close> has no two cases of one value, so the first name that fits is the one. Further
  parameters are the texts of addresses (\<open>inet_ntop\<close>) and of pointers, and the memory that a pointer leads to.
\<close>

type_synonym macros = "string \<Rightarrow> int option"

text \<open>\<open>CASE_STR_OS\<close>, \<open>CASE_STR_RET\<close>\<close>

fun case_str :: "macros \<Rightarrow> string list \<Rightarrow> int \<Rightarrow> string option" where
  "case_str def [] x = None"
| "case_str def (n # ns) x = (if def n = Some x then Some n else case_str def ns x)"

definition case_ret :: "macros \<Rightarrow> string list \<Rightarrow> int \<Rightarrow> string \<Rightarrow> string" where
  "case_ret def ns x dflt = (case case_str def ns x of Some n \<Rightarrow> n | None \<Rightarrow> dflt)"

text \<open>\<open>if (flags & NAME) result += "NAME | ";\<close> for each macro with its label, and \<open>substr(0, size - 3)\<close>.\<close>

definition has_flag :: "macros \<Rightarrow> u32 \<Rightarrow> string \<Rightarrow> bool" where
  "has_flag def flags n = (case def n of None \<Rightarrow> False | Some v \<Rightarrow> flags AND word_of_int v \<noteq> 0)"

definition add_flags :: "macros \<Rightarrow> (string \<times> string) list \<Rightarrow> u32 \<Rightarrow> string" where
  "add_flags def names flags =
     concat (map (\<lambda>(n, label). if has_flag def flags n then label @ '' | '' else []) names)"

definition drop_last3 :: "string \<Rightarrow> string" where
  "drop_last3 str = take (length str - 3) str"

subsection \<open>Lines of the log\<close>

text \<open>The macros \<open>debug\<close> and \<open>debug_send\<close> of a build with \<open>DEBUG\<close> or \<open>DEBUG_SENDS\<close>, and \<open>STR_ERRNO\<close>.\<close>

definition preload_debug :: "string \<Rightarrow> log_site \<Rightarrow> string \<Rightarrow> string" where
  "preload_debug time at msg =
     time @ '' ['' @ file_name (ls_file at) @ '':'' @ dec_of_nat (ls_line at) @ ''] ['' @
     ls_func at @ ''] ['' @ ls_thread at @ ''] '' @ msg @ newline"

definition STR_ERRNO :: "string \<Rightarrow> int \<Rightarrow> string" where
  "STR_ERRNO strerror ret = (if ret < 0 then strerror else [])"

subsection \<open>Addresses and kinds of sockets\<close>

definition socklen_text :: "u32 option \<Rightarrow> string" where
  "socklen_text addlen = (case addlen of None \<Rightarrow> ''null'' | Some n \<Rightarrow> dec_of_nat (unat n))"

definition getAcceptFlags :: "macros \<Rightarrow> u32 \<Rightarrow> string" where
  "getAcceptFlags def flags =
     (let result = add_flags def [(''SOCK_NONBLOCK'', ''SOCK_NONBLOCK''), (''SOCK_CLOEXEC'', ''SOCK_CLOEXEC'')] flags
      in if result = [] then ''No flags'' else drop_last3 result)"

text \<open>A \<open>sockaddr\<close>: its family, and what follows read as \<open>sockaddr_in\<close> and as \<open>sockaddr_in6\<close>.\<close>

record any_addr =
  aa_family :: "16 word"
  aa_in_addr :: "u8 list"
  aa_in_port :: "16 word"
  aa_in6_addr :: "u8 list"
  aa_in6_port :: "16 word"

text \<open>The exception for another family is \<open>None\<close>.\<close>

definition sockaddr_to_str :: "macros \<Rightarrow> (u8 list \<Rightarrow> string) \<Rightarrow> any_addr option \<Rightarrow> string option" where
  "sockaddr_to_str def ntop addr =
     (case addr of
        None \<Rightarrow> Some []
      | Some a \<Rightarrow>
          if def ''AF_INET'' = Some (uint (aa_family a)) then Some (ntop (aa_in_addr a))
          else if def ''AF_INET6'' = Some (uint (aa_family a)) then Some (ntop (aa_in6_addr a))
          else None)"

definition family_names :: "string list" where
  "family_names =
    [''AF_UNSPEC'', ''AF_LOCAL'', ''AF_AX25'', ''AF_IPX'', ''AF_APPLETALK'', ''AF_NETROM'',
     ''AF_BRIDGE'', ''AF_ATMPVC'', ''AF_X25'', ''AF_ROSE'', ''AF_DECnet'', ''AF_NETBEUI'',
     ''AF_SECURITY'', ''AF_KEY'', ''AF_NETLINK'', ''AF_PACKET'', ''AF_ASH'', ''AF_ECONET'',
     ''AF_ATMSVC'', ''AF_RDS'', ''AF_SNA'', ''AF_IRDA'', ''AF_PPPOX'', ''AF_WANPIPE'', ''AF_LLC'',
     ''AF_IB'', ''AF_MPLS'', ''AF_CAN'', ''AF_TIPC'', ''AF_BLUETOOTH'', ''AF_IUCV'', ''AF_RXRPC'',
     ''AF_ISDN'', ''AF_PHONET'', ''AF_IEEE802154'', ''AF_CAIF'', ''AF_ALG'', ''AF_NFC'',
     ''AF_VSOCK'', ''AF_KCM'', ''AF_QIPCRTR'', ''AF_SMC'', ''AF_XDP'', ''AF_MCTP'', ''AF_MAX'']"

definition sockaddr_text :: "macros \<Rightarrow> (u8 list \<Rightarrow> string) \<Rightarrow> any_addr option \<Rightarrow> string" where
  "sockaddr_text def ntop addr =
     (case addr of
        None \<Rightarrow> ''null''
      | Some a \<Rightarrow>
          if def ''AF_INET'' = Some (uint (aa_family a))
          then ''IPv4: '' @ ntop (aa_in_addr a) @ '':'' @ dec_of_nat (unat (aa_in_port a))
          else if def ''AF_INET6'' = Some (uint (aa_family a))
          then ''IPv6: '' @ ntop (aa_in6_addr a) @ '':'' @ dec_of_nat (unat (aa_in6_port a))
          else case_ret def family_names (uint (aa_family a))
                 (''Unknown family: '' @ dec_of_nat (unat (aa_family a))))"

definition getSocketType :: "macros \<Rightarrow> int \<Rightarrow> string" where
  "getSocketType def type =
     (if def ''SOCK_STREAM'' = Some type then ''SOCK_STREAM (TCP)''
      else if def ''SOCK_DGRAM'' = Some type then ''SOCK_DGRAM (UDP)''
      else if def ''SOCK_RAW'' = Some type then ''SOCK_RAW''
      else ''Unknown socket type'')"

definition getProtocol :: "macros \<Rightarrow> int \<Rightarrow> string" where
  "getProtocol def protocol =
     case_ret def [''IPPROTO_IP'', ''IPPROTO_TCP'', ''IPPROTO_UDP'', ''IPPROTO_ICMP'', ''IPPROTO_RAW'']
       protocol ''Unknown protocol''"

definition socket_str :: "macros \<Rightarrow> int \<Rightarrow> int \<Rightarrow> int \<Rightarrow> string" where
  "socket_str def domain type protocol =
     (if def ''AF_INET'' = Some domain then ''AF_INET''
      else if def ''AF_INET6'' = Some domain then ''AF_INET6'' else ''Unknown'') @ '', '' @
     getSocketType def type @ '', '' @ getProtocol def protocol"

definition getShutdownHow :: "macros \<Rightarrow> int \<Rightarrow> string" where
  "getShutdownHow def how =
     (if def ''SHUT_RD'' = Some how then ''SHUT_RD (Disable Reads)''
      else if def ''SHUT_WR'' = Some how then ''SHUT_WR (Disable Writes)''
      else if def ''SHUT_RDWR'' = Some how then ''SHUT_RDWR (Disable Both)''
      else ''Unknown shutdown mode'')"

subsection \<open>Socket options\<close>

definition getSocketLevel :: "macros \<Rightarrow> int \<Rightarrow> string" where
  "getSocketLevel def level =
     case_ret def [''SOL_SOCKET'', ''IPPROTO_TCP'', ''IPPROTO_UDP'', ''IPPROTO_IP''] level ''Unknown level''"

definition so_names :: "string list" where
  "so_names =
    [''SO_DEBUG'', ''SO_REUSEADDR'', ''SO_TYPE'', ''SO_ERROR'', ''SO_DONTROUTE'', ''SO_BROADCAST'',
     ''SO_SNDBUF'', ''SO_RCVBUF'', ''SO_SNDBUFFORCE'', ''SO_RCVBUFFORCE'', ''SO_KEEPALIVE'',
     ''SO_OOBINLINE'', ''SO_NO_CHECK'', ''SO_PRIORITY'', ''SO_LINGER'', ''SO_BSDCOMPAT'',
     ''SO_REUSEPORT'', ''SO_SECURITY_AUTHENTICATION'', ''SO_SECURITY_ENCRYPTION_TRANSPORT'',
     ''SO_SECURITY_ENCRYPTION_NETWORK'', ''SO_BINDTODEVICE'', ''SO_ATTACH_FILTER'',
     ''SO_DETACH_FILTER'', ''SO_PEERNAME'', ''SO_ACCEPTCONN'', ''SO_PEERSEC'', ''SO_PASSSEC'',
     ''SO_MARK'', ''SO_PROTOCOL'', ''SO_RXQ_OVFL'', ''SO_WIFI_STATUS'', ''SO_PEEK_OFF'',
     ''SO_NOFCS'', ''SO_LOCK_FILTER'', ''SO_SELECT_ERR_QUEUE'', ''SO_BUSY_POLL'',
     ''SO_MAX_PACING_RATE'', ''SO_BPF_EXTENSIONS'', ''SO_INCOMING_CPU'', ''SO_ATTACH_BPF'',
     ''SO_ATTACH_REUSEPORT_CBPF'', ''SO_ATTACH_REUSEPORT_EBPF'', ''SO_CNX_ADVICE'',
     ''SCM_TIMESTAMPING_OPT_STATS'', ''SO_MEMINFO'', ''SO_INCOMING_NAPI_ID'', ''SO_COOKIE'',
     ''SCM_TIMESTAMPING_PKTINFO'', ''SO_PEERGROUPS'', ''SO_ZEROCOPY'', ''SO_TXTIME'',
     ''SO_BINDTOIFINDEX'', ''SO_TIMESTAMP_OLD'', ''SO_TIMESTAMPNS_OLD'', ''SO_TIMESTAMPING_OLD'',
     ''SO_TIMESTAMP_NEW'', ''SO_TIMESTAMPNS_NEW'', ''SO_TIMESTAMPING_NEW'', ''SO_RCVTIMEO_NEW'',
     ''SO_SNDTIMEO_NEW'', ''SO_DETACH_REUSEPORT_BPF'', ''SO_PREFER_BUSY_POLL'',
     ''SO_BUSY_POLL_BUDGET'', ''SO_NETNS_COOKIE'', ''SO_BUF_LOCK'']"

definition tcp_names :: "string list" where
  "tcp_names =
    [''TCP_NODELAY'', ''TCP_MAXSEG'', ''TCP_CORK'', ''TCP_KEEPIDLE'', ''TCP_KEEPINTVL'',
     ''TCP_KEEPCNT'', ''TCP_SYNCNT'', ''TCP_LINGER2'', ''TCP_DEFER_ACCEPT'', ''TCP_WINDOW_CLAMP'',
     ''TCP_INFO'', ''TCP_QUICKACK'', ''TCP_CONGESTION'', ''TCP_MD5SIG'',
     ''TCP_COOKIE_TRANSACTIONS'', ''TCP_THIN_LINEAR_TIMEOUTS'', ''TCP_THIN_DUPACK'',
     ''TCP_USER_TIMEOUT'', ''TCP_REPAIR'', ''TCP_REPAIR_QUEUE'', ''TCP_QUEUE_SEQ'',
     ''TCP_REPAIR_OPTIONS'', ''TCP_FASTOPEN'', ''TCP_TIMESTAMP'', ''TCP_NOTSENT_LOWAT'',
     ''TCP_CC_INFO'', ''TCP_SAVE_SYN'', ''TCP_SAVED_SYN'', ''TCP_REPAIR_WINDOW'',
     ''TCP_FASTOPEN_CONNECT'', ''TCP_ULP'', ''TCP_MD5SIG_EXT'', ''TCP_FASTOPEN_KEY'',
     ''TCP_FASTOPEN_NO_COOKIE'', ''TCP_ZEROCOPY_RECEIVE'', ''TCP_INQ'', ''TCP_TX_DELAY'']"

definition getSocketOptionName :: "macros \<Rightarrow> int \<Rightarrow> int \<Rightarrow> string" where
  "getSocketOptionName def level optname =
     (if def ''SOL_SOCKET'' = Some level
      then case_ret def so_names optname (''Unknown socket option '' @ dec_of_int optname)
      else if def ''IPPROTO_TCP'' = Some level
      then case_ret def tcp_names optname (''Unknown TCP option '' @ dec_of_int optname)
      else ''Unknown option '' @ dec_of_int optname)"

text \<open>The option's value is read as an \<open>int\<close>, or as the two of \<open>struct linger\<close>, by its length.\<close>

definition getSocketOptval :: "(int \<times> int) option \<Rightarrow> u32 \<Rightarrow> string" where
  "getSocketOptval optval optlen =
     (case optval of
        None \<Rightarrow> ''null''
      | Some (x, y) \<Rightarrow>
          if optlen = 4 then dec_of_int x
          else if optlen = 8 then ''{ l_onoff: '' @ dec_of_int x @ '', l_linger: '' @ dec_of_int y @ '' }''
          else ''unknown'')"

definition getSocketOptval_ptr :: "(int \<times> int) option \<Rightarrow> u32 option \<Rightarrow> string" where
  "getSocketOptval_ptr optval optlen = (case optlen of None \<Rightarrow> ''null'' | Some n \<Rightarrow> getSocketOptval optval n)"

subsection \<open>Messages\<close>

text \<open>The second test of \<open>MSG_EOR\<close> is in the code.\<close>

definition msg_labels :: "(string \<times> string) list" where
  "msg_labels = map (\<lambda>n. (n, n))
     [''MSG_EOR'', ''MSG_OOB'', ''MSG_DONTROUTE'', ''MSG_DONTWAIT'', ''MSG_EOR'', ''MSG_NOSIGNAL'',
      ''MSG_TRUNC'', ''MSG_CTRUNC'', ''MSG_WAITALL'', ''MSG_ERRQUEUE'']"

definition getMSGFlags :: "macros \<Rightarrow> u32 \<Rightarrow> string" where
  "getMSGFlags def flags =
     (let result = add_flags def msg_labels flags
      in if result = [] then ''No flags'' else drop_last3 result)"

text \<open>The elements are converted to \<open>int\<close>, whose hexadecimal form is that of its 32 bits. The counter
  \<open>j\<close> is the index of the next element.\<close>

fun to_hex_elems :: "nat \<Rightarrow> int list \<Rightarrow> string" where
  "to_hex_elems j [] = []"
| "to_hex_elems j (x # xs) =
     setw0 2 (hex_of_nat (unat (word_of_int x :: u32))) @ '' '' @
     (if j mod 1024 = 0 \<and> j \<noteq> 0 then newline else []) @ to_hex_elems (Suc j) xs"

definition to_hex :: "int list \<Rightarrow> string" where
  "to_hex vec = ''vec('' @ dec_of_nat (length vec) @ '' bytes) '' @ to_hex_elems 0 vec @ newline"

definition isprint :: "u8 \<Rightarrow> bool" where
  "isprint b \<longleftrightarrow> 32 \<le> unat b \<and> unat b < 127"

definition data_text :: "(u64 \<Rightarrow> u8) \<Rightarrow> u64 \<Rightarrow> nat \<Rightarrow> string" where
  "data_text rd data num =
     map (\<lambda>b. char_of (unat b)) (filter isprint (map (\<lambda>j. rd (data + of_nat j)) [0..<num]))"

text \<open>\<open>rd\<close> is the memory, \<open>how_many\<close> the number of bytes to show of each part.\<close>

fun iovec_text :: "(u64 \<Rightarrow> u8) \<Rightarrow> nat \<Rightarrow> nat \<Rightarrow> iovec list \<Rightarrow> string" where
  "iovec_text rd how_many i [] = []"
| "iovec_text rd how_many i (v # vs) =
     ''iovec['' @ dec_of_nat i @ ''] '' @ ''('' @ dec_of_nat (unat (iov_len v)) @ '' bytes) '' @
     (case vs of [] \<Rightarrow> [] | v' # _ \<Rightarrow> if iov_base v + iov_len v = iov_base v' then ''[MERGE] '' else []) @
     data_text rd (iov_base v) (min (unat (iov_len v)) how_many) @
     iovec_text rd how_many (Suc i) vs"

definition printIovec :: "(u64 \<Rightarrow> u8) \<Rightarrow> iovec list \<Rightarrow> nat \<Rightarrow> string" where
  "printIovec rd iov how_many = iovec_text rd how_many 0 iov"

text \<open>
  Control data. \<open>hd_at off\<close> is what lies at that offset, read as the length, level and type of a header of
  16 bytes. The next header (\<open>CMSG_NXTHDR\<close> of the C library) begins where the current one ends, rounded up
  to 8 bytes, if it fits in the control data.
\<close>

definition cmsg_align :: "nat \<Rightarrow> nat" where
  "cmsg_align n = (n + 7) div 8 * 8"

definition cmsg_nxthdr :: "(nat \<Rightarrow> nat \<times> int \<times> int) \<Rightarrow> nat \<Rightarrow> nat \<Rightarrow> nat option" where
  "cmsg_nxthdr hd_at controllen off =
     (let len = fst (hd_at off); next_off = off + cmsg_align len
      in if len < 16 then None
         else if controllen < next_off + 16 then None
         else if controllen < next_off + cmsg_align (fst (hd_at next_off)) then None
         else Some next_off)"

function control_text :: "(nat \<Rightarrow> nat \<times> int \<times> int) \<Rightarrow> nat \<Rightarrow> nat \<Rightarrow> string" where
  "control_text hd_at controllen off =
     (let (len, level, type) = hd_at off
      in if controllen < off + 16 then ''Invalid Pointer Offset''
         else if controllen < len \<or> len < 16 then ''Invalid cmsg_len detected: '' @ dec_of_nat len
         else ''[L: '' @ dec_of_int level @ '', T: '' @ dec_of_int type @ '', Len: '' @ dec_of_nat len @ '']'' @
              (case cmsg_nxthdr hd_at controllen off of
                 None \<Rightarrow> []
               | Some off' \<Rightarrow> control_text hd_at controllen off'))"
  by auto

lemma cmsg_nxthdr_later: "cmsg_nxthdr hd_at n off = Some off' \<Longrightarrow> off < off' \<and> off' + 16 \<le> n"
  by (auto simp: cmsg_nxthdr_def cmsg_align_def Let_def split: if_splits)

text \<open>The walk over the headers ends: each one begins after the one before it and fits in the data.\<close>

termination control_text
  by (relation "measure (\<lambda>(_, n, off). n - off)") (auto dest: cmsg_nxthdr_later)

declare control_text.simps [simp del]

record msghdr_view =
  mv_name :: "any_addr option"
  mv_namelen :: u32
  mv_iov :: "iovec list option"
  mv_control :: "(nat \<Rightarrow> nat \<times> int \<times> int) option"
  mv_controllen :: nat
  mv_flags :: u32

definition msghdr_to_str ::
    "macros \<Rightarrow> (u8 list \<Rightarrow> string) \<Rightarrow> (u64 \<Rightarrow> u8) \<Rightarrow> msghdr_view option \<Rightarrow> nat \<Rightarrow> string" where
  "msghdr_to_str def ntop rd msg how_many =
     (case msg of
        None \<Rightarrow> ''null''
      | Some m \<Rightarrow>
          ''Message Header Details: '' @
          (case mv_name m of
             None \<Rightarrow> ''null''
           | Some a \<Rightarrow>
               if mv_namelen m = 16
               then ''(IPv4): '' @ ntop (aa_in_addr a) @ '':'' @ dec_of_nat (unat (aa_in_port a))
               else if mv_namelen m = 28
               then ''(IPv6): '' @ ntop (aa_in6_addr a) @ '':'' @ dec_of_nat (unat (aa_in6_port a))
               else ''Unknown format'') @
          (case mv_iov m of
             Some (v # vs) \<Rightarrow> ''Message Data: '' @ printIovec rd (v # vs) how_many
           | _ \<Rightarrow> ''Message Data: null, '') @
          (case mv_control m of
             None \<Rightarrow> []
           | Some hd_at \<Rightarrow>
               if 16 \<le> mv_controllen m
               then ''Control Data ['' @ dec_of_nat (mv_controllen m) @ '' bytes]: { '' @
                    control_text hd_at (mv_controllen m) 0 @ '' }''
               else []) @
          '', '' @ ''Message Flags: '' @ getMSGFlags def (mv_flags m))"

subsection \<open>Events\<close>

definition poll_labels :: "(string \<times> string) list" where
  "poll_labels = [(''POLLIN'', ''IN''), (''POLLOUT'', ''OUT''), (''POLLERR'', ''ERR''), (''POLLHUP'', ''HUP''),
     (''POLLNVAL'', ''NVAL'')]"

definition interpretEvents :: "macros \<Rightarrow> 16 word \<Rightarrow> string" where
  "interpretEvents def events =
     (let result = add_flags def poll_labels (scast events)
      in if result \<noteq> [] then drop_last3 (''POLL '' @ result) else ''No events'')"

fun pollfd_lines :: "macros \<Rightarrow> nat \<Rightarrow> pollfd list \<Rightarrow> string" where
  "pollfd_lines def i [] = []"
| "pollfd_lines def i (p # ps) =
     ''Pollfd['' @ dec_of_nat i @ '']:{ '' @ ''FD: '' @ dec_of_int (pf_fd p) @ '', '' @
     ''Events to monitor: '' @ interpretEvents def (pf_events p) @ '', '' @
     ''Events occurred: '' @ interpretEvents def (pf_revents p) @ ''}'' @ pollfd_lines def (Suc i) ps"

definition getPollfdStr :: "macros \<Rightarrow> pollfd list option \<Rightarrow> string" where
  "getPollfdStr def fds = (case fds of None \<Rightarrow> ''null'' | Some ps \<Rightarrow> pollfd_lines def 0 ps)"

definition epoll_labels :: "(string \<times> string) list" where
  "epoll_labels = [(''EPOLLIN'', ''IN''), (''EPOLLOUT'', ''OUT''), (''EPOLLERR'', ''ERR''), (''EPOLLHUP'', ''HUP''),
     (''EPOLLRDHUP'', ''RDHUP''), (''EPOLLET'', ''ET''), (''EPOLLONESHOT'', ''ONESHOT''),
     (''EPOLLWAKEUP'', ''WAKEUP''), (''EPOLLEXCLUSIVE'', ''EXCLUSIVE'')]"

definition interpretEpollEvents :: "macros \<Rightarrow> u32 \<Rightarrow> string" where
  "interpretEpollEvents def events =
     (let result = add_flags def epoll_labels events
      in if result \<noteq> [] then drop_last3 (''EPOLL '' @ result) else ''No events'')"

definition getEPollop :: "macros \<Rightarrow> int \<Rightarrow> string" where
  "getEPollop def op = case_ret def [''EPOLL_CTL_ADD'', ''EPOLL_CTL_DEL'', ''EPOLL_CTL_MOD''] op []"

record epoll_event =
  ev_events :: u32
  ev_data :: u64

fun epoll_lines :: "macros \<Rightarrow> (u64 \<Rightarrow> string) \<Rightarrow> nat \<Rightarrow> epoll_event list \<Rightarrow> string" where
  "epoll_lines def ptr_text i [] = []"
| "epoll_lines def ptr_text i (e # es) =
     (if interpretEpollEvents def (ev_events e) = ''No events'' then []
      else ''Epolle['' @ dec_of_nat i @ '']:'' @ ''Events: '' @ interpretEpollEvents def (ev_events e) @ '', '' @
           ''Data:'' @ '' ptr '' @ ptr_text (ev_data e) @
           '' fd '' @ dec_of_int (sint (ucast (ev_data e) :: u32)) @
           '' u32 '' @ dec_of_nat (unat (ucast (ev_data e) :: u32)) @
           '' u64 '' @ dec_of_nat (unat (ev_data e)) @ '' '') @
     epoll_lines def ptr_text (Suc i) es"

definition getEPollEventStr :: "macros \<Rightarrow> (u64 \<Rightarrow> string) \<Rightarrow> epoll_event list option \<Rightarrow> string" where
  "getEPollEventStr def ptr_text events =
     (case events of None \<Rightarrow> ''null'' | Some es \<Rightarrow> epoll_lines def ptr_text 0 es)"

subsection \<open>The sockets\<close>

definition buffered_text :: "buffered \<Rightarrow> string" where
  "buffered_text b = ''buff['' @ dec_of_nat (unat (bf_consumed b)) @ '':'' @ dec_of_nat (length (bf_buffer b)) @ ''] ''"

definition lfi_socket_text :: "lfi_socket \<Rightarrow> string" where
  "lfi_socket_text sk =
     ''lfi_socket: comm '' @ dec_of_int (sk_lfi_id sk) @ '' eventfd '' @ dec_of_int (sk_eventfd sk) @ '' '' @
     concat (map buffered_text (sk_buffers sk)) @ (if sk_buffers sk = [] then ''empty'' else [])"

subsection \<open>What a text tells\<close>

lemma dec_of_int_inj: "dec_of_int x = dec_of_int y \<longleftrightarrow> x = y"
proof -
  have no_sign: "dec_of_nat n \<noteq> CHR ''-'' # cs" for n cs
    using dec_of_nat_digits [of n] by (auto simp: is_digit_def)
  show ?thesis
    by (auto simp: dec_of_int_def dec_of_nat_inj no_sign no_sign [symmetric] split: if_splits)
qed

lemma case_str_value: "case_str def ns x = Some n \<Longrightarrow> def n = Some x \<and> n \<in> set ns"
  by (induction ns) (auto split: if_splits)

lemma case_ret_inj:
  assumes names: "\<forall>n \<in> set ns. n \<noteq> [] \<and> hd n \<noteq> CHR ''U''"
    and dflt: "\<And>x. dflt x \<noteq> [] \<and> hd (dflt x) = CHR ''U''" "\<And>x y. dflt x = dflt y \<Longrightarrow> x = y"
  shows "case_ret def ns x (dflt x) = case_ret def ns y (dflt y) \<longleftrightarrow> x = y"
proof
  assume eq: "case_ret def ns x (dflt x) = case_ret def ns y (dflt y)"
  have other: "dflt z \<noteq> n" if "n \<in> set ns" for z n using that names dflt(1) [of z] by force
  show "x = y"
    using eq case_str_value [of def ns x] case_str_value [of def ns y] dflt(2) other
    by (auto simp: case_ret_def split: option.splits)
qed simp

lemma so_names_start: "\<forall>n \<in> set so_names. n \<noteq> [] \<and> hd n \<noteq> CHR ''U''"
  by (simp add: so_names_def)

lemma tcp_names_start: "\<forall>n \<in> set tcp_names. n \<noteq> [] \<and> hd n \<noteq> CHR ''U''"
  by (simp add: tcp_names_def)

lemma option_name_inj: "getSocketOptionName def level x = getSocketOptionName def level y \<longleftrightarrow> x = y"
  using case_ret_inj [OF so_names_start, of "\<lambda>x. ''Unknown socket option '' @ dec_of_int x" def x y]
    case_ret_inj [OF tcp_names_start, of "\<lambda>x. ''Unknown TCP option '' @ dec_of_int x" def x y]
  by (simp add: getSocketOptionName_def dec_of_int_inj)

text \<open>Words that are each followed by a bar can be read back, if no word has a bar.\<close>

definition bar_text :: "string list \<Rightarrow> string" where
  "bar_text ws = concat (map (\<lambda>w. w @ '' | '') ws)"

lemma bar_text_inj:
  "\<forall>w \<in> set ws \<union> set vs. CHR ''|'' \<notin> set w \<Longrightarrow> bar_text ws = bar_text vs \<Longrightarrow> ws = vs"
proof (induction ws arbitrary: vs)
  case Nil
  then show ?case by (cases vs) (simp_all add: bar_text_def)
next
  case (Cons w ws)
  then obtain v vs' where vs: "vs = v # vs'" by (cases vs) (simp_all add: bar_text_def)
  have split: "takeWhile (\<lambda>c. c \<noteq> CHR ''|'') (u @ '' | '' @ r) = u @ '' ''"
    if "CHR ''|'' \<notin> set u" for u r
    using that by (induction u) auto
  have eq: "w @ '' | '' @ bar_text ws = v @ '' | '' @ bar_text vs'"
    using Cons.prems(2) by (simp add: vs bar_text_def)
  then have "w @ '' '' = v @ '' ''" using split Cons.prems(1) vs by (metis UnCI list.set_intros(1))
  then have "w = v" by simp
  then show ?case using Cons eq vs by simp
qed

lemma add_flags_bar:
  "add_flags def names flags = bar_text (map snd (filter (\<lambda>(n, l). has_flag def flags n) names))"
  by (induction names) (auto simp: add_flags_def bar_text_def)

lemma add_flags_inj:
  assumes bars: "\<forall>(n, l) \<in> set names. CHR ''|'' \<notin> set l" and inj: "inj_on snd (set names)"
    and eq: "add_flags def names a = add_flags def names b"
  shows "\<forall>(n, l) \<in> set names. has_flag def a n \<longleftrightarrow> has_flag def b n"
proof -
  let ?f = "\<lambda>flags. filter (\<lambda>(n, l). has_flag def flags n) names"
  have "map snd (?f a) = map snd (?f b)"
    by (rule bar_text_inj) (use bars eq in \<open>auto simp: add_flags_bar\<close>)
  then have "snd ` set (?f a) = snd ` set (?f b)" by (metis set_map)
  moreover have "set (?f a) \<subseteq> set names" "set (?f b) \<subseteq> set names" by auto
  ultimately have "set (?f a) = set (?f b)" using inj by (metis inj_on_image_eq_iff)
  then show ?thesis by (auto simp: set_eq_iff)
qed

text \<open>Cutting off the last bar loses nothing, and the result does not read "No ...".\<close>

lemma drop_last3_bar:
  assumes "bar_text ws \<noteq> []"
  shows "drop_last3 (p @ bar_text ws) @ '' | '' = p @ bar_text ws"
proof -
  obtain us w where ws: "ws = us @ [w]" using assms by (cases ws rule: rev_cases) (auto simp: bar_text_def)
  show ?thesis by (simp add: ws bar_text_def drop_last3_def)
qed

lemma add_flags_cong:
  "\<forall>(n, l) \<in> set names. has_flag def a n \<longleftrightarrow> has_flag def b n \<Longrightarrow> add_flags def names a = add_flags def names b"
  by (induction names) (auto simp: add_flags_def)

lemma add_flags_first:
  assumes "add_flags def names flags \<noteq> []"
  obtains l r where "l \<in> snd ` set names" and "add_flags def names flags = l @ '' | '' @ r"
proof -
  let ?ws = "map snd (filter (\<lambda>(n, l). has_flag def flags n) names)"
  have "bar_text ?ws \<noteq> []" using assms by (simp add: add_flags_bar)
  then obtain w ws where ws: "?ws = w # ws" by (cases ?ws) (simp_all add: bar_text_def)
  have "w \<in> set ?ws" unfolding ws by simp
  then have "w \<in> snd ` set names" by auto
  moreover have "add_flags def names flags = w @ '' | '' @ bar_text ws"
    unfolding add_flags_bar ws by (simp add: bar_text_def)
  ultimately show ?thesis by (rule that)
qed

lemma flags_text_inj:
  assumes labels: "\<forall>(n, l) \<in> set names. CHR ''|'' \<notin> set l \<and> 2 \<le> length l \<and> hd (p @ l) \<noteq> CHR ''N''"
    and inj: "inj_on snd (set names)"
    and t: "\<And>flags. txt flags = (if add_flags def names flags = [] then CHR ''N'' # q
        else drop_last3 (p @ add_flags def names flags))"
  shows "txt a = txt b \<longleftrightarrow> (\<forall>(n, l) \<in> set names. has_flag def a n \<longleftrightarrow> has_flag def b n)"
proof
  assume eq: "txt a = txt b"
  have back3: "drop_last3 (p @ add_flags def names f) @ '' | '' = p @ add_flags def names f"
    if "add_flags def names f \<noteq> []" for f
    using that drop_last3_bar unfolding add_flags_bar by blast
  have other: "drop_last3 (p @ add_flags def names f) \<noteq> CHR ''N'' # q" if ne: "add_flags def names f \<noteq> []" for f
  proof -
    obtain l r where l: "l \<in> snd ` set names" "add_flags def names f = l @ '' | '' @ r"
      using add_flags_first [OF ne] by blast
    then have ok: "2 \<le> length l" "hd (p @ l) \<noteq> CHR ''N''" using labels by auto
    then have "l \<noteq> []" by auto
    then have "hd (p @ add_flags def names f) = hd (p @ l)" by (cases p) (simp_all add: l)
    then have "hd (drop_last3 (p @ add_flags def names f) @ '' | '') \<noteq> CHR ''N''" using ok back3 [OF ne] by simp
    then show ?thesis by auto
  qed
  have same: "add_flags def names a = add_flags def names b"
  proof (cases "add_flags def names a = []")
    case True
    then have "add_flags def names b = []" using eq other [of b] unfolding t by metis
    then show ?thesis using True by simp
  next
    case False
    then have "add_flags def names b \<noteq> []" using eq other [of a] unfolding t by metis
    with False have "drop_last3 (p @ add_flags def names a) = drop_last3 (p @ add_flags def names b)"
      using eq unfolding t by (simp only: if_False)
    then show ?thesis using back3 [OF False] back3 [OF \<open>add_flags def names b \<noteq> []\<close>] by (metis same_append_eq)
  qed
  show "\<forall>(n, l) \<in> set names. has_flag def a n \<longleftrightarrow> has_flag def b n"
    by (rule add_flags_inj [OF _ inj same]) (use labels in blast)
next
  assume "\<forall>(n, l) \<in> set names. has_flag def a n \<longleftrightarrow> has_flag def b n"
  then have "add_flags def names a = add_flags def names b" by (rule add_flags_cong)
  then show "txt a = txt b" by (simp add: t)
qed

lemma msg_labels_inj: "inj_on snd (set msg_labels)"
proof -
  have "inj_on snd ((\<lambda>n. (n, n)) ` S)" for S :: "string set" by (auto simp: inj_on_def)
  then show ?thesis unfolding msg_labels_def set_map .
qed

lemma msg_flags_inj:
  "getMSGFlags def a = getMSGFlags def b \<longleftrightarrow> (\<forall>(n, l) \<in> set msg_labels. has_flag def a n \<longleftrightarrow> has_flag def b n)"
proof (rule flags_text_inj [OF _ msg_labels_inj, where p = "[]" and q = "''o flags''"])
  show "\<forall>(n, l) \<in> set msg_labels. CHR ''|'' \<notin> set l \<and> 2 \<le> length l \<and> hd ([] @ l) \<noteq> CHR ''N''"
    by (simp add: msg_labels_def)
qed (simp add: getMSGFlags_def Let_def)

lemma poll_events_inj:
  "interpretEvents def a = interpretEvents def b \<longleftrightarrow>
    (\<forall>(n, l) \<in> set poll_labels. has_flag def (scast a) n \<longleftrightarrow> has_flag def (scast b) n)"
proof -
  let ?t = "\<lambda>flags. if add_flags def poll_labels flags \<noteq> [] then drop_last3 (''POLL '' @ add_flags def poll_labels flags)
      else ''No events''"
  have "?t x = ?t y \<longleftrightarrow> (\<forall>(n, l) \<in> set poll_labels. has_flag def x n \<longleftrightarrow> has_flag def y n)" for x y
    by (rule flags_text_inj [where p = "''POLL ''" and q = "''o events''"]) (simp_all add: poll_labels_def)
  from this [of "scast a" "scast b"] show ?thesis by (simp add: interpretEvents_def Let_def)
qed

lemma epoll_events_inj:
  "interpretEpollEvents def a = interpretEpollEvents def b \<longleftrightarrow>
    (\<forall>(n, l) \<in> set epoll_labels. has_flag def a n \<longleftrightarrow> has_flag def b n)"
  by (rule flags_text_inj [where p = "''EPOLL ''" and q = "''o events''"])
    (simp_all add: epoll_labels_def interpretEpollEvents_def Let_def)


text \<open>Some values of a Linux system.\<close>

definition sample_macros :: macros where
  "sample_macros =
     map_of [(''SOL_SOCKET'', 1), (''IPPROTO_TCP'', 6), (''SO_REUSEADDR'', 2), (''TCP_NODELAY'', 1),
       (''SOCK_STREAM'', 1), (''SOCK_NONBLOCK'', 2048), (''AF_INET'', 2), (''MSG_EOR'', 128), (''MSG_DONTWAIT'', 64)]"

text \<open>\<open>MSG_EOR\<close> is printed twice; a non-blocking stream socket is of unknown type.\<close>

lemma msg_eor_twice:
  "getMSGFlags sample_macros 192 = ''MSG_EOR | MSG_DONTWAIT | MSG_EOR'' \<and>
   socket_str sample_macros 2 (1 + 2048) 0 = ''AF_INET, Unknown socket type, Unknown protocol''"
  by code_simp


end
