(* ===== verification/Stats.thy ===== *)
theory Stats
  imports Init Debug_Text
begin

text \<open>
  \<open>stats.cpp\<close>: the text that \<open>lfi_dump_stats\<close> writes to \<open>stderr\<close>, with the printing of a request
  (\<open>operator<<\<close> in \<open>lfi_request.cpp\<close>), of a pending operation, of the status of a communicator (\<open>comm.cpp\<close>) and of the pool of
  contexts (\<open>lfi_request_context.hpp\<close>). The texts of pointers, which the standard leaves to the
  implementation, and the local time are parameters. \<open>None\<close> is a null or dangling pointer.
\<close>

record text_env =
  tx_local_tm :: "int \<Rightarrow> int \<times> int \<times> int"
  tx_ctx :: "ctx \<Rightarrow> string"
  tx_waiter :: "gid \<Rightarrow> string"

definition indent :: "nat \<Rightarrow> string" where
  "indent level = concat (replicate level ''    '')"

definition format_ft_status :: "ft_status \<Rightarrow> string" where
  "format_ft_status st = (case st of IDLE \<Rightarrow> ''IDLE'' | HEARTBEAT \<Rightarrow> ''HEARTBEAT'' | FT_ERROR \<Rightarrow> ''ERROR'')"

definition op_type_text :: "op_type \<Rightarrow> string" where
  "op_type_text t =
     (case t of OpNone \<Rightarrow> ''NONE'' | OpSend \<Rightarrow> ''SEND'' | OpInject \<Rightarrow> ''INJECT'' | OpRecv \<Rightarrow> ''RECV''
              | OpPut \<Rightarrow> ''PUT'' | OpGet \<Rightarrow> ''GET'')"

definition request_text :: "text_env \<Rightarrow> request \<Rightarrow> string" where
  "request_text tx q =
     ''Request '' @ op_type_text (rq_op_type q) @
     (case rq_wait_context q of None \<Rightarrow> [] | Some c \<Rightarrow> '' ctx '' @ tx_ctx tx c) @
     '' comm '' @ format_lfi_comm (ucast (rq_comm_id q)) @
     '' {size:'' @ dec_of_nat (unat (rq_size q)) @
     '', tag:'' @ format_lfi_tag (ucast (rq_tag q)) @
     '', source:'' @ format_lfi_comm (ucast (rq_source q)) @ ''}'' @
     (if rq_wait_context q = None then '' completed'' else []) @
     (if rq_shared_wait q \<noteq> None then '' shared_wait'' else []) @
     (if rq_error q \<noteq> 0 then '' Error: '' @ lfi_strerror_impl (rq_error q) else [])"

text \<open>A pending operation (\<open>pending_ops.hpp\<close>): \<open>buf_text\<close> and \<open>ctx_text\<close> are the texts of its pointers.\<close>

definition pend_type_text :: "pend_type \<Rightarrow> string" where
  "pend_type_text t =
     (case t of PNone \<Rightarrow> ''NONE '' | PSend \<Rightarrow> ''SEND '' | PSendv \<Rightarrow> ''SENDV '' | PRecv \<Rightarrow> ''RECV ''
              | PRecvv \<Rightarrow> ''RECVV '' | PInject \<Rightarrow> ''INJECT '' | PPut \<Rightarrow> ''PUT '' | PGet \<Rightarrow> ''GET '')"

definition pending_op_text :: "(ptr \<Rightarrow> string) \<Rightarrow> (ctx option \<Rightarrow> string) \<Rightarrow> pending_op \<Rightarrow> string" where
  "pending_op_text buf_text ctx_text op =
     ''PendingOp '' @ pend_type_text (po_type op) @
     ''{buf:'' @ buf_text (po_buf op) @ '', len:'' @ dec_of_nat (unat (po_len op)) @
     (if po_type op = PPut \<or> po_type op = PGet
      then '', remote_addr: 0x'' @ hex_of_nat (unat (po_tag_remote_addr op))
      else '', tag:'' @ format_fi_tag (po_tag_remote_addr op)) @
     (if po_type op = PPut \<or> po_type op = PGet
      then '', remote_key:'' @ dec_of_nat (unat (po_ignore_remote_key op))
      else '', ignore: 0x'' @ hex_of_nat (unat (po_ignore_remote_key op))) @
     '', addr:'' @ dec_of_nat (unat (po_addr op)) @ '', context:'' @ ctx_text (po_context op) @ ''}''"

text \<open>One line for each request of a list.\<close>

fun request_lines :: "text_env \<Rightarrow> nat \<Rightarrow> 'f lfi \<Rightarrow> rid list \<Rightarrow> string option" where
  "request_lines tx level s [] = Some []"
| "request_lines tx level s (r # rs) =
     do { q \<leftarrow> l_reqs s r;
          rest \<leftarrow> request_lines tx level s rs;
          Some (indent level @ request_text tx q @ newline @ rest) }"

definition comm_lines :: "text_env \<Rightarrow> 'f lfi \<Rightarrow> cid \<times> comm option \<Rightarrow> string option" where
  "comm_lines tx s entry =
     (case entry of
        (key, None) \<Rightarrow> Some (indent 1 @ ''Comm '' @ format_lfi_comm (ucast key) @ '' nullptr'' @ newline)
      | (key, Some m) \<Rightarrow>
          do { let line = indent 1 @ ''Comm '' @ format_lfi_comm (ucast key) @
                 (if ep_is_shm (ep_of (cm_endpoint m) s) then '' SHM'' else '' PEER'') @ newline;
               if LFI_fault_tolerance (l_env s)
               then do { rs \<leftarrow> dll_walk (unat (dl_size (cm_requests m))) (dl_head (cm_requests m)) (l_rlinks s);
                         reqs \<leftarrow> request_lines tx 3 s rs;
                         Some (line @
                           indent 2 @ ''Last request: '' @
                             format_time (tx_local_tm tx) (cm_last_request_time m) @ newline @
                           indent 2 @ ''ft_requests size: '' @ dec_of_nat (unat (dl_size (cm_requests m))) @ newline @
                           reqs @
                           indent 2 @ ''ft_current_status: '' @ format_ft_status (cm_status m)) }
               else Some line })"

fun comms_lines :: "text_env \<Rightarrow> 'f lfi \<Rightarrow> (cid \<times> comm option) list \<Rightarrow> string option" where
  "comms_lines tx s [] = Some []"
| "comms_lines tx s (e # es) =
     do { line \<leftarrow> comm_lines tx s e; rest \<leftarrow> comms_lines tx s es; Some (line @ rest) }"

text \<open>The lines of \<open>ft_comms\<close>: the rank of each communicator of the list.\<close>

fun ft_comm_lines :: "'f lfi \<Rightarrow> cid list \<Rightarrow> string option" where
  "ft_comm_lines s [] = Some []"
| "ft_comm_lines s (c # cs) =
     do { m \<leftarrow> the_comm c s;
          rest \<leftarrow> ft_comm_lines s cs;
          Some (indent 2 @ ''Comm '' @ dec_of_nat (unat (cm_rank_peer m)) @ newline @ rest) }"

definition dump_endpoint :: "text_env \<Rightarrow> 'f lfi \<Rightarrow> endpoint \<Rightarrow> string option" where
  "dump_endpoint tx s e =
     do { info \<leftarrow> ep_info e;
          let head = ''Endpoint '' @ (if ep_is_shm e then ''SHM'' else ''PEER'') @
            '' provider: '' @ fi_prov_name info @ newline;
          any_reqs \<leftarrow> request_lines tx 2 s (ep_any_reqs e);
          let failed = concat (map (\<lambda>c. indent 2 @ ''Comm '' @ format_lfi_comm (ucast c) @ newline) (ep_failed e));
          cs \<leftarrow> dll_walk (unat (dl_size (ep_ft_comms e))) (dl_head (ep_ft_comms e)) (l_clinks s);
          comms \<leftarrow> ft_comm_lines s cs;
          let waiters = pg_waiters (ep_pg e);
          Some (head @
            indent 1 @ ''ft_any_comm_requests size: '' @ dec_of_nat (length (ep_any_reqs e)) @ newline @ any_reqs @
            indent 1 @ ''ft_pending_failed_comms size: '' @ dec_of_nat (length (ep_failed e)) @ newline @ failed @
            indent 1 @ ''ft_comms size: '' @ dec_of_nat (unat (dl_size (ep_ft_comms e))) @ newline @ comms @
            indent 1 @ ''num_waiters: '' @ dec_of_nat (length waiters) @ newline @
            concat (map (\<lambda>g. indent 2 @ ''Waiter '' @ tx_waiter tx g @ newline) waiters)) }"

text \<open>\<open>m_stat_created\<close> is an \<open>int32_t\<close>; subtracting the size of the queue makes it unsigned.\<close>

definition ctx_factory_dump :: "'f lfi \<Rightarrow> string" where
  "ctx_factory_dump s =
     ''lfi_request_context_factory created: '' @ dec_of_int (i32 (l_created s)) @
     '' in queue: '' @ dec_of_nat (length (l_free s)) @
     '' in usage: '' @ dec_of_nat (unat (word_of_int (i32 (l_created s)) - of_nat (length (l_free s)) :: u64)) @ newline"

definition dump_stats :: "text_env \<Rightarrow> 'f world \<Rightarrow> 'f lfi \<Rightarrow> (string \<times> 'f lfi) option" where
  "dump_stats tx w s0 =
     do { let (now, s) = clock_now w s0;
          comms \<leftarrow> comms_lines tx s (l_comms s);
          shm \<leftarrow> dump_endpoint tx s (l_shm s);
          peer \<leftarrow> dump_endpoint tx s (l_peer s);
          Some (''-------------------------------[LFI STATS BEGIN] '' @ format_time (tx_local_tm tx) now @
                  ''-------------------------------'' @ newline @
                ''Comms size '' @ dec_of_nat (length (l_comms s)) @ newline @ comms @ shm @ peer @
                ctx_factory_dump s @
                ''--------------------------------[LFI STATS END] '' @ format_time (tx_local_tm tx) now @
                  ''--------------------------------'' @ newline, s) }"

text \<open>The C interface.\<close>

definition lfi_dump_stats :: "text_env \<Rightarrow> 'f world \<Rightarrow> 'f lfi \<Rightarrow> (string \<times> 'f lfi) option" where
  "lfi_dump_stats tx w s = dump_stats tx w s"

subsection \<open>When the dump returns\<close>

text \<open>
  What the dump relies on besides the invariant of the library: identifiers are the keys of a map, the
  requests on "any" communicators exist, and the list of monitored communicators is a list of
  communicators that exist.
\<close>

definition stats_ok :: "'f lfi \<Rightarrow> bool" where
  "stats_ok s \<longleftrightarrow> distinct (map fst (l_comms s)) \<and> l_next_rid s < 2 ^ 64 \<and>
     (\<forall>e. \<forall>r \<in> set (ep_any_reqs (ep_of e s)). l_reqs s r \<noteq> None) \<and>
     (\<forall>e. \<exists>cs. dll_rep (ep_ft_comms (ep_of e s), l_clinks s) cs \<and> (\<forall>c \<in> set cs. the_comm c s \<noteq> None))"

lemma request_lines_total: "\<forall>r \<in> set rs. l_reqs s r \<noteq> None \<Longrightarrow> \<exists>txt. request_lines tx level s rs = Some txt"
  by (induction rs) auto

lemma ft_comm_lines_total: "\<forall>c \<in> set cs. the_comm c s \<noteq> None \<Longrightarrow> \<exists>txt. ft_comm_lines s cs = Some txt"
  by (induction cs) auto

lemma dll_walk_size:
  assumes "dll_rep (l, h) xs" and "length xs < 2 ^ 64"
  shows "dll_walk (unat (dl_size l)) (dl_head l) h = Some xs"
proof -
  have "unat (dl_size l) = length xs"
    using assms by (simp add: dll_rep_def unat_of_nat take_bit_nat_eq_self)
  then show ?thesis using dll_walk_rep [OF assms(1)] by simp
qed

lemma comm_lines_total:
  assumes inv: "lfi_inv s" and r: "l_next_rid s < 2 ^ 64" and m: "the_comm c s = Some m"
  shows "\<exists>txt. comm_lines tx s (c, Some m) = Some txt"
proof (cases "LFI_fault_tolerance (l_env s)")
  case True
  then obtain L where L: "ft_rep s L" "ft_sync s L" using inv by (auto simp: lfi_inv_def ft_inv_def)
  have rep: "dll_rep (cm_requests m, l_rlinks s) (L c)" using L(1) m by (simp add: ft_rep_def)
  have alive: "\<forall>r \<in> set (L c). l_reqs s r \<noteq> None" using L(2) by (auto simp: ft_sync_def in_flight_def)
  then have "set (L c) \<subseteq> {0..<l_next_rid s}"
    using inv by (metis atLeast0LessThan lessThan_iff lfi_inv_def linorder_not_le rid_inv_def subsetI)
  then have "card (set (L c)) \<le> l_next_rid s" using card_mono [of "{0..<l_next_rid s}" "set (L c)"] by simp
  then have "length (L c) \<le> l_next_rid s" using rep by (simp add: dll_rep_def distinct_card)
  then have "dll_walk (unat (dl_size (cm_requests m))) (dl_head (cm_requests m)) (l_rlinks s) = Some (L c)"
    using dll_walk_size [OF rep] r by simp
  then show ?thesis using True request_lines_total [OF alive, of tx 3] by (auto simp: comm_lines_def)
qed (simp add: comm_lines_def)

lemma comms_lines_total:
  assumes inv: "lfi_inv s" and ok: "stats_ok s"
  shows "\<exists>txt. comms_lines tx s (l_comms s) = Some txt"
proof -
  have "\<exists>txt. comms_lines tx s es = Some txt" if "set es \<subseteq> set (l_comms s)" for es
    using that
  proof (induction es)
    case (Cons e es)
    obtain c om where e: "e = (c, om)" by (cases e)
    have "\<exists>txt. comm_lines tx s e = Some txt"
    proof (cases om)
      case None
      then show ?thesis by (simp add: e comm_lines_def)
    next
      case (Some m)
      then have "map_of (l_comms s) c = Some (Some m)" using Cons.prems ok by (simp add: e stats_ok_def)
      then show ?thesis
        using comm_lines_total [OF inv, of c m tx] ok Some by (simp add: e the_comm_def stats_ok_def)
    qed
    then show ?case using Cons by auto
  qed simp
  then show ?thesis by simp
qed

lemma dump_endpoint_total:
  assumes ok: "stats_ok s" and info: "ep_info (ep_of e s) = Some i"
  shows "\<exists>txt. dump_endpoint tx s (ep_of e s) = Some txt"
proof -
  obtain cs where cs: "dll_rep (ep_ft_comms (ep_of e s), l_clinks s) cs" "\<forall>c \<in> set cs. the_comm c s \<noteq> None"
    using ok unfolding stats_ok_def by blast
  have "length cs = card (set cs)" using cs(1) by (simp add: dll_rep_def distinct_card)
  also have "\<dots> \<le> card (UNIV :: u32 set)" by (rule card_mono) simp_all
  finally have "length cs < 2 ^ 64" by (simp add: card_word)
  then have walk: "dll_walk (unat (dl_size (ep_ft_comms (ep_of e s)))) (dl_head (ep_ft_comms (ep_of e s))) (l_clinks s) = Some cs"
    by (rule dll_walk_size [OF cs(1)])
  have "\<forall>r \<in> set (ep_any_reqs (ep_of e s)). l_reqs s r \<noteq> None" using ok by (simp add: stats_ok_def)
  then obtain reqs where "request_lines tx 2 s (ep_any_reqs (ep_of e s)) = Some reqs"
    using request_lines_total by blast
  then show ?thesis using info walk ft_comm_lines_total [OF cs(2)] by (auto simp: dump_endpoint_def Let_def)
qed

lemma dump_stats_iff:
  assumes inv: "lfi_inv s" and ok: "stats_ok s"
  shows "dump_stats tx w s = None \<longleftrightarrow> ep_info (l_shm s) = None \<or> ep_info (l_peer s) = None"
proof -
  obtain now f where "w_now w (l_fab s) = (now, f)" by (cases "w_now w (l_fab s)")
  then have now: "clock_now w s = (now, s\<lparr>l_fab := f\<rparr>)" by (simp add: clock_now_def fab_def)
  let ?s = "s\<lparr>l_fab := f\<rparr>"
  have same: "lfi_inv ?s" "stats_ok ?s"
    using inv ok
    by (simp_all add: stats_ok_def lfi_inv_def ctx_inv_def holds_ctx_def rid_inv_def ft_inv_def ft_rep_def
        ft_sync_def in_flight_def comms_alive_def)
  obtain comms where comms: "comms_lines tx ?s (l_comms ?s) = Some comms" using comms_lines_total [OF same] by blast
  have one: "dump_endpoint tx ?s (ep_of e s) = None \<longleftrightarrow> ep_info (ep_of e s) = None" for e
  proof (cases "ep_info (ep_of e s)")
    case None
    then show ?thesis by (simp add: dump_endpoint_def)
  next
    case (Some i)
    then show ?thesis using dump_endpoint_total [OF same(2), of e i tx] by auto
  qed
  have all: "dump_stats tx w s = None \<longleftrightarrow>
      dump_endpoint tx ?s (l_shm ?s) = None \<or> dump_endpoint tx ?s (l_peer ?s) = None"
    unfolding dump_stats_def now Let_def prod.case comms Option.bind.bind_lunit
    by (cases "dump_endpoint tx ?s (l_shm ?s)"; cases "dump_endpoint tx ?s (l_peer ?s)")
      (simp_all only: Option.bind.bind_lunit Option.bind.bind_lzero option.distinct simp_thms)
  show ?thesis using one [of Shm] one [of Peer] all by (simp add: ep_of_def)
qed

text \<open>The number of contexts in use is what has been created and is not in the pool: the unsigned
  subtraction does not wrap.\<close>

lemma ctx_factory_usage:
  assumes inv: "ctx_inv s" and small: "l_next_ctx s < 2 ^ 31"
  shows "ctx_factory_dump s =
    ''lfi_request_context_factory created: '' @ dec_of_nat (l_next_ctx s) @
    '' in queue: '' @ dec_of_nat (length (l_free s)) @
    '' in usage: '' @ dec_of_nat (card {k. k < l_next_ctx s \<and> k \<notin> set (l_free s)}) @ newline"
proof -
  have sub: "set (l_free s) \<subseteq> {0..<l_next_ctx s}" and dist: "distinct (l_free s)"
    using inv by (auto simp: ctx_inv_def)
  have "{k. k < l_next_ctx s \<and> k \<notin> set (l_free s)} = {0..<l_next_ctx s} - set (l_free s)" by auto
  then have card: "card {k. k < l_next_ctx s \<and> k \<notin> set (l_free s)} = l_next_ctx s - length (l_free s)"
    using sub dist by (simp add: card_Diff_subset distinct_card)
  have le: "length (l_free s) \<le> l_next_ctx s" using card_mono [OF _ sub] dist by (simp add: distinct_card)
  have created: "i32 (l_created s) = int (l_next_ctx s)"
    using inv small i32_small [of "int (l_next_ctx s)"] by (simp add: ctx_inv_def)
  have "(word_of_int (int (l_next_ctx s)) :: u64) - of_nat (length (l_free s)) = of_nat (l_next_ctx s - length (l_free s))"
    using le by simp
  then have "unat ((word_of_int (int (l_next_ctx s)) :: u64) - of_nat (length (l_free s))) = l_next_ctx s - length (l_free s)"
    using small by (simp add: unat_of_nat take_bit_nat_eq_self)
  then show ?thesis by (simp add: ctx_factory_dump_def created card dec_of_int_def)
qed

subsection \<open>After the constructor\<close>

text \<open>Opening endpoints and creating the "any" communicators leaves the lists of the endpoints empty.\<close>

definition no_lists :: "endpoint \<Rightarrow> bool" where
  "no_lists x \<longleftrightarrow> ep_any_reqs x = [] \<and> ep_ft_comms x = dll_empty"

definition bare :: "'f lfi \<Rightarrow> bool" where
  "bare s \<longleftrightarrow> (\<forall>e. no_lists (ep_of e s)) \<and> distinct (map fst (l_comms s)) \<and> l_next_rid s = 0"

lemma bare_stats_ok: "bare s \<Longrightarrow> stats_ok s"
  by (auto simp: bare_def stats_ok_def no_lists_def intro!: exI [of _ "[]"])

lemma bare_upd_ep: "bare s \<Longrightarrow> (\<And>x. no_lists x \<Longrightarrow> no_lists (g x)) \<Longrightarrow> bare (upd_ep e g s)"
  by (auto simp: bare_def upd_ep_def ep_of_def split: ep_id.splits)

lemma bare_fab: "bare s \<Longrightarrow> bare (snd (fab call s))"
  by (simp add: bare_def fab_def case_prod_beta Let_def)

lemma bare_open:
  "bare s \<Longrightarrow> (\<And>h x. no_lists x \<Longrightarrow> no_lists (store h x)) \<Longrightarrow> bare (snd (open_into e call store s))"
  using bare_fab [of s call] by (auto simp: open_into_def case_prod_beta Let_def intro: bare_upd_ep)

lemma bare_chk: "bare (snd p) \<Longrightarrow> (\<And>t. bare t \<Longrightarrow> bare (snd (k t))) \<Longrightarrow> bare (snd (chk p k))"
  by (cases p) (simp add: chk_def)

lemma bare_scalable: "bare s \<Longrightarrow> bare (snd (init_scalable pv e s))"
  unfolding init_scalable_def Let_def
  by (intro bare_chk bare_open bare_fab bare_upd_ep) (simp_all add: no_lists_def add_tx_caps_def add_rx_caps_def)

lemma bare_plain: "bare s \<Longrightarrow> bare (snd (init_plain pv e s))"
  unfolding init_plain_def by (intro bare_chk bare_open bare_fab) (simp_all add: no_lists_def)

lemma bare_try: "bare s \<Longrightarrow> bare (snd (try_scalable pv e s))"
  using bare_fab [of s "pv_scalable_ep pv (ep_domain (ep_of e s)) (info_of e s)"]
  by (auto simp: try_scalable_def case_prod_beta Let_def no_lists_def intro!: bare_upd_ep)

lemma bare_init: "bare s \<Longrightarrow> bare (snd (init pv e s))"
  unfolding init_def
  by (intro bare_chk bare_open bare_try)
    (auto simp: no_lists_def intro!: bare_scalable bare_plain bare_upd_ep)

lemma bare_hints: "bare s \<Longrightarrow> bare (set_hints e p s)"
  unfolding set_hints_def by (rule bare_upd_ep) (simp_all add: no_lists_def)

lemma bare_any:
  assumes "create_any_comm w e c s = Some (k, t)" and "bare s"
  shows "bare t"
proof -
  obtain now f where "w_now w (l_fab s) = (now, f)" by (metis prod.exhaust)
  then obtain m where t: "t = set_comm c m (s\<lparr>l_fab := f, l_comms := emplace c (Some (comm_new e c now)) (l_comms s)\<rparr>)"
    using assms(1) by (auto simp: create_any_comm_def clock_now_def fab_def Let_def split: option.splits)
  show ?thesis
    using assms(2) unfolding t bare_def by (simp add: set_comm_def distinct_keys_update distinct_keys_emplace)
qed

lemma bare_mr_reg: "bare s \<Longrightarrow> bare (snd (mr_reg w a n s))"
proof -
  assume s: "bare s"
  have reg: "bare t \<Longrightarrow> bare (snd (reg_domain w d a n t))" for d t
    using bare_fab [of t "w_mr_reg w d a n"] by (simp add: reg_domain_def case_prod_beta Let_def)
  have cls: "bare t \<Longrightarrow> bare (close_mr w x t)" for x t by (simp add: close_mr_def bare_fab)
  have mrs: "bare t \<Longrightarrow> bare (t\<lparr>l_mrs := m\<rparr>)" for m t by (simp add: bare_def ep_of_def split: ep_id.splits)
  obtain peer s1 where 1: "(if ep_enable (l_peer s) then reg_domain w (ep_domain (l_peer s)) a n s
      else (Inr (0, -1), s)) = (peer, s1)" by (metis prod.exhaust)
  have s1: "bare s1" using 1 reg [OF s, of "ep_domain (l_peer s)"] s by (auto split: if_splits)
  obtain shm s2 where 2: "reg_domain w (ep_domain (l_shm s1)) a n s1 = (shm, s2)" by (metis prod.exhaust)
  have s2: "bare s2" using 2 reg [OF s1, of "ep_domain (l_shm s1)"] by simp
  show ?thesis
    using 1 2 s1 s2 by (auto simp: mr_reg_def Let_def cls mrs split: sum.splits prod.splits if_splits)
qed

lemma ft_start_after:
  assumes "bare s"
  shows "bare (ft_start w s)" and "l_shm (ft_start w s) = l_shm s"
proof -
  let ?s = "s\<lparr>l_ft_init := True\<rparr>"
  have "bare ?s" using assms by (simp add: bare_def)
  then have "bare (snd (mr_reg w LocalHeartbeat 8 ?s))" by (rule bare_mr_reg)
  then show "bare (ft_start w s)"
    using assms by (auto simp: ft_start_def setup_heartbeat_def case_prod_beta Let_def bare_def)
  show "l_shm (ft_start w s) = l_shm s"
    using but_mrs_mr_reg [of ?s w LocalHeartbeat 8]
    by (auto simp: ft_start_def setup_heartbeat_def case_prod_beta Let_def but_mrs_def)
qed

lemma any_comm_ep: "create_any_comm w e c s = Some (k, t) \<Longrightarrow> ep_of e' t = ep_of e' s \<and> l_env t = l_env s"
  by (auto simp: create_any_comm_def clock_now_def fab_def Let_def case_prod_beta set_comm_def split: option.splits)

lemma bare_init_shm: "bare s \<Longrightarrow> init_shm pv s = Some (ret, t) \<Longrightarrow> bare t"
  using bare_init [OF bare_hints [of s Shm "''''"], of pv Shm] bare_init [OF bare_hints [of s Shm "''shm''"], of pv Shm]
    bare_init [OF bare_hints, of "snd (init pv Shm (set_hints Shm ''shm'' s))" pv Shm Shm "''sm2''"]
  by (auto simp: init_shm_def Let_def case_prod_beta split: bind_splits if_splits)

lemma ctor_bare:
  assumes "lfi_ctor w pv (lfi_new cfg f) = Some (None, t)"
  shows "bare t" and "\<not> LFI_use_shm cfg \<Longrightarrow> ep_info (l_shm t) = None"
proof -
  let ?s = "lfi_new cfg f"
  obtain s1 s2 where s1: "ctor_peer w pv ?s = Some (None, s1)" and s2: "ctor_shm w pv s1 = Some (None, s2)"
    and t: "t = ft_start w s2"
    using assms by (auto simp: lfi_ctor_def split: bind_splits if_splits)
  have new: "bare ?s" "ep_enable (l_peer ?s) = False" "l_env ?s = cfg" "ep_of Shm ?s = endpoint_new True"
    by (auto simp: bare_def lfi_new_def endpoint_new_def ep_of_def no_lists_def split: ep_id.splits)
  obtain ret s0 where one: "init pv Peer (set_hints Peer '''' ?s) = (ret, s0)" by (metis prod.exhaust)
  then obtain k where any: "create_any_comm w Peer LFI_ANY_COMM_PEER s0 = Some (k, s1)"
    using s1 new by (auto simp: ctor_peer_def split: bind_splits if_splits)
  have b1: "bare s1" using bare_any [OF any] bare_init [OF bare_hints [OF new(1)], of pv Peer Peer "''''"] one by simp
  have "local_to Peer ?s s0"
    using local_to_trans [OF local_to_hints local_to_init [of Peer "set_hints Peer '''' ?s" pv]] one by simp
  then have l1: "ep_of Shm s1 = endpoint_new True" "l_env s1 = cfg"
    using any_comm_ep [OF any] new by (auto simp: local_to_def same_core_def)
  have b2: "bare s2"
  proof (cases "LFI_use_shm cfg")
    case True
    have "\<not> ep_enable (l_shm s1)" using l1(1) by (simp add: ep_of_def endpoint_new_def)
    then obtain r s3 k3 where "create_any_comm w Shm LFI_ANY_COMM_SHM s3 = Some (k3, s2)"
      "init_shm pv s1 = Some (r, s3)"
      using True s2 l1(2) by (auto simp: ctor_shm_def split: bind_splits if_splits)
    then show ?thesis using bare_any bare_init_shm [OF b1] by blast
  next
    case False
    then show ?thesis using s2 l1(2) bare_any b1 by (fastforce simp: ctor_shm_def split: bind_splits)
  qed
  then show "bare t" unfolding t by (rule ft_start_after)
  show "ep_info (l_shm t) = None" if "\<not> LFI_use_shm cfg"
  proof -
    have "ep_of Shm s2 = ep_of Shm s1"
      using that s2 l1(2) any_comm_ep by (fastforce simp: ctor_shm_def split: bind_splits)
    then show ?thesis using l1(1) ft_start_after(2) [OF b2] t by (simp add: ep_of_def endpoint_new_def)
  qed
qed

subsection \<open>Properties\<close>

text \<open>C39. The statistics crash a process that does not use shared memory. In a library as its
  constructor leaves it, with a provider that answers correctly, \<open>lfi_dump_stats\<close> returns when the
  intra-node endpoint is enabled; without it that endpoint has no \<open>info\<close>, and the dump dereferences the
  null pointer.\<close>

theorem stats_need_shm:
  assumes "lfi_ctor w pv (lfi_new cfg f) = Some (None, s)" and "provider_ok pv" and "provider_signed pv"
  shows "lfi_dump_stats tx w s = None \<longleftrightarrow> \<not> LFI_use_shm cfg"
proof -
  obtain s1 s2 where s1: "ctor_peer w pv (lfi_new cfg f) = Some (None, s1)" and s2: "ctor_shm w pv s1 = Some (None, s2)"
    and s: "s = ft_start w s2"
    using assms(1) by (auto simp: lfi_ctor_def split: bind_splits if_splits)
  have "all_done cfg s2" using ctor_shm_ok [OF s2] ctor_peer_ok [OF s1] assms(2,3) by blast
  then have d: "all_done cfg s" unfolding s by (rule all_done_ft_start)
  then have "lfi_inv s" using pristine_inv by (auto simp: all_done_def peer_done_def)
  then have "dump_stats tx w s = None \<longleftrightarrow> ep_info (l_shm s) = None \<or> ep_info (l_peer s) = None"
    by (rule dump_stats_iff [OF _ bare_stats_ok [OF ctor_bare(1) [OF assms(1)]]])
  then show ?thesis
    using d ctor_bare(2) [OF assms(1)] by (auto simp: all_done_def peer_done_def ep_ready_def lfi_dump_stats_def)
qed

definition sample_text :: text_env where
  "sample_text = \<lparr>tx_local_tm = (\<lambda>_. (12, 30, 5)), tx_ctx = (\<lambda>_. ''0x10''), tx_waiter = (\<lambda>_. ''0x20'')\<rparr>"

lemma stats_need_shm_witness:
  "\<exists>s. lfi_ctor sample_world sample_provider (lfi_new (env_default\<lparr>LFI_use_shm := False\<rparr>) sample0) = Some (None, s) \<and>
    lfi_dump_stats sample_text sample_world s = None"
proof -
  let ?cfg = "env_default\<lparr>LFI_use_shm := False\<rparr>"
  have "map_option fst (lfi_ctor sample_world sample_provider (lfi_new ?cfg sample0)) = Some None" by code_simp
  then obtain s where s: "lfi_ctor sample_world sample_provider (lfi_new ?cfg sample0) = Some (None, s)" by auto
  have ok: "provider_ok sample_provider" "provider_signed sample_provider"
    by (simp_all add: provider_ok_def provider_signed_def sample_provider_def gives_def signed_def nonpos_def fi_consts)
  from stats_need_shm [OF s ok, of sample_text] show ?thesis using s by simp
qed

end
