(* ===== verification/Profiler.thy ===== *)
theory Profiler
  imports Debug_Text
begin

text \<open>
  \<open>include/impl/profiler.hpp\<close>: the profiler of a build with \<open>LFI_PROFILE\<close>. Timers hand their
  measurements to the only instance, which collects them in a buffer; a full buffer is copied to a
  task of \<open>std::async\<close> that renders it and appends the text to the file of the session. The state has
  the members of class \<open>profiler\<close>, the tasks and the files. One event is one critical section of
  \<open>m_mutex\<close> or one access of a task to what the tasks share, the atomic \<open>m_first_dump\<close> and the file, so
  that a list of events is an interleaving of the threads. Calls that hold \<open>m_mutex\<close> exclude each
  other; \<open>end_session\<close> holds it through all its events (\<open>p_ending\<close>). The name \<open>'t\<close> stands for
  \<open>std::thread::id\<close>, whose text is a parameter, and each opening of a file carries its outcome.
\<close>

subsection \<open>Entries\<close>

datatype profiler_name = Name_Ptr string | Name_Str string

record 't profiler_data =
  m_pid :: int
  m_tid :: 't
  m_name :: profiler_name
  m_start :: u32
  m_duration :: u32

definition dump_data :: "('t \<Rightarrow> string) \<Rightarrow> 't profiler_data \<Rightarrow> bool \<Rightarrow> string" where
  "dump_data tid_text d is_first =
     (if is_first then [] else '','') @ ''{'' @
     ''\"cat\":\"function\",'' @
     ''\"dur\":'' @ dec_of_nat (unat (m_duration d)) @ '','' @
     ''\"tdur\":'' @ dec_of_nat (unat (m_duration d)) @ '','' @
     (case m_name d of
        Name_Ptr s \<Rightarrow> ''\"name\":\"'' @ s @ ''\",''
      | Name_Str s \<Rightarrow> ''\"name\":\"'' @ s @ ''\",'') @
     ''\"ph\":\"X\",'' @
     ''\"pid\":\"'' @ dec_of_int (m_pid d) @ ''\",'' @
     ''\"tid\":'' @ tid_text (m_tid d) @ '','' @
     ''\"ts\":'' @ dec_of_nat (unat (m_start d)) @ '','' @
     ''\"tts\":'' @ dec_of_nat (unat (m_start d)) @ ''}'' @ newline"

definition get_header :: string where
  "get_header = ''{\"otherData\": {},\"traceEvents\":['' @ newline"

definition get_footer :: string where
  "get_footer = '']}''"

definition m_buffer_cap :: nat where
  "m_buffer_cap = 1024"

subsection \<open>The profiler, its tasks and the files\<close>

text \<open>
  A task has copied its entries (\<open>t_msg\<close>, those not rendered yet) and the name of the file. A future
  in \<open>p_futs\<close> is the number of its task, and whether it is still valid.
\<close>

record 't task =
  t_session :: string
  t_msg :: "'t profiler_data list"
  t_ss :: string
  t_done :: bool

record 't profiler =
  p_session :: string
  p_futs :: "(nat \<times> bool) list"
  p_buffer :: "'t profiler_data list"
  p_first_dump :: bool
  p_ending :: bool
  p_tasks :: "'t task list"
  p_files :: "string \<Rightarrow> string option"

definition profiler_new :: "(string \<Rightarrow> string option) \<Rightarrow> 't profiler" where
  "profiler_new fs =
    \<lparr>p_session = [], p_futs = [], p_buffer = [], p_first_dump = True, p_ending = False,
     p_tasks = [], p_files = fs\<rparr>"

text \<open>An \<open>ofstream\<close> that truncates, and one that appends.\<close>

definition file_out :: "bool \<Rightarrow> string \<Rightarrow> string \<Rightarrow> 't profiler \<Rightarrow> 't profiler" where
  "file_out is_open name str s = (if is_open then s\<lparr>p_files := (p_files s)(name \<mapsto> str)\<rparr> else s)"

definition file_app :: "bool \<Rightarrow> string \<Rightarrow> string \<Rightarrow> 't profiler \<Rightarrow> 't profiler" where
  "file_app is_open name str s =
     (if is_open
      then s\<lparr>p_files := (p_files s)(name \<mapsto> (case p_files s name of None \<Rightarrow> str | Some old \<Rightarrow> old @ str))\<rparr>
      else s)"

definition fut_ready :: "'t profiler \<Rightarrow> nat \<times> bool \<Rightarrow> bool" where
  "fut_ready s fut = (snd fut \<and> t_done (p_tasks s ! fst fut))"

definition save_data :: "'t profiler_data list \<Rightarrow> 't profiler \<Rightarrow> 't profiler" where
  "save_data msg s =
     s\<lparr>p_futs := filter (\<lambda>fut. \<not> fut_ready s fut) (p_futs s) @ [(length (p_tasks s), True)],
       p_tasks := p_tasks s @ [\<lparr>t_session = p_session s, t_msg = msg, t_ss = [], t_done = False\<rparr>]\<rparr>"

definition begin_session :: "bool \<Rightarrow> string \<Rightarrow> 't profiler \<Rightarrow> 't profiler" where
  "begin_session is_open name s =
     file_out is_open name get_header (s\<lparr>p_buffer := [], p_session := name\<rparr>)"

text \<open>The constructor: \<open>exe\<close> is the link that \<open>file_exe_name\<close> reads, \<open>pid\<close> the result of \<open>getpid\<close>.\<close>

definition profile_name :: "string option \<Rightarrow> int \<Rightarrow> string" where
  "profile_name exe pid = file_exe_name exe @ ''.profile.'' @ dec_of_int pid @ ''.json''"

definition profiler_ctor :: "bool \<Rightarrow> string option \<Rightarrow> int \<Rightarrow> (string \<Rightarrow> string option) \<Rightarrow> 't profiler" where
  "profiler_ctor is_open exe pid fs = begin_session is_open (profile_name exe pid) (profiler_new fs)"

definition write_profile :: "'t profiler_data \<Rightarrow> 't profiler \<Rightarrow> 't profiler" where
  "write_profile d s =
     (if p_session s \<noteq> []
      then let s1 = s\<lparr>p_buffer := p_buffer s @ [d]\<rparr>
           in if m_buffer_cap \<le> length (p_buffer s1)
              then (save_data (p_buffer s1) s1)\<lparr>p_buffer := []\<rparr>
              else s1
      else s)"

text \<open>
  \<open>end_session\<close> in three kinds of events: taking the mutex and handing over what is left,
  \<open>get()\<close> on one future, and the footer. The parameter of \<open>save_data\<close> is an rvalue reference to a
  constant, so the capture copies the buffer and \<open>m_buffer\<close> keeps its entries.
\<close>

definition end_enter :: "'t profiler \<Rightarrow> 't profiler" where
  "end_enter s = (if 0 < length (p_buffer s) then save_data (p_buffer s) s else s)\<lparr>p_ending := True\<rparr>"

fun get_first :: "('a \<Rightarrow> bool) \<Rightarrow> ('a \<times> bool) list \<Rightarrow> ('a \<times> bool) list option" where
  "get_first done [] = None"
| "get_first done ((i, valid) # futs) =
     (if valid then if done i then Some ((i, False) # futs) else None
      else map_option (\<lambda>r. (i, valid) # r) (get_first done futs))"

definition end_get :: "'t profiler \<Rightarrow> 't profiler option" where
  "end_get s = map_option (\<lambda>futs. s\<lparr>p_futs := futs\<rparr>) (get_first (\<lambda>i. t_done (p_tasks s ! i)) (p_futs s))"

definition end_footer :: "bool \<Rightarrow> 't profiler \<Rightarrow> 't profiler option" where
  "end_footer is_open s =
     (if \<exists>fut \<in> set (p_futs s). snd fut then None
      else Some ((file_app is_open (p_session s) get_footer s)\<lparr>p_ending := False\<rparr>))"

text \<open>A task: one round of its loop, and the critical section of \<open>m_write_mutex\<close>.\<close>

definition task_dump :: "('t \<Rightarrow> string) \<Rightarrow> nat \<Rightarrow> 't profiler \<Rightarrow> 't profiler option" where
  "task_dump tid_text i s =
     (if i < length (p_tasks s)
      then let t = p_tasks s ! i
           in case t_msg t of
                [] \<Rightarrow> None
              | d # msg \<Rightarrow>
                  Some (s\<lparr>p_tasks := (p_tasks s)[i := t\<lparr>t_msg := msg,
                             t_ss := t_ss t @ dump_data tid_text d (p_first_dump s)\<rparr>],
                          p_first_dump := False\<rparr>)
      else None)"

definition task_append :: "nat \<Rightarrow> bool \<Rightarrow> 't profiler \<Rightarrow> 't profiler option" where
  "task_append i is_open s =
     (if i < length (p_tasks s) \<and> t_msg (p_tasks s ! i) = [] \<and> \<not> t_done (p_tasks s ! i)
      then let t = p_tasks s ! i
           in Some ((file_app is_open (t_session t) (t_ss t) s)\<lparr>p_tasks := (p_tasks s)[i := t\<lparr>t_done := True\<rparr>]\<rparr>)
      else None)"

datatype 't profiler_event =
    Begin_Session bool string
  | Write_Profile "'t profiler_data"
  | End_Enter
  | End_Get
  | End_Footer bool
  | Task_Dump nat
  | Task_Append nat bool

fun profiler_step :: "('t \<Rightarrow> string) \<Rightarrow> 't profiler_event \<Rightarrow> 't profiler \<Rightarrow> 't profiler option" where
  "profiler_step tt (Begin_Session ok name) s = (if p_ending s then None else Some (begin_session ok name s))"
| "profiler_step tt (Write_Profile d) s = (if p_ending s then None else Some (write_profile d s))"
| "profiler_step tt End_Enter s = (if p_ending s then None else Some (end_enter s))"
| "profiler_step tt End_Get s = (if p_ending s then end_get s else None)"
| "profiler_step tt (End_Footer ok) s = (if p_ending s then end_footer ok s else None)"
| "profiler_step tt (Task_Dump i) s = task_dump tt i s"
| "profiler_step tt (Task_Append i ok) s = task_append i ok s"

fun profiler_run :: "('t \<Rightarrow> string) \<Rightarrow> 't profiler_event list \<Rightarrow> 't profiler \<Rightarrow> 't profiler option" where
  "profiler_run tt [] s = Some s"
| "profiler_run tt (e # es) s = do { s1 \<leftarrow> profiler_step tt e s; profiler_run tt es s1 }"

interpretation profiling: event_runs "profiler_step tt" "profiler_run tt" for tt
  by unfold_locales (simp_all cong: Option.bind_cong)

lemmas profiler_run_append = profiling.run_append

subsection \<open>Timers\<close>

text \<open>\<open>concatenate\<close> receives its arguments as their texts. Times are nanosecond counts.\<close>

fun concatenate :: "string list \<Rightarrow> string" where
  "concatenate [] = []"
| "concatenate [value] = value"
| "concatenate (value # rest) = value @ '', '' @ concatenate rest"

record profiler_timer =
  tm_name :: "string option"
  tm_name_str :: string
  tm_start_timepoint :: int
  tm_stopped :: bool

definition timer_of_name :: "string \<Rightarrow> int \<Rightarrow> profiler_timer" where
  "timer_of_name name now =
     \<lparr>tm_name = Some name, tm_name_str = [], tm_start_timepoint = now, tm_stopped = False\<rparr>"

definition timer_of_args :: "string list \<Rightarrow> int \<Rightarrow> profiler_timer" where
  "timer_of_args args now =
     \<lparr>tm_name = None, tm_name_str = concatenate args, tm_start_timepoint = now, tm_stopped = False\<rparr>"

definition us_of_ns :: "int \<Rightarrow> int" where
  "us_of_ns x = (if 0 \<le> x then x div 1000 else - ((- x) div 1000))"

text \<open>\<open>Stop\<close>: the call of \<open>write_profile\<close> by thread \<open>tid\<close>, and the stopped timer.\<close>

definition timer_stop :: "int \<Rightarrow> 't \<Rightarrow> int \<Rightarrow> profiler_timer \<Rightarrow> 't profiler_event \<times> profiler_timer" where
  "timer_stop pid tid now tm =
     (let start = us_of_ns (tm_start_timepoint tm);
          elapsed_time = us_of_ns (now - tm_start_timepoint tm);
          name = (case tm_name tm of None \<Rightarrow> Name_Str (tm_name_str tm) | Some s \<Rightarrow> Name_Ptr s)
      in (Write_Profile \<lparr>m_pid = pid, m_tid = tid, m_name = name, m_start = word_of_int start,
                         m_duration = word_of_int elapsed_time\<rparr>,
          tm\<lparr>tm_stopped := True\<rparr>))"

definition timer_dtor :: "int \<Rightarrow> 't \<Rightarrow> int \<Rightarrow> profiler_timer \<Rightarrow> 't profiler_event list" where
  "timer_dtor pid tid now tm = (if tm_stopped tm then [] else [fst (timer_stop pid tid now tm)])"

text \<open>
  The start is narrowed to 32 bits: two measurements that begin \<open>2^32\<close> microseconds (less than 72
  minutes) apart have the same time stamp.
\<close>

lemma timer_start_wraps:
  assumes "0 \<le> t"
  shows "timer_stop pid tid (t + 1000 * 2 ^ 32 + e) (timer_of_name n (t + 1000 * 2 ^ 32)) =
    (fst (timer_stop pid tid (t + e) (timer_of_name n t)),
     (timer_of_name n (t + 1000 * 2 ^ 32))\<lparr>tm_stopped := True\<rparr>)"
proof -
  have "us_of_ns (t + 1000 * 2 ^ 32) = us_of_ns t + 2 ^ 32"
    using assms by (simp add: us_of_ns_def)
  then have "(word_of_int (us_of_ns (t + 1000 * 2 ^ 32)) :: u32) = word_of_int (us_of_ns t)"
    by (simp add: word_of_int_eq_iff take_bit_eq_mod)
  then show ?thesis by (simp add: timer_stop_def timer_of_name_def Let_def)
qed

end
