(* ===== verification/Profiler_Session.thy ===== *)
theory Profiler_Session
  imports Profiler "HOL-Library.Multiset"
begin

text \<open>
  What the file of a session holds. The measurements of a session are cut into batches of
  \<open>m_buffer_cap\<close>, the last one shorter, and each batch is the work of one task. The invariant
  \<open>session_inv\<close> relates the state to the batches handed over so far (\<open>bs\<close>, by task), to the task that
  took \<open>m_first_dump\<close> (\<open>ff\<close>), and to the order in which tasks have appended their text (\<open>ord\<close>); every
  event of every interleaving keeps it.
\<close>

subsection \<open>Batches and their text\<close>

function batches :: "'a list \<Rightarrow> 'a list list" where
  "batches [] = []"
| "ws \<noteq> [] \<Longrightarrow> batches ws = take m_buffer_cap ws # batches (drop m_buffer_cap ws)"
  by auto
termination
  by (relation "measure length") (auto simp: m_buffer_cap_def)

lemma batches_short: "ws \<noteq> [] \<Longrightarrow> length ws \<le> m_buffer_cap \<Longrightarrow> batches ws = [ws]"
  by simp

lemma batches_concat:
  assumes "\<forall>b \<in> set bs. length b = m_buffer_cap" and "length buf < m_buffer_cap"
  shows "batches (concat bs @ buf) = bs @ (if buf = [] then [] else [buf])"
  using assms(1)
proof (induction bs)
  case Nil
  then show ?case using assms(2) by (cases "buf = []") (simp_all add: batches_short)
next
  case (Cons b bs)
  then have "length b = m_buffer_cap" and "b \<noteq> []" by (auto simp: m_buffer_cap_def)
  with Cons show ?case by simp
qed

lemma concat_batches: "concat (batches ws) = ws"
proof (induction ws rule: batches.induct)
  case (2 ws)
  then show ?case by (subst batches.simps(2)) simp_all
qed simp

text \<open>The text of a batch, whose first entry has no comma before it when \<open>f\<close> holds.\<close>

fun render :: "('t \<Rightarrow> string) \<Rightarrow> bool \<Rightarrow> 't profiler_data list \<Rightarrow> string" where
  "render tt f [] = []"
| "render tt f (d # ds) = dump_data tt d f @ concat (map (\<lambda>d. dump_data tt d False) ds)"

lemma render_snoc:
  "render tt f (ds @ [d]) = render tt f ds @ dump_data tt d (f \<and> ds = [])"
  by (cases ds) simp_all

lemma render_comma: "ds \<noteq> [] \<Longrightarrow> \<exists>rest. render tt False ds = CHR '','' # rest"
  by (cases ds) (simp_all add: dump_data_def)

subsection \<open>The invariant\<close>

definition task_ok ::
  "('t \<Rightarrow> string) \<Rightarrow> string \<Rightarrow> bool \<Rightarrow> bool \<Rightarrow> 't profiler_data list \<Rightarrow> 't task \<Rightarrow> bool" where
  "task_ok tt name mine taken b t \<longleftrightarrow>
     t_session t = name \<and> b \<noteq> [] \<and> (t_done t \<longrightarrow> t_msg t = []) \<and>
     (\<exists>pre. b = pre @ t_msg t \<and> t_ss t = render tt mine pre \<and> (pre \<noteq> [] \<longrightarrow> taken) \<and> (mine \<longrightarrow> pre \<noteq> []))"

definition session_inv ::
  "('t \<Rightarrow> string) \<Rightarrow> string \<Rightarrow> 't profiler_data list list \<Rightarrow> nat option \<Rightarrow> nat list \<Rightarrow> 't profiler \<Rightarrow> bool" where
  "session_inv tt name bs ff ord s \<longleftrightarrow>
     p_session s = name \<and> name \<noteq> [] \<and> length bs = length (p_tasks s) \<and>
     (\<forall>i < length bs. task_ok tt name (ff = Some i) (ff \<noteq> None) (bs ! i) (p_tasks s ! i)) \<and>
     (p_first_dump s \<longleftrightarrow> ff = None) \<and> (\<forall>i. ff = Some i \<longrightarrow> i < length bs) \<and>
     distinct ord \<and> set ord = {i. i < length bs \<and> t_done (p_tasks s ! i)} \<and>
     p_files s name = Some (get_header @ concat (map (\<lambda>i. render tt (ff = Some i) (bs ! i)) ord)) \<and>
     (\<forall>i < length bs. (i, True) \<in> set (p_futs s) \<or> t_done (p_tasks s ! i)) \<and>
     (\<forall>fut \<in> set (p_futs s). fst fut < length bs) \<and> distinct (map fst (p_futs s))"

lemma session_inv_cong [simp]:
  "session_inv tt name bs ff ord (s\<lparr>p_buffer := b\<rparr>) = session_inv tt name bs ff ord s"
  "session_inv tt name bs ff ord (s\<lparr>p_ending := e\<rparr>) = session_inv tt name bs ff ord s"
  by (simp_all add: session_inv_def)

lemma session_inv_begin:
  "name \<noteq> [] \<Longrightarrow> session_inv tt name [] None [] (begin_session True name (profiler_new fs))"
  by (simp add: session_inv_def begin_session_def file_out_def profiler_new_def)

lemma session_inv_save:
  assumes inv: "session_inv tt name bs ff ord s" and msg: "msg \<noteq> []"
  shows "session_inv tt name (bs @ [msg]) ff ord (save_data msg s)"
proof -
  have old: "(bs @ [msg]) ! i = bs ! i \<and> p_tasks (save_data msg s) ! i = p_tasks s ! i" if "i < length bs" for i
    using that inv by (simp add: session_inv_def save_data_def nth_append)
  have ord: "i < length bs" if "i \<in> set ord" for i
    using that inv by (auto simp: session_inv_def)
  have texts: "map (\<lambda>i. render tt (ff = Some i) ((bs @ [msg]) ! i)) ord = map (\<lambda>i. render tt (ff = Some i) (bs ! i)) ord"
    using ord by (simp add: nth_append)
  have none: "ff \<noteq> Some (length bs)" using inv by (auto simp: session_inv_def)
  have len: "length (p_tasks s) = length bs" and name: "p_session s = name"
    using inv by (simp_all add: session_inv_def)
  have tasks: "task_ok tt name (ff = Some i) (ff \<noteq> None) ((bs @ [msg]) ! i) (p_tasks (save_data msg s) ! i)"
    if "i < Suc (length bs)" for i
  proof (cases "i < length bs")
    case True
    then show ?thesis using inv old [OF True] by (simp add: session_inv_def)
  next
    case False
    then have "i = length bs" using that by simp
    then show ?thesis using msg none len name by (simp add: task_ok_def save_data_def nth_append)
  qed
  have finished: "{i. i < Suc (length bs) \<and> t_done (p_tasks (save_data msg s) ! i)} =
      {i. i < length bs \<and> t_done (p_tasks s ! i)}"
    using old len by (auto simp: less_Suc_eq save_data_def nth_append)
  have futs: "(i, True) \<in> set (p_futs (save_data msg s)) \<or> t_done (p_tasks (save_data msg s) ! i)"
    if "i < Suc (length bs)" for i
    using that inv old [of i] len
    by (cases "i < length bs") (auto simp: session_inv_def save_data_def fut_ready_def)
  have range: "fst fut < Suc (length bs)" if "fut \<in> set (p_futs (save_data msg s))" for fut
    using that inv by (auto simp: session_inv_def save_data_def less_Suc_eq)
  have dist: "distinct (map fst (p_futs (save_data msg s)))"
    using inv len by (auto simp: session_inv_def save_data_def distinct_map inj_on_def)
  have lt: "i < Suc (length bs)" if "ff = Some i" for i using that inv by (simp add: session_inv_def less_SucI)
  have rest: "p_files (save_data msg s) = p_files s" "p_session (save_data msg s) = p_session s"
      "p_first_dump (save_data msg s) = p_first_dump s" "length (p_tasks (save_data msg s)) = Suc (length bs)"
    using len by (simp_all add: save_data_def)
  show ?thesis
    unfolding session_inv_def rest texts length_append list.size
    using inv tasks finished futs range lt dist by (simp add: session_inv_def)
qed


lemma task_ok_dump:
  assumes ok: "task_ok tt name mine taken b t" and msg: "t_msg t = d # msg" and f: "f \<longleftrightarrow> \<not> taken"
    and mine': "mine' \<longleftrightarrow> mine \<or> \<not> taken"
  shows "task_ok tt name mine' True b (t\<lparr>t_msg := msg, t_ss := t_ss t @ dump_data tt d f\<rparr>)"
proof -
  obtain pre where pre: "b = pre @ d # msg" "t_ss t = render tt mine pre" "pre \<noteq> [] \<longrightarrow> taken" "mine \<longrightarrow> pre \<noteq> []"
    using ok msg by (auto simp: task_ok_def)
  then have "b = (pre @ [d]) @ msg \<and> t_ss t @ dump_data tt d f = render tt mine' (pre @ [d])"
    using f mine' by (cases "pre = []") (auto simp: render_snoc)
  moreover have "\<not> t_done t" "b \<noteq> []" "t_session t = name" using ok msg by (auto simp: task_ok_def)
  ultimately show ?thesis unfolding task_ok_def by fastforce
qed

lemma task_ok_taken: "task_ok tt name mine taken b t \<Longrightarrow> task_ok tt name mine True b t"
  by (auto simp: task_ok_def)

lemma session_inv_dump:
  assumes inv: "session_inv tt name bs ff ord s" and run: "task_dump tt i s = Some s'"
  shows "\<exists>ff'. session_inv tt name bs ff' ord s'"
proof -
  define ff' where "ff' = (if ff = None then Some i else ff)"
  have i: "i < length (p_tasks s)" using run by (simp add: task_dump_def split: if_splits)
  obtain d msg where msg: "t_msg (p_tasks s ! i) = d # msg"
    using run i by (auto simp: task_dump_def Let_def split: list.splits)
  have s': "s' = s\<lparr>p_tasks := (p_tasks s)[i := (p_tasks s ! i)\<lparr>t_msg := msg,
      t_ss := t_ss (p_tasks s ! i) @ dump_data tt d (p_first_dump s)\<rparr>], p_first_dump := False\<rparr>"
    using run i msg by (simp add: task_dump_def Let_def)
  have mine: "ff' = Some j \<longleftrightarrow> ff = Some j" if "j \<noteq> i" for j using that by (simp add: ff'_def)
  have oki: "task_ok tt name (ff = Some i) (ff \<noteq> None) (bs ! i) (p_tasks s ! i)"
    using inv i by (simp add: session_inv_def)
  have undone: "\<not> t_done (p_tasks s ! i)" using oki msg by (auto simp: task_ok_def)
  have tasks: "task_ok tt name (ff' = Some j) True (bs ! j) (p_tasks s' ! j)" if "j < length (p_tasks s)" for j
  proof (cases "j = i")
    case True
    have "task_ok tt name (ff' = Some i) True (bs ! i) ((p_tasks s ! i)\<lparr>t_msg := msg,
        t_ss := t_ss (p_tasks s ! i) @ dump_data tt d (p_first_dump s)\<rparr>)"
      by (rule task_ok_dump [OF oki msg]) (use inv in \<open>auto simp: session_inv_def ff'_def\<close>)
    then show ?thesis using True i by (simp add: s')
  next
    case False
    then have "task_ok tt name (ff = Some j) (ff \<noteq> None) (bs ! j) (p_tasks s ! j)"
      using inv that by (simp add: session_inv_def)
    then show ?thesis using False mine by (auto simp: s' intro: task_ok_taken)
  qed
  have texts: "map (\<lambda>j. render tt (ff' = Some j) (bs ! j)) ord = map (\<lambda>j. render tt (ff = Some j) (bs ! j)) ord"
  proof (intro map_cong refl)
    fix j assume "j \<in> set ord"
    then have "j \<noteq> i" using inv undone by (auto simp: session_inv_def)
    then show "render tt (ff' = Some j) (bs ! j) = render tt (ff = Some j) (bs ! j)" by (simp add: mine)
  qed
  have finished: "t_done (p_tasks s' ! j) = t_done (p_tasks s ! j)" for j
    using undone i by (cases "j = i") (simp_all add: s')
  have rest: "p_files s' = p_files s" "p_session s' = p_session s" "\<not> p_first_dump s'" "ff' \<noteq> None"
      "length (p_tasks s') = length (p_tasks s)" "p_futs s' = p_futs s"
    by (simp_all add: s' ff'_def)
  have "session_inv tt name bs ff' ord s'"
    unfolding session_inv_def rest texts finished
    using inv tasks i rest by (auto simp: session_inv_def ff'_def)
  then show ?thesis ..
qed

lemma session_inv_append:
  assumes inv: "session_inv tt name bs ff ord s" and run: "task_append i True s = Some s'"
  shows "session_inv tt name bs ff (ord @ [i]) s'"
proof -
  let ?t = "p_tasks s ! i"
  have i: "i < length (p_tasks s)" and msg: "t_msg ?t = []" and undone: "\<not> t_done ?t"
    using run by (simp_all add: task_append_def split: if_splits)
  have s': "s' = (file_app True (t_session ?t) (t_ss ?t) s)\<lparr>p_tasks := (p_tasks s)[i := ?t\<lparr>t_done := True\<rparr>]\<rparr>"
    using run i msg undone by (simp add: task_append_def Let_def)
  have ok: "task_ok tt name (ff = Some i) (ff \<noteq> None) (bs ! i) ?t"
    using inv i by (simp add: session_inv_def)
  then have t: "t_session ?t = name" "t_ss ?t = render tt (ff = Some i) (bs ! i)"
    using msg by (auto simp: task_ok_def)
  have tasks: "task_ok tt name (ff = Some j) (ff \<noteq> None) (bs ! j) (p_tasks s' ! j)" if "j < length (p_tasks s)" for j
    using that inv ok i msg by (cases "j = i") (simp_all add: s' session_inv_def task_ok_def file_app_def)
  have finished: "t_done (p_tasks s' ! j) \<longleftrightarrow> t_done (p_tasks s ! j) \<or> j = i" if "j < length (p_tasks s)" for j
    using that i by (cases "j = i") (simp_all add: s' file_app_def)
  have rest: "p_session s' = p_session s" "p_first_dump s' = p_first_dump s" "p_futs s' = p_futs s"
      "length (p_tasks s') = length (p_tasks s)"
    by (simp_all add: s' file_app_def)
  have contents: "p_files s' name = Some (get_header @
      concat (map (\<lambda>j. render tt (ff = Some j) (bs ! j)) (ord @ [i])))"
    using inv t by (simp add: s' file_app_def session_inv_def)
  have fresh: "i \<notin> set ord" using inv undone by (simp add: session_inv_def)
  have ordset: "set (ord @ [i]) = {j. j < length bs \<and> t_done (p_tasks s' ! j)}"
    using inv finished i by (auto simp: session_inv_def)
  show ?thesis
    unfolding session_inv_def rest contents ordset
    using inv tasks finished fresh i by (auto simp: session_inv_def)
qed

lemma get_first_map: "get_first f futs = Some futs' \<Longrightarrow> map fst futs' = map fst futs"
  by (induction f futs arbitrary: futs' rule: get_first.induct) (auto split: if_splits)

lemma get_first_valid:
  "get_first f futs = Some futs' \<Longrightarrow> (i, True) \<in> set futs \<Longrightarrow> (i, True) \<in> set futs' \<or> f i"
  by (induction f futs arbitrary: futs' rule: get_first.induct) (auto split: if_splits)

lemma session_inv_get:
  assumes inv: "session_inv tt name bs ff ord s" and run: "end_get s = Some s'"
  shows "session_inv tt name bs ff ord s'"
proof -
  obtain futs where futs: "get_first (\<lambda>i. t_done (p_tasks s ! i)) (p_futs s) = Some futs"
    and s': "s' = s\<lparr>p_futs := futs\<rparr>"
    using run by (auto simp: end_get_def)
  have "fst ` set futs = fst ` set (p_futs s)"
    using get_first_map [OF futs] by (metis set_map)
  then have "fst fut < length bs" if "fut \<in> set futs" for fut
    using that inv by (force simp: session_inv_def)
  moreover have "(i, True) \<in> set futs \<or> t_done (p_tasks s ! i)" if "i < length bs" for i
    using that inv get_first_valid [OF futs, of i] by (auto simp: session_inv_def)
  ultimately show ?thesis
    using inv get_first_map [OF futs] unfolding session_inv_def s' by auto
qed

subsection \<open>Sessions\<close>

definition written_by :: "'t profiler_event \<Rightarrow> 't profiler_data list" where
  "written_by e = (case e of Write_Profile d \<Rightarrow> [d] | _ \<Rightarrow> [])"

definition written :: "'t profiler_event list \<Rightarrow> 't profiler_data list" where
  "written es = concat (map written_by es)"

text \<open>
  What happens before \<open>end_session\<close> takes the mutex, and what happens until it writes the footer,
  when the file can be opened.
\<close>

fun before_end :: "'t profiler_event \<Rightarrow> bool" where
  "before_end (Write_Profile d) = True"
| "before_end (Task_Dump i) = True"
| "before_end (Task_Append i ok) = ok"
| "before_end _ = False"

fun during_end :: "'t profiler_event \<Rightarrow> bool" where
  "during_end End_Get = True"
| "during_end (Task_Dump i) = True"
| "during_end (Task_Append i ok) = ok"
| "during_end _ = False"

definition open_inv :: "('t \<Rightarrow> string) \<Rightarrow> string \<Rightarrow> 't profiler_data list \<Rightarrow> 't profiler \<Rightarrow> bool" where
  "open_inv tt name ws s \<longleftrightarrow>
     (\<exists>bs ff ord. session_inv tt name bs ff ord s \<and> \<not> p_ending s \<and> concat bs @ p_buffer s = ws \<and>
        (\<forall>b \<in> set bs. length b = m_buffer_cap) \<and> length (p_buffer s) < m_buffer_cap)"

definition closing_inv :: "('t \<Rightarrow> string) \<Rightarrow> string \<Rightarrow> 't profiler_data list \<Rightarrow> 't profiler \<Rightarrow> bool" where
  "closing_inv tt name ws s \<longleftrightarrow> (\<exists>ff ord. session_inv tt name (batches ws) ff ord s) \<and> p_ending s"

lemma task_frame:
  "task_dump tt i s = Some s' \<Longrightarrow> p_buffer s' = p_buffer s \<and> p_ending s' = p_ending s \<and> p_futs s' = p_futs s"
  "task_append i ok s = Some s' \<Longrightarrow> p_buffer s' = p_buffer s \<and> p_ending s' = p_ending s \<and> p_futs s' = p_futs s"
  "end_get s = Some s' \<Longrightarrow> p_buffer s' = p_buffer s \<and> p_ending s' = p_ending s \<and> p_tasks s' = p_tasks s"
  by (auto simp: task_dump_def task_append_def file_app_def end_get_def Let_def
      split: if_splits list.splits)

lemma profile_name_ne [simp]: "profile_name exe pid \<noteq> []"
  by (simp add: profile_name_def)

lemma open_inv_begin:
  "name \<noteq> [] \<Longrightarrow> open_inv tt name [] (begin_session True name (profiler_new fs))"
  unfolding open_inv_def
  by (rule exI [of _ "[]"], rule exI [of _ None], rule exI [of _ "[]"])
    (simp add: session_inv_begin, simp add: begin_session_def file_out_def profiler_new_def m_buffer_cap_def)

lemma open_inv_write:
  assumes "open_inv tt name ws s"
  shows "open_inv tt name (ws @ [d]) (write_profile d s)"
proof -
  obtain bs ff ord where inv: "session_inv tt name bs ff ord s" and e: "\<not> p_ending s"
    and ws: "concat bs @ p_buffer s = ws" and full: "\<forall>b \<in> set bs. length b = m_buffer_cap"
    and short: "length (p_buffer s) < m_buffer_cap"
    using assms by (auto simp: open_inv_def)
  have named: "p_session s \<noteq> []" using inv by (simp add: session_inv_def)
  let ?s = "s\<lparr>p_buffer := p_buffer s @ [d]\<rparr>"
  show ?thesis
  proof (cases "m_buffer_cap \<le> length (p_buffer s) + 1")
    case True
    have "session_inv tt name (bs @ [p_buffer s @ [d]]) ff ord (save_data (p_buffer s @ [d]) ?s)"
      by (rule session_inv_save) (simp_all add: inv)
    then have "session_inv tt name (bs @ [p_buffer s @ [d]]) ff ord (write_profile d s)"
      using True named by (simp add: write_profile_def)
    moreover have "p_buffer (write_profile d s) = []" "\<not> p_ending (write_profile d s)"
      using True named e by (simp_all add: write_profile_def save_data_def)
    ultimately show ?thesis
      using True ws full short unfolding open_inv_def
      by (intro exI [of _ "bs @ [p_buffer s @ [d]]"] exI [of _ ff] exI [of _ ord]) auto
  next
    case False
    then have "write_profile d s = ?s" using named by (simp add: write_profile_def)
    then show ?thesis
      using False inv ws full e unfolding open_inv_def
      by (intro exI [of _ bs] exI [of _ ff] exI [of _ ord]) auto
  qed
qed

lemma open_inv_step:
  assumes inv: "open_inv tt name ws s" and e: "before_end e" and run: "profiler_step tt e s = Some s'"
  shows "open_inv tt name (ws @ written_by e) s'"
proof (cases e)
  case (Write_Profile d)
  then show ?thesis using inv run open_inv_write [OF inv] by (auto simp: written_by_def split: if_splits)
next
  case (Task_Dump i)
  then have "task_dump tt i s = Some s'" using run by simp
  then show ?thesis
    using inv session_inv_dump [of tt name _ _ _ s i s'] task_frame(1) [of tt i s s'] Task_Dump
    unfolding open_inv_def written_by_def by fastforce
next
  case (Task_Append i ok)
  then have "task_append i True s = Some s'" using run e by simp
  then show ?thesis
    using inv session_inv_append [of tt name _ _ _ s i s'] task_frame(2) [of i True s s'] Task_Append
    unfolding open_inv_def written_by_def by fastforce
qed (use e in simp_all)

lemma open_inv_run:
  "open_inv tt name ws s \<Longrightarrow> list_all before_end es \<Longrightarrow> profiler_run tt es s = Some s' \<Longrightarrow>
    open_inv tt name (ws @ written es) s'"
  unfolding written_def by (rule profiling.run_trace [where ok = before_end]) (use open_inv_step in auto)

lemma closing_inv_enter:
  assumes "open_inv tt name ws s" and "profiler_step tt End_Enter s = Some s'"
  shows "closing_inv tt name ws s'"
proof -
  obtain bs ff ord where inv: "session_inv tt name bs ff ord s" and e: "\<not> p_ending s"
    and ws: "concat bs @ p_buffer s = ws" and full: "\<forall>b \<in> set bs. length b = m_buffer_cap"
    and short: "length (p_buffer s) < m_buffer_cap"
    using assms(1) by (auto simp: open_inv_def)
  have s': "s' = end_enter s" using assms(2) e by simp
  have "batches ws = bs @ (if p_buffer s = [] then [] else [p_buffer s])"
    using batches_concat [OF full short] ws by simp
  then have "session_inv tt name (batches ws) ff ord (end_enter s)"
    using inv session_inv_save [OF inv, of "p_buffer s"] by (auto simp: end_enter_def)
  then have "\<exists>ff ord. session_inv tt name (batches ws) ff ord (end_enter s)" by blast
  then show ?thesis unfolding closing_inv_def s' by (simp add: end_enter_def)
qed

lemma closing_inv_step:
  assumes inv: "closing_inv tt name ws s" and e: "during_end e" and run: "profiler_step tt e s = Some s'"
  shows "closing_inv tt name ws s'"
proof (cases e)
  case End_Get
  then have "end_get s = Some s'" using run by (simp split: if_splits)
  then show ?thesis
    using inv session_inv_get [of tt name _ _ _ s s'] task_frame(3) [of s s'] unfolding closing_inv_def by fastforce
next
  case (Task_Dump i)
  then have "task_dump tt i s = Some s'" using run by simp
  then show ?thesis
    using inv session_inv_dump [of tt name _ _ _ s i s'] task_frame(1) [of tt i s s']
    unfolding closing_inv_def by fastforce
next
  case (Task_Append i ok)
  then have "task_append i True s = Some s'" using run e by simp
  then show ?thesis
    using inv session_inv_append [of tt name _ _ _ s i s'] task_frame(2) [of i True s s']
    unfolding closing_inv_def by fastforce
qed (use e in simp_all)

lemma closing_inv_run:
  "closing_inv tt name ws s \<Longrightarrow> list_all during_end es \<Longrightarrow> profiler_run tt es s = Some s' \<Longrightarrow>
    closing_inv tt name ws s'"
  by (rule profiling.run_keeps [where ok = during_end]) (use closing_inv_step in auto)

lemma closing_inv_footer:
  assumes inv: "closing_inv tt name ws s" and run: "profiler_step tt (End_Footer True) s = Some s'"
  shows "\<exists>order k. mset order = mset (batches ws) \<and> (order \<noteq> [] \<longrightarrow> k < length order) \<and>
    p_files s' name = Some (get_header @
      concat (map (\<lambda>i. render tt (i = k) (order ! i)) [0..<length order]) @ get_footer)"
proof -
  obtain ff ord where inv': "session_inv tt name (batches ws) ff ord s" and e: "p_ending s"
    using inv by (auto simp: closing_inv_def)
  have footer: "end_footer True s = Some s'" using run e by simp
  then have ready: "\<forall>fut \<in> set (p_futs s). \<not> snd fut" by (auto simp: end_footer_def split: if_splits)
  have all_done: "t_done (p_tasks s ! i)" if "i < length (batches ws)" for i
    using that inv' ready by (fastforce simp: session_inv_def)
  define order where "order = map ((!) (batches ws)) ord"
  define k where "k = (case ff of None \<Rightarrow> 0 | Some i \<Rightarrow> THE j. j < length ord \<and> ord ! j = i)"
  have ordset: "set ord = {0..<length (batches ws)}" and dist: "distinct ord"
    using inv' all_done by (auto simp: session_inv_def)
  then have perm: "mset ord = mset [0..<length (batches ws)]"
    by (metis distinct_upt set_eq_iff_mset_eq_distinct set_upt)
  have ms: "mset order = mset (batches ws)"
    unfolding order_def by (metis map_nth mset_map perm)
  have k: "k < length ord \<and> (\<forall>j < length ord. ff = Some (ord ! j) \<longleftrightarrow> j = k)" if ne: "ord \<noteq> []"
  proof -
    obtain i where ff: "ff = Some i"
    proof (cases ff)
      case None
      have "hd ord \<in> set ord" using ne by simp
      then have "hd ord < length (batches ws)" "t_done (p_tasks s ! hd ord)" using ordset all_done by auto
      then show ?thesis using inv' None by (fastforce simp: session_inv_def task_ok_def)
    qed auto
    then have "i \<in> set ord" using inv' ordset by (auto simp: session_inv_def)
    then obtain j where j: "j < length ord" "ord ! j = i" by (auto simp: in_set_conv_nth)
    then have "k = j" using dist by (auto simp: k_def ff nth_eq_iff_index_eq intro!: the_equality)
    then show ?thesis using j dist by (auto simp: ff nth_eq_iff_index_eq)
  qed
  have "map (\<lambda>i. render tt (ff = Some i) (batches ws ! i)) ord =
      map (\<lambda>j. render tt (j = k) (order ! j)) [0..<length ord]"
    using k by (cases "ord = []") (auto simp: order_def intro!: nth_equalityI)
  then have "p_files s' name = Some (get_header @
      concat (map (\<lambda>j. render tt (j = k) (order ! j)) [0..<length order]) @ get_footer)"
    using inv' footer by (auto simp: session_inv_def end_footer_def file_app_def order_def split: if_splits)
  moreover have "order \<noteq> [] \<longrightarrow> k < length order" using k by (auto simp: order_def)
  ultimately show ?thesis using ms by blast
qed

text \<open>
  The state of the profiler after its constructor, a run of events before \<open>end_session\<close>, and the
  events until the footer.
\<close>

lemma closing_inv_session:
  assumes "name \<noteq> []" and "list_all before_end es" and "list_all during_end es'"
    and "profiler_run tt (es @ End_Enter # es') (begin_session True name (profiler_new fs)) = Some s"
  shows "closing_inv tt name (written es) s"
proof -
  obtain s1 s2 where s1: "profiler_run tt es (begin_session True name (profiler_new fs)) = Some s1"
    and s2: "profiler_step tt End_Enter s1 = Some s2" and s: "profiler_run tt es' s2 = Some s"
    using assms(4) by (auto simp: profiler_run_append split: Option.bind_splits)
  have "open_inv tt name ([] @ written es) s1"
    by (rule open_inv_run [OF open_inv_begin [OF assms(1)] assms(2) s1])
  then show ?thesis
    using closing_inv_enter [OF _ s2] closing_inv_run [OF _ assms(3) s] by simp
qed

subsection \<open>The end of a session\<close>

text \<open>What is left to do: entries to render, texts to append, futures to get.\<close>

definition task_work :: "'t task \<Rightarrow> nat" where
  "task_work t = length (t_msg t) + (if t_done t then 0 else 1)"

definition profiler_work :: "'t profiler \<Rightarrow> nat" where
  "profiler_work s = sum_list (map task_work (p_tasks s)) + length (filter snd (p_futs s))"

lemma sum_list_change:
  fixes xs :: "nat list"
  shows "i < length xs \<Longrightarrow> Suc x = xs ! i \<Longrightarrow> Suc (sum_list (xs[i := x])) = sum_list xs"
  by (induction xs arbitrary: i) (auto split: nat.splits simp: less_Suc_eq_0_disj)

lemma get_first_work: "get_first f futs = Some futs' \<Longrightarrow> length (filter snd futs) = Suc (length (filter snd futs'))"
  by (induction f futs arbitrary: futs' rule: get_first.induct) (auto split: if_splits)

lemma during_end_work:
  assumes e: "during_end e" and run: "profiler_step tt e s = Some s'"
  shows "profiler_work s = Suc (profiler_work s')"
proof (cases e)
  case End_Get
  then show ?thesis using run get_first_work by (auto simp: end_get_def profiler_work_def split: if_splits)
next
  case (Task_Dump i)
  then have i: "i < length (p_tasks s)" and "t_msg (p_tasks s ! i) \<noteq> []"
    using run by (auto simp: task_dump_def Let_def split: if_splits list.splits)
  then obtain d msg where msg: "t_msg (p_tasks s ! i) = d # msg" by (cases "t_msg (p_tasks s ! i)") auto
  have t: "task_work (p_tasks s ! i) = Suc (task_work ((p_tasks s ! i)\<lparr>t_msg := msg, t_ss := str\<rparr>))" for str
    using msg by (simp add: task_work_def)
  show ?thesis
    using run Task_Dump i msg t
    by (auto simp: task_dump_def Let_def profiler_work_def map_update intro!: sum_list_change [symmetric])
next
  case (Task_Append i ok)
  then have i: "i < length (p_tasks s)" "t_msg (p_tasks s ! i) = []" "\<not> t_done (p_tasks s ! i)"
    using run by (auto simp: task_append_def split: if_splits)
  show ?thesis
    using run Task_Append i
    by (auto simp: task_append_def Let_def profiler_work_def map_update task_work_def file_app_def
        intro!: sum_list_change [symmetric])
qed (use e in simp_all)

lemma during_end_run_work:
  "list_all during_end es \<Longrightarrow> profiler_run tt es s = Some s' \<Longrightarrow> profiler_work s = length es + profiler_work s'"
  by (rule profiling.run_work [where ok = during_end]) (use during_end_work in auto)

lemma get_first_enabled:
  "\<forall>fut \<in> set futs. snd fut \<longrightarrow> f (fst fut) \<Longrightarrow> \<exists>fut \<in> set futs. snd fut \<Longrightarrow> get_first f futs \<noteq> None"
  by (induction f futs rule: get_first.induct) auto

text \<open>While something is left to do, some event can happen.\<close>

lemma closing_step_enabled:
  assumes inv: "closing_inv tt name ws s" and left: "\<exists>fut \<in> set (p_futs s). snd fut"
  shows "\<exists>e s'. during_end e \<and> profiler_step tt e s = Some s'"
proof -
  obtain ff ord where inv': "session_inv tt name (batches ws) ff ord s" and e: "p_ending s"
    using inv by (auto simp: closing_inv_def)
  show ?thesis
  proof (cases "\<forall>t \<in> set (p_tasks s). t_done t")
    case True
    then have "\<forall>fut \<in> set (p_futs s). t_done (p_tasks s ! fst fut)"
      using inv' by (auto simp: session_inv_def)
    then have "get_first (\<lambda>i. t_done (p_tasks s ! i)) (p_futs s) \<noteq> None"
      using get_first_enabled [of "p_futs s" "\<lambda>i. t_done (p_tasks s ! i)"] left by blast
    then have "\<exists>s'. profiler_step tt End_Get s = Some s'" using e by (auto simp: end_get_def)
    then show ?thesis by (intro exI [of _ End_Get]) auto
  next
    case False
    then obtain i where i: "i < length (p_tasks s)" "\<not> t_done (p_tasks s ! i)" by (auto simp: in_set_conv_nth)
    show ?thesis
    proof (cases "t_msg (p_tasks s ! i)")
      case Nil
      then have "\<exists>s'. profiler_step tt (Task_Append i True) s = Some s'" using i by (simp add: task_append_def Let_def)
      then show ?thesis by (intro exI [of _ "Task_Append i True"]) auto
    next
      case (Cons d msg)
      then have "\<exists>s'. profiler_step tt (Task_Dump i) s = Some s'" using i by (simp add: task_dump_def Let_def)
      then show ?thesis by (intro exI [of _ "Task_Dump i"]) auto
    qed
  qed
qed

lemma closing_completes:
  "closing_inv tt name ws s \<Longrightarrow>
    \<exists>es s'. list_all during_end es \<and> profiler_run tt (es @ [End_Footer ok]) s = Some s'"
proof (induction "profiler_work s" arbitrary: s rule: less_induct)
  case less
  show ?case
  proof (cases "\<exists>fut \<in> set (p_futs s). snd fut")
    case True
    then obtain e s1 where e: "during_end e" "profiler_step tt e s = Some s1"
      using closing_step_enabled [OF less.prems] by blast
    have "profiler_work s1 < profiler_work s" using during_end_work [OF e] by simp
    then obtain es s' where "list_all during_end es" "profiler_run tt (es @ [End_Footer ok]) s1 = Some s'"
      using less.hyps closing_inv_step [OF less.prems e] by blast
    then show ?thesis using e by (intro exI [of _ "e # es"] exI [of _ s']) simp
  next
    case False
    then have "\<exists>s'. profiler_run tt ([] @ [End_Footer ok]) s = Some s'"
      using less.prems by (auto simp: end_footer_def closing_inv_def)
    moreover have "list_all during_end []" by simp
    ultimately show ?thesis by blast
  qed
qed

lemma closing_work:
  assumes inv: "closing_inv tt name ws s"
  shows "profiler_work s \<le> length ws + 2 * length (batches ws)"
proof -
  obtain ff ord where inv': "session_inv tt name (batches ws) ff ord s"
    using inv by (auto simp: closing_inv_def)
  have len: "length (p_tasks s) = length (batches ws)" using inv' by (simp add: session_inv_def)
  have each: "task_work (p_tasks s ! i) \<le> Suc (length (batches ws ! i))" if "i < length (batches ws)" for i
    using that inv' by (fastforce simp: session_inv_def task_ok_def task_work_def)
  have "sum_list (map task_work (p_tasks s)) \<le> sum_list (map (\<lambda>b. Suc (length b)) (batches ws))"
    by (rule sum_list_mono2) (use len each in auto)
  also have "\<dots> = length ws + length (batches ws)"
    using concat_batches [of ws] by (metis length_concat sum_list_Suc)
  finally have "sum_list (map task_work (p_tasks s)) \<le> length ws + length (batches ws)" .
  moreover have "length (p_futs s) \<le> length (batches ws)"
  proof -
    have "length (p_futs s) = card (set (map fst (p_futs s)))"
      using inv' by (metis distinct_card length_map session_inv_def)
    also have "\<dots> \<le> card {0..<length (batches ws)}"
      by (rule card_mono) (use inv' in \<open>auto simp: session_inv_def\<close>)
    finally show ?thesis by simp
  qed
  moreover have "length (filter snd (p_futs s)) \<le> length (p_futs s)" by (rule length_filter_le)
  ultimately show ?thesis unfolding profiler_work_def by linarith
qed

subsection \<open>Runs of several events\<close>

lemma run_writes:
  "p_session s \<noteq> [] \<Longrightarrow> \<not> p_ending s \<Longrightarrow> length (p_buffer s) + length ws < m_buffer_cap \<Longrightarrow>
    profiler_run tt (map Write_Profile ws) s = Some (s\<lparr>p_buffer := p_buffer s @ ws\<rparr>)"
  by (induction ws arbitrary: s) (simp_all add: write_profile_def)

lemma run_writes_full:
  assumes "p_session s \<noteq> []" and "\<not> p_ending s" and "p_buffer s = []" and len: "length ws = m_buffer_cap"
  shows "profiler_run tt (map Write_Profile ws) s =
    Some ((save_data ws (s\<lparr>p_buffer := ws\<rparr>))\<lparr>p_buffer := []\<rparr>)"
proof -
  obtain d ws' where ws: "ws = ws' @ [d]" using len by (cases ws rule: rev_cases) (auto simp: m_buffer_cap_def)
  then have "Suc (length ws') = m_buffer_cap" using len by simp
  then show ?thesis
    using assms run_writes [of s ws' tt] by (simp add: ws profiler_run_append write_profile_def)
qed

lemma run_dumps:
  "i < length (p_tasks s) \<Longrightarrow> t_msg (p_tasks s ! i) = ds \<Longrightarrow> ds \<noteq> [] \<Longrightarrow>
    profiler_run tt (replicate (length ds) (Task_Dump i)) s =
      Some (s\<lparr>p_tasks := (p_tasks s)[i := (p_tasks s ! i)\<lparr>t_msg := [],
                 t_ss := t_ss (p_tasks s ! i) @ render tt (p_first_dump s) ds\<rparr>],
              p_first_dump := False\<rparr>)"
proof (induction ds arbitrary: s)
  case (Cons d ds)
  show ?case
  proof (cases "ds = []")
    case True
    then show ?thesis using Cons.prems by (simp add: task_dump_def Let_def)
  next
    case False
    let ?s = "s\<lparr>p_tasks := (p_tasks s)[i := (p_tasks s ! i)\<lparr>t_msg := ds,
        t_ss := t_ss (p_tasks s ! i) @ dump_data tt d (p_first_dump s)\<rparr>], p_first_dump := False\<rparr>"
    have step: "task_dump tt i s = Some ?s" using Cons.prems by (simp add: task_dump_def Let_def)
    have "profiler_run tt (replicate (length ds) (Task_Dump i)) ?s =
        Some (?s\<lparr>p_tasks := (p_tasks ?s)[i := (p_tasks ?s ! i)\<lparr>t_msg := [],
                   t_ss := t_ss (p_tasks ?s ! i) @ render tt (p_first_dump ?s) ds\<rparr>],
                p_first_dump := False\<rparr>)"
      by (rule Cons.IH) (use Cons.prems False in simp_all)
    moreover have "render tt False ds = concat (map (\<lambda>d. dump_data tt d False) ds)" by (cases ds) simp_all
    ultimately show ?thesis using Cons.prems step by simp
  qed
qed simp

text \<open>The events of one call of \<open>end_session\<close> whose task is the \<open>i\<close>-th.\<close>

definition end_events :: "nat \<Rightarrow> nat \<Rightarrow> 't profiler_event list" where
  "end_events n i = End_Enter # replicate n (Task_Dump i) @ [Task_Append i True, End_Get, End_Footer True]"

lemma get_first_last:
  "\<forall>fut \<in> set futs. \<not> snd fut \<Longrightarrow> f i \<Longrightarrow> get_first f (futs @ [(i, True)]) = Some (futs @ [(i, False)])"
  by (induction futs) auto

lemma run_end:
  assumes buf: "p_buffer s \<noteq> []" and e: "\<not> p_ending s" and futs: "\<forall>fut \<in> set (p_futs s). \<not> snd fut"
    and old: "p_files s (p_session s) = Some old" and i: "i = length (p_tasks s)"
  shows "\<exists>s'. profiler_run tt (end_events (length (p_buffer s)) i) s = Some s' \<and>
    p_files s' (p_session s') = Some (old @ render tt (p_first_dump s) (p_buffer s) @ get_footer) \<and>
    p_buffer s' = p_buffer s \<and> \<not> p_ending s' \<and> (\<forall>fut \<in> set (p_futs s'). \<not> snd fut) \<and>
    \<not> p_first_dump s' \<and> length (p_tasks s') = Suc i \<and> p_session s' = p_session s"
proof -
  let ?b = "p_buffer s" and ?txt = "render tt (p_first_dump s) (p_buffer s)"
  let ?t = "\<lambda>msg txt dn. \<lparr>t_session = p_session s, t_msg = msg, t_ss = txt, t_done = dn\<rparr>"
  let ?s1 = "s\<lparr>p_futs := p_futs s @ [(i, True)], p_tasks := p_tasks s @ [?t ?b [] False], p_ending := True\<rparr>"
  let ?s2 = "?s1\<lparr>p_tasks := p_tasks s @ [?t [] ?txt False], p_first_dump := False\<rparr>"
  let ?s3 = "?s2\<lparr>p_tasks := p_tasks s @ [?t [] ?txt True], p_files := (p_files s)(p_session s \<mapsto> old @ ?txt)\<rparr>"
  let ?s4 = "?s3\<lparr>p_futs := p_futs s @ [(i, False)]\<rparr>"
  let ?s5 = "?s4\<lparr>p_files := (p_files s)(p_session s \<mapsto> old @ ?txt @ get_footer), p_ending := False\<rparr>"
  have "filter (\<lambda>fut. \<not> fut_ready s fut) (p_futs s) = p_futs s"
    using futs by (simp add: fut_ready_def)
  then have s1: "profiler_step tt End_Enter s = Some ?s1"
    using buf e i by (simp add: end_enter_def save_data_def)
  have s2: "profiler_run tt (replicate (length ?b) (Task_Dump i)) ?s1 = Some ?s2"
    using run_dumps [of i ?s1 ?b tt] buf i by simp
  have s3: "profiler_step tt (Task_Append i True) ?s2 = Some ?s3"
    using i old by (simp add: task_append_def file_app_def)
  have s4: "profiler_step tt End_Get ?s3 = Some ?s4"
    using get_first_last [OF futs, of "\<lambda>j. t_done (p_tasks ?s3 ! j)" i] i by (simp add: end_get_def)
  have s5: "profiler_step tt (End_Footer True) ?s4 = Some ?s5"
    using futs by (simp add: end_footer_def file_app_def)
  have "profiler_run tt (end_events (length ?b) i) s = Some ?s5"
    unfolding end_events_def profiler_run_append profiler_run.simps s1 Option.bind.bind_lunit s2 s3 s4 s5 ..
  then show ?thesis using futs i by (intro exI [of _ ?s5]) simp
qed

text \<open>
  \<open>end_session\<close> is public, and the destructor calls it again. It leaves the entries in the buffer,
  so the second call writes them once more, after the footer, and a second footer.
\<close>

lemma session_ended_twice:
  assumes "ws \<noteq> []" and "length ws < m_buffer_cap"
  shows "\<exists>s. profiler_run tt (map Write_Profile ws @ end_events (length ws) 0 @ end_events (length ws) 1)
      (profiler_ctor True exe pid fs) = Some s \<and>
    p_files s (p_session s) =
      Some (get_header @ render tt True ws @ get_footer @ render tt False ws @ get_footer)"
proof -
  let ?s0 = "profiler_ctor True exe pid fs"
  let ?s1 = "?s0\<lparr>p_buffer := ws\<rparr>"
  note new = profiler_ctor_def begin_session_def file_out_def profiler_new_def
  have s1: "profiler_run tt (map Write_Profile ws) ?s0 = Some ?s1"
    using run_writes [of ?s0 ws tt] assms by (simp add: new)
  obtain s2 where s2: "profiler_run tt (end_events (length ws) 0) ?s1 = Some s2"
    "p_files s2 (p_session s2) = Some (get_header @ render tt True ws @ get_footer)"
    "p_buffer s2 = ws" "\<not> p_ending s2" "\<forall>fut \<in> set (p_futs s2). \<not> snd fut" "\<not> p_first_dump s2"
    "length (p_tasks s2) = Suc 0"
    using run_end [of ?s1 get_header 0 tt] assms by (auto simp: new)
  obtain s3 where "profiler_run tt (end_events (length ws) 1) s2 = Some s3"
    "p_files s3 (p_session s3) =
      Some ((get_header @ render tt True ws @ get_footer) @ render tt False ws @ get_footer)"
    using run_end [of s2 _ 1 tt, OF _ s2(4,5,2)] s2(3,6,7) assms(1) by auto
  then show ?thesis by (simp add: profiler_run_append s1 s2(1))
qed

subsection \<open>Properties\<close>

text \<open>C24. Whatever the interleaving of the threads, the file of a session holds each measurement
  exactly once: the header, the batches of 1024 consecutive measurements (the last one shorter) in
  some order, each as a whole and in the order in which it was measured, and the footer. Exactly one
  entry has no comma before it, the first of some batch. With at most 1024 measurements, which is one
  batch, the text is what it should be: the entries in order, separated by commas.\<close>

theorem profile_exactly_once:
  assumes "list_all before_end es" and "list_all during_end es'"
    and "profiler_run tt (es @ End_Enter # es' @ [End_Footer True]) (profiler_ctor True exe pid fs) = Some s"
  shows "(\<exists>order k. mset order = mset (batches (written es)) \<and> (order \<noteq> [] \<longrightarrow> k < length order) \<and>
      p_files s (profile_name exe pid) = Some (get_header @
        concat (map (\<lambda>i. render tt (i = k) (order ! i)) [0..<length order]) @ get_footer)) \<and>
    concat (batches (written es)) = written es \<and>
    (length (written es) \<le> m_buffer_cap \<longrightarrow>
      p_files s (profile_name exe pid) =
        Some (get_header @ render tt True (written es) @ get_footer))"
proof -
  let ?name = "profile_name exe pid"
  obtain s1 where s1: "profiler_run tt (es @ End_Enter # es') (begin_session True ?name (profiler_new fs)) = Some s1"
    and s: "profiler_step tt (End_Footer True) s1 = Some s"
    using assms(3) by (auto simp: profiler_ctor_def profiler_run_append split: Option.bind_splits)
  have "closing_inv tt ?name (written es) s1"
    by (rule closing_inv_session [OF _ assms(1,2) s1]) simp
  then obtain order k where o: "mset order = mset (batches (written es))" "order \<noteq> [] \<longrightarrow> k < length order"
    and contents: "p_files s ?name = Some (get_header @
      concat (map (\<lambda>i. render tt (i = k) (order ! i)) [0..<length order]) @ get_footer)"
    using closing_inv_footer [OF _ s] by blast
  have "p_files s ?name = Some (get_header @ render tt True (written es) @ get_footer)"
    if "length (written es) \<le> m_buffer_cap"
  proof (cases "written es = []")
    case True
    then show ?thesis using o(1) contents by simp
  next
    case False
    then have "order = [written es]" using o(1) that by (simp add: batches_short)
    then show ?thesis using o(2) contents by simp
  qed
  then show ?thesis using o contents concat_batches by blast
qed

text \<open>C35. \<open>end_session\<close> returns: once it has the mutex, at most as many events can happen as there are
  measurements and twice as many as there are batches, and from wherever they have led, the tasks can
  end and the footer be written.\<close>

theorem end_session_returns:
  assumes "list_all before_end es" and "list_all during_end es'"
    and "profiler_run tt (es @ End_Enter # es') (profiler_ctor True exe pid fs) = Some s"
  shows "length es' \<le> length (written es) + 2 * length (batches (written es)) \<and>
    (\<exists>es'' s'. list_all during_end es'' \<and> profiler_run tt (es'' @ [End_Footer ok]) s = Some s')"
proof -
  let ?name = "profile_name exe pid"
  let ?s0 = "begin_session True ?name (profiler_new fs)"
  have run: "profiler_run tt (es @ End_Enter # es') ?s0 = Some s" using assms(3) by (simp add: profiler_ctor_def)
  then obtain s1 where s1: "profiler_run tt (es @ End_Enter # []) ?s0 = Some s1" and s: "profiler_run tt es' s1 = Some s"
    by (auto simp: profiler_run_append split: Option.bind_splits)
  have "closing_inv tt ?name (written es) s1"
    by (rule closing_inv_session [OF _ assms(1) _ s1]) simp_all
  from closing_work [OF this] have "length es' \<le> length (written es) + 2 * length (batches (written es))"
    using during_end_run_work [OF assms(2) s] by simp
  moreover have "closing_inv tt ?name (written es) s"
    by (rule closing_inv_session [OF _ assms(1,2) run]) simp
  ultimately show ?thesis using closing_completes by blast
qed

text \<open>C38. With more than one batch the file may be malformed. A task takes \<open>m_first_dump\<close> when it renders
  its first entry and the mutex of the file only when it has rendered them all. When the first of two
  full batches is rendered before the second and appended after it, the list of events begins with a
  comma, and in its middle an entry follows the one before it without a comma.\<close>

theorem profile_malformed:
  assumes "length ws1 = m_buffer_cap" and "length ws2 = m_buffer_cap"
  shows "\<exists>s. profiler_run tt (map Write_Profile (ws1 @ ws2) @
        replicate m_buffer_cap (Task_Dump 0) @ replicate m_buffer_cap (Task_Dump 1) @
        [Task_Append 1 True, Task_Append 0 True, End_Enter, End_Get, End_Get, End_Footer True])
      (profiler_ctor True exe pid fs) = Some s \<and>
    p_files s (profile_name exe pid) =
      Some (get_header @ render tt False ws2 @ render tt True ws1 @ get_footer) \<and>
    (\<exists>rest. render tt False ws2 = CHR '','' # rest)"
proof -
  let ?name = "profile_name exe pid"
  let ?t = "\<lambda>msg txt. \<lparr>t_session = ?name, t_msg = msg, t_ss = txt, t_done = False\<rparr>"
  let ?s0 = "profiler_ctor True exe pid fs"
  let ?s1 = "?s0\<lparr>p_futs := [(0, True)], p_tasks := [?t ws1 []]\<rparr>"
  let ?s2 = "?s0\<lparr>p_futs := [(0, True), (1, True)], p_tasks := [?t ws1 [], ?t ws2 []]\<rparr>"
  let ?s3 = "?s2\<lparr>p_tasks := [?t [] (render tt True ws1), ?t ws2 []], p_first_dump := False\<rparr>"
  let ?s4 = "?s3\<lparr>p_tasks := [?t [] (render tt True ws1), ?t [] (render tt False ws2)]\<rparr>"
  note new = profiler_ctor_def begin_session_def file_out_def profiler_new_def
  have ne: "ws1 \<noteq> []" "ws2 \<noteq> []" using assms by (auto simp: m_buffer_cap_def)
  have s1: "profiler_run tt (map Write_Profile ws1) ?s0 = Some ?s1"
    using run_writes_full [of ?s0 ws1 tt] assms by (simp add: new save_data_def)
  have s2: "profiler_run tt (map Write_Profile ws2) ?s1 = Some ?s2"
    using run_writes_full [of ?s1 ws2 tt] assms by (simp add: new save_data_def fut_ready_def)
  have s3: "profiler_run tt (replicate m_buffer_cap (Task_Dump 0)) ?s2 = Some ?s3"
    using run_dumps [of 0 ?s2 ws1 tt] assms ne by (simp add: new)
  have s4: "profiler_run tt (replicate m_buffer_cap (Task_Dump 1)) ?s3 = Some ?s4"
    using run_dumps [of 1 ?s3 ws2 tt] assms ne by (simp add: new)
  have "\<exists>s. profiler_run tt [Task_Append 1 True, Task_Append 0 True, End_Enter, End_Get, End_Get,
      End_Footer True] ?s4 = Some s \<and>
    p_files s ?name = Some (get_header @ render tt False ws2 @ render tt True ws1 @ get_footer)"
    (is "\<exists>s. profiler_run tt ?last ?s4 = Some s \<and> ?text s")
    by (simp add: task_append_def file_app_def end_enter_def end_get_def end_footer_def new)
  then obtain s where last: "profiler_run tt ?last ?s4 = Some s" and contents: "?text s" by blast
  have "profiler_run tt (map Write_Profile (ws1 @ ws2) @ replicate m_buffer_cap (Task_Dump 0) @
      replicate m_buffer_cap (Task_Dump 1) @ ?last) ?s0 = Some s"
    unfolding map_append append_assoc profiler_run_append s1 s2 s3 s4 last Option.bind.bind_lunit ..
  then show ?thesis using contents render_comma [OF ne(2), of tt] by blast
qed

text \<open>Concrete sessions: two measurements, and two full batches of one measurement.\<close>

definition sample_entry :: "u32 \<Rightarrow> unit profiler_data" where
  "sample_entry t = \<lparr>m_pid = 7, m_tid = (), m_name = Name_Ptr ''wait'', m_start = t, m_duration = 2\<rparr>"

lemma profile_exactly_once_witness:
  "\<exists>s. profiler_run (\<lambda>_. ''1'') ([Write_Profile (sample_entry 3), Write_Profile (sample_entry 5)] @ End_Enter #
      [Task_Dump 0, Task_Dump 0, Task_Append 0 True, End_Get] @ [End_Footer True])
      (profiler_ctor True (Some ''a'') 7 (\<lambda>_. None)) = Some s \<and>
    p_files s (profile_name (Some ''a'') 7) =
      Some (get_header @ render (\<lambda>_. ''1'') True [sample_entry 3, sample_entry 5] @ get_footer)"
proof -
  let ?es = "[Write_Profile (sample_entry 3), Write_Profile (sample_entry 5)]"
  let ?es' = "[Task_Dump 0, Task_Dump 0, Task_Append 0 True, End_Get]"
  let ?s0 = "profiler_ctor True (Some ''a'') 7 (\<lambda>_. None)"
  obtain s where s: "profiler_run (\<lambda>_. ''1'') (?es @ End_Enter # ?es' @ [End_Footer True]) ?s0 = Some s"
    by (simp add: profiler_ctor_def begin_session_def file_out_def profiler_new_def write_profile_def
        m_buffer_cap_def end_enter_def save_data_def fut_ready_def task_dump_def task_append_def file_app_def
        end_get_def end_footer_def Let_def)
  then show ?thesis
    using profile_exactly_once [of ?es ?es' "\<lambda>_. ''1''" "Some ''a''" 7 "\<lambda>_. None" s]
    by (simp add: written_def written_by_def m_buffer_cap_def)
qed

lemma end_session_returns_witness:
  "\<exists>s. profiler_run (\<lambda>_. ''1'') ([Write_Profile (sample_entry 3)] @ End_Enter # [Task_Dump 0])
      (profiler_ctor True (Some ''a'') 7 (\<lambda>_. None)) = Some s \<and>
    (\<exists>es'' s'. list_all during_end es'' \<and> profiler_run (\<lambda>_. ''1'') (es'' @ [End_Footer True]) s = Some s')"
proof -
  let ?es = "[Write_Profile (sample_entry 3)]" and ?es' = "[Task_Dump 0]"
  let ?s0 = "profiler_ctor True (Some ''a'') 7 (\<lambda>_. None)"
  obtain s where s: "profiler_run (\<lambda>_. ''1'') (?es @ End_Enter # ?es') ?s0 = Some s"
    by (simp add: profiler_ctor_def begin_session_def file_out_def profiler_new_def write_profile_def
        m_buffer_cap_def end_enter_def save_data_def fut_ready_def task_dump_def Let_def)
  then show ?thesis
    using end_session_returns [of ?es ?es' "\<lambda>_. ''1''" "Some ''a''" 7 "\<lambda>_. None" s True] by auto
qed

lemma profile_malformed_witness:
  "\<exists>s rest. p_files s (profile_name (Some ''a'') 7) = Some (get_header @ CHR '','' # rest) \<and>
    profiler_run (\<lambda>_. ''1'') (map Write_Profile (replicate 1024 (sample_entry 3) @ replicate 1024 (sample_entry 5)) @
        replicate m_buffer_cap (Task_Dump 0) @ replicate m_buffer_cap (Task_Dump 1) @
        [Task_Append 1 True, Task_Append 0 True, End_Enter, End_Get, End_Get, End_Footer True])
      (profiler_ctor True (Some ''a'') 7 (\<lambda>_. None)) = Some s"
  using profile_malformed [of "replicate 1024 (sample_entry 3)" "replicate 1024 (sample_entry 5)"
      "\<lambda>_. ''1''" "Some ''a''" 7 "\<lambda>_. None"]
  by (auto simp: m_buffer_cap_def)

end
